theory Spec2Isabelle
  imports Complex_Main "HOL-Library.Word"
begin

section \<open>Data model of ObjectAllocator.cpp\<close>

text \<open>
  The allocator works on raw memory. Memory is a flat, total byte store indexed by
  addresses; a pointer is an address and the null pointer is address 0. Pointer
  arithmetic is arithmetic on natural numbers (a pointer never wraps around; the
  subtraction of an offset larger than the pointer stops at 0). The integer fields keep
  their C++ widths: \<open>unsigned\<close> is a 32-bit word, \<open>size_t\<close> a 64-bit word, and their
  arithmetic wraps around. The target is an LP64, little-endian machine:
  \<open>sizeof(void *) = 8\<close>, \<open>sizeof(unsigned) = 4\<close>, \<open>sizeof(unsigned short) = 2\<close>.
\<close>

type_synonym byte = "8 word"
type_synonym unsigned = "32 word"
type_synonym size_t = "64 word"
type_synonym addr = nat
type_synonym memory = "addr \<Rightarrow> byte"

definition PTR_SIZE :: nat where
  "PTR_SIZE = 8"

datatype HBLOCK_TYPE = hbNone | hbBasic | hbExtended | hbExternal

text \<open>The fields of the C++ structs carry a trailing underscore, which is dropped here.\<close>

record HeaderBlockInfo =
  hb_type :: HBLOCK_TYPE
  hb_size :: size_t
  hb_additional :: size_t

record OAConfig =
  UseCPPMemManager :: bool
  ObjectsPerPage :: unsigned
  MaxPages :: unsigned
  DebugOn :: bool
  PadBytes :: unsigned
  HBlockInfo :: HeaderBlockInfo
  Alignment :: unsigned
  LeftAlignSize :: unsigned
  InterAlignSize :: unsigned

record OAStats =
  ObjectSize :: size_t
  PageSize :: size_t
  FreeObjects :: unsigned
  ObjectsInUse :: unsigned
  PagesInUse :: unsigned
  MostObjects :: unsigned
  Allocations :: unsigned
  Deallocations :: unsigned

record MemBlockInfo =
  in_use :: bool
  label :: "string option"
  alloc_num :: unsigned

text \<open>
  ObjectAllocator.h is not part of the sources. Its compile-time constants that the
  functions below use are parameters of the model: the five byte patterns and
  \<open>OAConfig::BASIC_HEADER_SIZE\<close>.
\<close>

record OAConsts =
  UNALLOCATED_PATTERN :: byte
  ALLOCATED_PATTERN :: byte
  FREED_PATTERN :: byte
  PAD_PATTERN :: byte
  ALIGN_PATTERN :: byte
  BASIC_HEADER_SIZE :: size_t

datatype OA_EXCEPTION =
  E_NO_MEMORY | E_NO_PAGES | E_BAD_BOUNDARY | E_MULTIPLE_FREE | E_CORRUPTED_BLOCK

text \<open>
  A call either returns or throws. A C++ exception does not undo the assignments made
  before it: every operation yields its outcome together with the state it leaves.
\<close>

datatype 'a outcome = Return 'a | Throw OA_EXCEPTION

text \<open>
  The state: the members of the class, the constants it was compiled with, the memory it
  reads and writes, the \<open>MemBlockInfo\<close> records that external headers point to, and the
  addresses handed back to the host with \<open>delete[]\<close> (newest first).
\<close>

record ObjectAllocator =
  hdr :: OAConsts
  configuration :: OAConfig
  stats :: OAStats
  PageList :: addr
  FreeList :: addr
  pageHeader :: size_t
  dataSize :: size_t
  totalDataSize :: size_t
  mem :: memory
  infos :: "addr \<rightharpoonup> MemBlockInfo"
  deleted :: "addr list"

text \<open>
  What the host's \<open>new\<close> answers during one call of \<open>Allocate\<close>: \<open>None\<close> is
  \<open>std::bad_alloc\<close>, \<open>Some a\<close> the address of the new storage. \<open>new_page\<close> is asked
  for by \<open>AllocateNewPage\<close>, \<open>new_info\<close> for the \<open>MemBlockInfo\<close> of an external
  header (with its label), \<open>new_object\<close> in passthrough mode.
\<close>

record HostNew =
  new_page :: "addr option"
  new_info :: "addr option"
  new_object :: "addr option"

section \<open>Memory primitives\<close>

definition memset :: "memory \<Rightarrow> addr \<Rightarrow> byte \<Rightarrow> nat \<Rightarrow> memory" where
  "memset m dst v n = (\<lambda>x. if dst \<le> x \<and> x < dst + n then v else m x)"

text \<open>Little-endian load and store of an \<open>n\<close>-byte unsigned value.\<close>

fun load_le :: "memory \<Rightarrow> addr \<Rightarrow> nat \<Rightarrow> nat" where
  "load_le m a 0 = 0"
| "load_le m a (Suc n) = unat (m a) + 256 * load_le m (Suc a) n"

definition store_le :: "memory \<Rightarrow> addr \<Rightarrow> nat \<Rightarrow> nat \<Rightarrow> memory" where
  "store_le m a n v = (\<lambda>x. if a \<le> x \<and> x < a + n then of_nat (v div 256 ^ (x - a)) else m x)"

definition load_ptr :: "memory \<Rightarrow> addr \<Rightarrow> addr" where
  "load_ptr m a = load_le m a PTR_SIZE"

definition store_ptr :: "memory \<Rightarrow> addr \<Rightarrow> addr \<Rightarrow> memory" where
  "store_ptr m a v = store_le m a PTR_SIZE v"

section \<open>Geometry and construction\<close>

definition align :: "size_t \<Rightarrow> size_t \<Rightarrow> size_t" where
  "align sz alignment =
     (if alignment = 0 then sz
      else (let remainder = (if sz mod alignment = 0 then 0 else 1)
            in alignment * (sz div alignment + remainder)))"

text \<open>
  Modelled from the spec: the default constructor of \<open>OAStats\<close> (in ObjectAllocator.h)
  sets every statistic to zero; a fresh allocator has no objects in use.
\<close>

definition OAStats_init :: OAStats where
  "OAStats_init =
     \<lparr>ObjectSize = 0, PageSize = 0, FreeObjects = 0, ObjectsInUse = 0, PagesInUse = 0,
      MostObjects = 0, Allocations = 0, Deallocations = 0\<rparr>"

text \<open>
  The constructor up to the call of \<open>AllocateNewPage\<close> (lines 41 to 57). \<open>K\<close> are the
  constants of the header, \<open>m0\<close> is the memory at the time of the call.
  \<open>config.PadBytes_ * 2\<close> and \<open>config.ObjectsPerPage_ - 1\<close> are computed on 32 bits.
\<close>

definition construct :: "OAConsts \<Rightarrow> memory \<Rightarrow> size_t \<Rightarrow> OAConfig \<Rightarrow> ObjectAllocator" where
  "construct K m0 ObjSize config =
     (let unalignedPageHeader = of_nat PTR_SIZE + hb_size (HBlockInfo config) + ucast (PadBytes config);
          pageHeader' = align unalignedPageHeader (ucast (Alignment config));
          dataSize' = align (ObjSize + ucast (PadBytes config * 2) + hb_size (HBlockInfo config))
                        (ucast (Alignment config));
          midBlockSize = ObjSize + ucast (PadBytes config * 2) + hb_size (HBlockInfo config)
      in \<lparr>hdr = K,
          configuration = config
            \<lparr>LeftAlignSize := ucast (pageHeader' - unalignedPageHeader),
             InterAlignSize := ucast (align midBlockSize (ucast (Alignment config)) - midBlockSize)\<rparr>,
          stats = OAStats_init
            \<lparr>ObjectSize := ObjSize,
             PageSize := pageHeader' + dataSize' * ucast (ObjectsPerPage config - 1) + ObjSize
                          + ucast (PadBytes config)\<rparr>,
          PageList = 0,
          FreeList = 0,
          pageHeader = pageHeader',
          dataSize = dataSize',
          totalDataSize = dataSize' * ucast (ObjectsPerPage config - 1) + ObjSize
                            + ucast (PadBytes config),
          mem = m0,
          infos = Map.empty,
          deleted = []\<rparr>)"

definition AddToFreeList :: "addr \<Rightarrow> ObjectAllocator \<Rightarrow> ObjectAllocator" where
  "AddToFreeList obj s =
     (let temp = FreeList s
      in s\<lparr>FreeList := obj,
           mem := store_ptr (mem s) obj temp,
           stats := (stats s)\<lparr>FreeObjects := FreeObjects (stats s) + 1\<rparr>\<rparr>)"

text \<open>The address of the header block of the data block whose payload starts at \<open>obj\<close>.\<close>

definition headerStart :: "ObjectAllocator \<Rightarrow> addr \<Rightarrow> addr" where
  "headerStart s obj =
     obj - unat (PadBytes (configuration s)) - unat (hb_size (HBlockInfo (configuration s)))"

text \<open>
  The body of the loop of \<open>AllocateNewPage\<close> for the data block at \<open>d\<close> (lines 104 to
  118). In debug mode the first \<open>memset\<close> has the length \<open>ObjectSize_ - PTR_SIZE\<close>, computed
  in \<open>size_t\<close>: for an object smaller than a pointer it wraps around to at least
  \<open>2^64 - 8\<close> bytes, the call runs off the page and the program does not survive it. The
  body has no result then.
\<close>

definition init_block :: "addr \<Rightarrow> ObjectAllocator \<Rightarrow> ObjectAllocator option" where
  "init_block d s =
     (let P = unat (PadBytes (configuration s));
          s1 = s\<lparr>mem := memset (mem s) (headerStart s d) 0
                           (unat (hb_size (HBlockInfo (configuration s))))\<rparr>;
          s2 = AddToFreeList d s1
      in if DebugOn (configuration s) then
           (if ObjectSize (stats s) < of_nat PTR_SIZE then None
            else
              Some (s2\<lparr>mem :=
                     memset
                       (memset
                          (memset (mem s2) (d + PTR_SIZE) (UNALLOCATED_PATTERN (hdr s))
                             (unat (ObjectSize (stats s) - of_nat PTR_SIZE)))
                          (d - P) (PAD_PATTERN (hdr s)) P)
                       (d + unat (ObjectSize (stats s))) (PAD_PATTERN (hdr s)) P\<rparr>))
         else Some s2)"

text \<open>
  The loop of \<open>AllocateNewPage\<close>: \<open>off\<close> is \<open>dataStartAddress - pageStartAddress\<close>,
  which the loop test casts to \<open>unsigned int\<close>. The loop need not terminate (a stride
  of 0, a page of 4 GiB or more).
\<close>

partial_function (option) init_page_loop ::
  "addr \<Rightarrow> nat \<Rightarrow> ObjectAllocator \<Rightarrow> ObjectAllocator option" where
  "init_page_loop page off s =
     (if off mod 2 ^ 32 < unat (PageSize (stats s))
      then (case init_block (page + off) s of
              None \<Rightarrow> None
            | Some s1 \<Rightarrow> init_page_loop page (off + unat (dataSize s)) s1)
      else Some s)"

declare init_page_loop.simps [code]

text \<open>
  \<open>AllocateNewPage\<close> is only ever called on \<open>PageList_\<close>, which its reference parameter
  aliases. \<open>np\<close> is the answer of \<open>new unsigned char[PageSize_ + PTR_SIZE]()\<close>, which
  zero-initialises the array.
\<close>

definition AllocateNewPage ::
  "addr option \<Rightarrow> ObjectAllocator \<Rightarrow> (unit outcome \<times> ObjectAllocator) option" where
  "AllocateNewPage np s =
     (if MaxPages (configuration s) \<le> PagesInUse (stats s) then Some (Throw E_NO_PAGES, s)
      else
        (case np of
           None \<Rightarrow> Some (Throw E_NO_MEMORY, s)
         | Some newPage \<Rightarrow>
             (let psz = unat (PageSize (stats s));
                  m1 = memset (mem s) newPage 0 (unat (PageSize (stats s) + of_nat PTR_SIZE));
                  m2 = memset m1 newPage 0 psz;
                  m3 = (if DebugOn (configuration s)
                        then memset m2 newPage (ALIGN_PATTERN (hdr s)) psz else m2);
                  m4 = store_ptr m3 newPage (PageList s);
                  s1 = s\<lparr>stats := (stats s)\<lparr>PagesInUse := PagesInUse (stats s) + 1\<rparr>,
                         mem := m4,
                         PageList := newPage\<rparr>
              in map_option (Pair (Return ()))
                   (init_page_loop newPage (unat (pageHeader s)) s1))))"

definition ObjectAllocator_ctor ::
  "OAConsts \<Rightarrow> memory \<Rightarrow> addr option \<Rightarrow> size_t \<Rightarrow> OAConfig
     \<Rightarrow> (unit outcome \<times> ObjectAllocator) option" where
  "ObjectAllocator_ctor K m0 np ObjSize config = AllocateNewPage np (construct K m0 ObjSize config)"

section \<open>Allocate\<close>

text \<open>The header update of \<open>Allocate\<close> (lines 186 to 218) for the block at \<open>obj\<close>.\<close>

definition Allocate_header ::
  "string option \<Rightarrow> addr option \<Rightarrow> addr \<Rightarrow> ObjectAllocator
     \<Rightarrow> addr outcome \<times> ObjectAllocator" where
  "Allocate_header lbl ni obj s =
     (let hs = headerStart s obj; hb = HBlockInfo (configuration s)
      in case hb_type hb of
           hbNone \<Rightarrow> (Return obj, s)
         | hbBasic \<Rightarrow>
             (Return obj,
              s\<lparr>mem := (store_le (mem s) hs 4 (unat (Allocations (stats s))))(hs + 4 := 1)\<rparr>)
         | hbExtended \<Rightarrow>
             (let hs1 = hs + unat (ucast (hb_additional hb) :: byte);
                  m1 = (mem s)(hs1 := mem s hs1 + 1);
                  hs2 = hs1 + 2;
                  m2 = store_le m1 hs2 4 (unat (Allocations (stats s)));
                  hs3 = hs2 + 4
              in (Return obj, s\<lparr>mem := m2(hs3 := 1)\<rparr>))
         | hbExternal \<Rightarrow>
             (case ni of
                None \<Rightarrow> (Throw E_NO_MEMORY, s)
              | Some i \<Rightarrow>
                  (Return obj,
                   s\<lparr>infos := (infos s)(i \<mapsto>
                        \<lparr>in_use = True, label = lbl, alloc_num = Allocations (stats s)\<rparr>),
                     mem := store_ptr (mem s) hs i\<rparr>)))"

text \<open>\<open>Allocate\<close> from line 171 on: pop the head of the free list.\<close>

definition Allocate_pop ::
  "string option \<Rightarrow> addr option \<Rightarrow> ObjectAllocator \<Rightarrow> addr outcome \<times> ObjectAllocator" where
  "Allocate_pop lbl ni s =
     (let startAddressOfObject = FreeList s;
          s1 = s\<lparr>FreeList := load_ptr (mem s) (FreeList s)\<rparr>;
          s2 = (if DebugOn (configuration s1)
                then s1\<lparr>mem := memset (mem s1) startAddressOfObject (ALLOCATED_PATTERN (hdr s1))
                                  (unat (ObjectSize (stats s1)))\<rparr>
                else s1);
          st = stats s2;
          st1 = st\<lparr>ObjectsInUse := ObjectsInUse st + 1,
                   Allocations := Allocations st + 1,
                   FreeObjects := FreeObjects st - 1\<rparr>;
          st2 = (if MostObjects st1 < ObjectsInUse st1
                 then st1\<lparr>MostObjects := ObjectsInUse st1\<rparr> else st1)
      in Allocate_header lbl ni startAddressOfObject (s2\<lparr>stats := st2\<rparr>))"

text \<open>
  \<open>Allocate\<close>. When the free list is still empty after \<open>AllocateNewPage\<close> (a page
  without blocks), \<open>FreeList_->Next\<close> at line 172 dereferences a null pointer: the call has
  no result.
\<close>

definition Allocate ::
  "string option \<Rightarrow> HostNew \<Rightarrow> ObjectAllocator \<Rightarrow> (addr outcome \<times> ObjectAllocator) option" where
  "Allocate lbl h s =
     (if UseCPPMemManager (configuration s) then
        (case new_object h of
           None \<Rightarrow> Some (Throw E_NO_MEMORY, s)
         | Some newObj \<Rightarrow>
             (let st = stats s;
                  st1 = st\<lparr>ObjectsInUse := ObjectsInUse st + 1\<rparr>;
                  st2 = (if MostObjects st1 < ObjectsInUse st1
                         then st1\<lparr>MostObjects := ObjectsInUse st1\<rparr> else st1);
                  st3 = st2\<lparr>Allocations := Allocations st2 + 1,
                            FreeObjects := FreeObjects st2 - 1\<rparr>
              in Some (Return newObj, s\<lparr>stats := st3\<rparr>)))
      else
        (case (if FreeList s = 0 then AllocateNewPage (new_page h) s else Some (Return (), s)) of
           None \<Rightarrow> None
         | Some (Throw e, s1) \<Rightarrow> Some (Throw e, s1)
         | Some (Return u, s1) \<Rightarrow>
             if FreeList s1 = 0 then None else Some (Allocate_pop lbl (new_info h) s1)))"

section \<open>Free\<close>

text \<open>\<open>CheckPageBoundary\<close>: the walk along the page list, which reads the links from memory.\<close>

partial_function (option) CheckPageBoundary_loop ::
  "memory \<Rightarrow> nat \<Rightarrow> addr \<Rightarrow> addr \<Rightarrow> unit outcome option" where
  "CheckPageBoundary_loop m psz obj page =
     (if page = 0 then Some (Return ())
      else if page \<le> obj \<and> obj < page + psz then Some (Return ())
      else (let page' = load_ptr m page
            in if page' = 0 then Some (Throw E_BAD_BOUNDARY)
               else CheckPageBoundary_loop m psz obj page'))"

declare CheckPageBoundary_loop.simps [code]

definition CheckPageBoundary :: "addr \<Rightarrow> ObjectAllocator \<Rightarrow> unit outcome option" where
  "CheckPageBoundary obj s =
     CheckPageBoundary_loop (mem s) (unat (PageSize (stats s))) obj (PageList s)"

text \<open>
  \<open>CheckPadding\<close>: the loop over the left pad, and inside its last round the loop over
  the right pad. The lists are the values the loop counters still take.
\<close>

fun CheckPadding_right :: "memory \<Rightarrow> byte \<Rightarrow> addr \<Rightarrow> nat list \<Rightarrow> unit outcome" where
  "CheckPadding_right m pad rightPadAddress [] = Return ()"
| "CheckPadding_right m pad rightPadAddress (j # js) =
     (if m (rightPadAddress + j) \<noteq> pad then Throw E_CORRUPTED_BLOCK
      else CheckPadding_right m pad rightPadAddress js)"

fun CheckPadding_left ::
  "memory \<Rightarrow> byte \<Rightarrow> nat \<Rightarrow> addr \<Rightarrow> addr \<Rightarrow> nat list \<Rightarrow> unit outcome" where
  "CheckPadding_left m pad P leftPadAddress rightPadAddress [] = Return ()"
| "CheckPadding_left m pad P leftPadAddress rightPadAddress (i # is) =
     (if m (leftPadAddress + i) \<noteq> pad then Throw E_CORRUPTED_BLOCK
      else
        (case (if i = P - 1 then CheckPadding_right m pad rightPadAddress [0..<P] else Return ()) of
           Throw e \<Rightarrow> Throw e
         | Return u \<Rightarrow> CheckPadding_left m pad P leftPadAddress rightPadAddress is))"

definition CheckPadding :: "addr \<Rightarrow> ObjectAllocator \<Rightarrow> unit outcome" where
  "CheckPadding obj s =
     (let P = unat (PadBytes (configuration s))
      in CheckPadding_left (mem s) (PAD_PATTERN (hdr s)) P (obj - P)
           (obj + unat (ObjectSize (stats s))) [0..<P])"

text \<open>The debug block of \<open>Free\<close> (lines 354 to 364).\<close>

definition Free_debug ::
  "addr \<Rightarrow> ObjectAllocator \<Rightarrow> (unit outcome \<times> ObjectAllocator) option" where
  "Free_debug obj s =
     (case CheckPageBoundary obj s of
        None \<Rightarrow> None
      | Some (Throw e) \<Rightarrow> Some (Throw e, s)
      | Some (Return u) \<Rightarrow>
          (case CheckPadding obj s of
             Throw e \<Rightarrow> Some (Throw e, s)
           | Return u \<Rightarrow>
               if mem s (obj + PTR_SIZE) = FREED_PATTERN (hdr s)
               then Some (Throw E_MULTIPLE_FREE, s)
               else Some (Return (),
                          s\<lparr>mem := memset (mem s) obj (FREED_PATTERN (hdr s))
                                     (unat (ObjectSize (stats s)))\<rparr>)))"

text \<open>The header update of \<open>Free\<close> (lines 365 to 384).\<close>

definition Free_header :: "addr \<Rightarrow> ObjectAllocator \<Rightarrow> ObjectAllocator" where
  "Free_header obj s =
     (let hs = headerStart s obj; hb = HBlockInfo (configuration s)
      in case hb_type hb of
           hbNone \<Rightarrow> s
         | hbBasic \<Rightarrow> s\<lparr>mem := memset (mem s) hs 0 (unat (BASIC_HEADER_SIZE (hdr s)))\<rparr>
         | hbExtended \<Rightarrow>
             s\<lparr>mem := memset (mem s) (hs + unat (hb_additional hb) + 2) 0
                        (unat (BASIC_HEADER_SIZE (hdr s)))\<rparr>
         | hbExternal \<Rightarrow>
             s\<lparr>infos := (infos s)(load_ptr (mem s) hs := None),
               mem := store_ptr (mem s) hs 0\<rparr>)"

definition Free :: "addr \<Rightarrow> ObjectAllocator \<Rightarrow> (unit outcome \<times> ObjectAllocator) option" where
  "Free obj s0 =
     (let s = s0\<lparr>stats := (stats s0)\<lparr>Deallocations := Deallocations (stats s0) + 1,
                                     ObjectsInUse := ObjectsInUse (stats s0) - 1\<rparr>\<rparr>
      in if UseCPPMemManager (configuration s) then Some (Return (), s\<lparr>deleted := obj # deleted s\<rparr>)
         else
           (case (if DebugOn (configuration s) then Free_debug obj s else Some (Return (), s)) of
              None \<Rightarrow> None
            | Some (Throw e, s1) \<Rightarrow> Some (Throw e, s1)
            | Some (Return u, s1) \<Rightarrow> Some (Return (), AddToFreeList obj (Free_header obj s1))))"

section \<open>DumpMemoryInUse\<close>

text \<open>
  The callback is a function value that receives \<open>(pointer, size)\<close>; the model returns
  the calls made, in order, besides the number of leaks. The inner loop runs over the
  \<open>ObjectsPerPage_\<close> blocks of a page, the outer one along the page list.
\<close>

fun DumpMemoryInUse_blocks ::
  "ObjectAllocator \<Rightarrow> nat \<Rightarrow> addr \<Rightarrow> unsigned \<times> (addr \<times> size_t) list
     \<Rightarrow> unsigned \<times> (addr \<times> size_t) list" where
  "DumpMemoryInUse_blocks s 0 obj acc = acc"
| "DumpMemoryInUse_blocks s (Suc n) obj acc =
     DumpMemoryInUse_blocks s n (obj + unat (dataSize s))
       (case hb_type (HBlockInfo (configuration s)) of
          hbNone \<Rightarrow> acc
        | hbBasic \<Rightarrow>
            if mem s (obj - unat (PadBytes (configuration s)) - 1) \<noteq> 0
            then (fst acc + 1, snd acc @ [(obj, ObjectSize (stats s))]) else acc
        | hbExtended \<Rightarrow>
            if mem s (obj - unat (PadBytes (configuration s)) - 1) \<noteq> 0
            then (fst acc + 1, snd acc @ [(obj, ObjectSize (stats s))]) else acc
        | hbExternal \<Rightarrow> acc)"

partial_function (option) DumpMemoryInUse_pages ::
  "ObjectAllocator \<Rightarrow> addr \<Rightarrow> unsigned \<times> (addr \<times> size_t) list
     \<Rightarrow> (unsigned \<times> (addr \<times> size_t) list) option" where
  "DumpMemoryInUse_pages s page acc =
     (if page = 0 then Some acc
      else DumpMemoryInUse_pages s (load_ptr (mem s) page)
             (DumpMemoryInUse_blocks s (unat (ObjectsPerPage (configuration s)))
                (page + unat (pageHeader s)) acc))"

declare DumpMemoryInUse_pages.simps [code]

definition DumpMemoryInUse :: "ObjectAllocator \<Rightarrow> (unsigned \<times> (addr \<times> size_t) list) option" where
  "DumpMemoryInUse s = DumpMemoryInUse_pages s (PageList s) (0, [])"

section \<open>FreeEmptyPages\<close>

text \<open>The test that both \<open>IsPageEmpty\<close> and \<open>FreePage\<close> make on a free-list node.\<close>

definition within_page :: "ObjectAllocator \<Rightarrow> addr \<Rightarrow> addr \<Rightarrow> bool" where
  "within_page s page freeBlock \<longleftrightarrow>
     page \<le> freeBlock \<and> freeBlock < page + unat (PageSize (stats s))"














section \<open>Example configuration\<close>

text \<open>
  A concrete instance for the closed examples below: the byte patterns and the basic
  header of five bytes (allocation number and flag) that the course material of this
  allocator uses, a debug configuration with two blocks per page, and a page at 4096.
\<close>

definition example_consts :: OAConsts where
  "example_consts =
     \<lparr>UNALLOCATED_PATTERN = 0xAA, ALLOCATED_PATTERN = 0xBB, FREED_PATTERN = 0xCC,
      PAD_PATTERN = 0xDD, ALIGN_PATTERN = 0xEE, BASIC_HEADER_SIZE = 5\<rparr>"

definition example_config :: OAConfig where
  "example_config =
     \<lparr>UseCPPMemManager = False, ObjectsPerPage = 2, MaxPages = 2, DebugOn = True,
      PadBytes = 2, HBlockInfo = \<lparr>hb_type = hbBasic, hb_size = 5, hb_additional = 0\<rparr>,
      Alignment = 8, LeftAlignSize = 0, InterAlignSize = 0\<rparr>"

section \<open>Facts about memory\<close>

lemma memset_apply: "memset m d v n x = (if d \<le> x \<and> x < d + n then v else m x)"
  by (simp add: memset_def)

lemma store_le_apply:
  "store_le m a n v x = (if a \<le> x \<and> x < a + n then of_nat (v div 256 ^ (x - a)) else m x)"
  by (simp add: store_le_def)

lemma load_le_cong:
  "(\<And>x. a \<le> x \<Longrightarrow> x < a + n \<Longrightarrow> m x = m' x) \<Longrightarrow> load_le m a n = load_le m' a n"
proof (induction n arbitrary: a)
  case 0
  then show ?case by simp
next
  case (Suc n)
  have "load_le m (Suc a) n = load_le m' (Suc a) n"
    by (rule Suc.IH) (simp add: Suc.prems)
  moreover have "m a = m' a" by (simp add: Suc.prems)
  ultimately show ?case by simp
qed

lemma load_le_store_le_same: "load_le (store_le m a n v) a n = v mod 256 ^ n"
proof (induction n arbitrary: a v m)
  case 0
  then show ?case by simp
next
  case (Suc n)
  have "load_le (store_le m a (Suc n) v) (Suc a) n = load_le (store_le m (Suc a) n (v div 256)) (Suc a) n"
  proof (rule load_le_cong)
    fix x assume "Suc a \<le> x" "x < Suc a + n"
    then have "v div 256 ^ (x - a) = (v div 256) div 256 ^ (x - Suc a)"
      by (metis Suc_diff_le div_mult2_eq power_Suc diff_Suc_Suc)
    with \<open>Suc a \<le> x\<close> \<open>x < Suc a + n\<close> show "store_le m a (Suc n) v x = store_le m (Suc a) n (v div 256) x"
      by (simp add: store_le_apply)
  qed
  then have "load_le (store_le m a (Suc n) v) (Suc a) n = (v div 256) mod 256 ^ n"
    by (simp add: Suc.IH)
  moreover have "unat (store_le m a (Suc n) v a) = v mod 256"
    by (simp add: store_le_apply unat_of_nat)
  ultimately show ?case
    by (simp add: mod_mult2_eq)
qed

lemma load_ptr_store_ptr_same: "v < 2 ^ 64 \<Longrightarrow> load_ptr (store_ptr m a v) a = v"
  by (simp add: load_ptr_def store_ptr_def load_le_store_le_same PTR_SIZE_def)

lemma load_ptr_cong:
  "(\<And>x. a \<le> x \<Longrightarrow> x < a + PTR_SIZE \<Longrightarrow> m x = m' x) \<Longrightarrow> load_ptr m a = load_ptr m' a"
  unfolding load_ptr_def by (rule load_le_cong)

lemma load_le_bound: "load_le m a n < 256 ^ n"
proof (induction n arbitrary: a)
  case 0
  then show ?case by simp
next
  case (Suc n)
  have "unat (m a) < 256" using unsigned_less [of "m a", where ?'a = nat] by simp
  moreover have "load_le m (Suc a) n < 256 ^ n" by (rule Suc.IH)
  ultimately show ?case by simp
qed

lemma load_ptr_bound: "load_ptr m a < 2 ^ 64"
  using load_le_bound [of m a PTR_SIZE] by (simp add: load_ptr_def PTR_SIZE_def)

section \<open>Which exceptions the operations throw\<close>

lemma CheckPageBoundary_loop_throws:
  "CheckPageBoundary_loop m psz obj page = Some r \<Longrightarrow> r = Return () \<or> r = Throw E_BAD_BOUNDARY"
proof -
  assume a: "CheckPageBoundary_loop m psz obj page = Some r"
  show ?thesis
    by (rule CheckPageBoundary_loop.raw_induct [OF _ a]) (auto simp: Let_def split: if_splits)
qed

lemma CheckPadding_right_throws:
  "CheckPadding_right m pad ra js = Throw e \<Longrightarrow> e = E_CORRUPTED_BLOCK"
  by (induction js) (auto split: if_splits)

lemma CheckPadding_left_throws:
  "CheckPadding_left m pad P la ra is = Throw e \<Longrightarrow> e = E_CORRUPTED_BLOCK"
  by (induction "is") (auto split: if_splits outcome.splits dest: CheckPadding_right_throws)

lemma Free_debug_throws:
  assumes "Free_debug obj s = Some (Throw e, s')"
  shows "s' = s \<and> e \<in> {E_BAD_BOUNDARY, E_CORRUPTED_BLOCK, E_MULTIPLE_FREE}"
  using assms
  by (auto simp: Free_debug_def CheckPageBoundary_def CheckPadding_def Let_def
      split: option.splits outcome.splits if_splits
      dest: CheckPageBoundary_loop_throws CheckPadding_left_throws)

lemma Allocate_pop_throws:
  "Allocate_pop lbl ni s = (Throw e, s') \<Longrightarrow> e = E_NO_MEMORY"
  by (auto simp: Allocate_pop_def Allocate_header_def Let_def split: HBLOCK_TYPE.splits option.splits if_splits)

section \<open>Claims\<close>

text \<open>
  C1 (as amended). \<open>AllocateNewPage\<close> throws \<open>E_NO_PAGES\<close> exactly when
  \<open>PagesInUse_ \<ge> MaxPages_\<close>, and \<open>Allocate\<close> throws it exactly when, outside
  passthrough mode, the free list is empty and \<open>PagesInUse_ \<ge> MaxPages_\<close>. The value 0 of
  \<open>MaxPages_\<close> is not treated as unbounded: with it every page allocation throws
  \<open>E_NO_PAGES\<close>.
\<close>

theorem AllocateNewPage_NO_PAGES:
  "((\<exists>s'. AllocateNewPage np s = Some (Throw E_NO_PAGES, s'))
      \<longleftrightarrow> MaxPages (configuration s) \<le> PagesInUse (stats s)) \<and>
   ((\<exists>s'. Allocate lbl h s = Some (Throw E_NO_PAGES, s'))
      \<longleftrightarrow> \<not> UseCPPMemManager (configuration s) \<and> FreeList s = 0 \<and>
          MaxPages (configuration s) \<le> PagesInUse (stats s)) \<and>
   (MaxPages (configuration s) = 0 \<longrightarrow> AllocateNewPage np s = Some (Throw E_NO_PAGES, s))"
proof (intro conjI)
  show "(\<exists>s'. AllocateNewPage np s = Some (Throw E_NO_PAGES, s'))
      \<longleftrightarrow> MaxPages (configuration s) \<le> PagesInUse (stats s)"
    by (auto simp: AllocateNewPage_def Let_def split: option.splits)
  show "(\<exists>s'. Allocate lbl h s = Some (Throw E_NO_PAGES, s'))
      \<longleftrightarrow> \<not> UseCPPMemManager (configuration s) \<and> FreeList s = 0 \<and>
          MaxPages (configuration s) \<le> PagesInUse (stats s)"
    by (auto simp: Allocate_def AllocateNewPage_def Let_def
        split: option.splits outcome.splits if_splits dest: Allocate_pop_throws)
  show "MaxPages (configuration s) = 0 \<longrightarrow> AllocateNewPage np s = Some (Throw E_NO_PAGES, s)"
    by (simp add: AllocateNewPage_def)
qed

theorem AllocateNewPage_NO_PAGES_witness:
  "AllocateNewPage None
     (construct example_consts (\<lambda>x. 0) 16 (example_config\<lparr>MaxPages := 0\<rparr>)) =
   Some (Throw E_NO_PAGES, construct example_consts (\<lambda>x. 0) 16 (example_config\<lparr>MaxPages := 0\<rparr>))"
proof -
  have "MaxPages (configuration (construct example_consts (\<lambda>x. 0) 16 (example_config\<lparr>MaxPages := 0\<rparr>))) = 0"
    by (simp add: construct_def Let_def)
  with AllocateNewPage_NO_PAGES
    [of None "construct example_consts (\<lambda>x. 0) 16 (example_config\<lparr>MaxPages := 0\<rparr>)"]
  show ?thesis by blast
qed

text \<open>
  C1 as stated fails: constructing an allocator with \<open>MaxPages_ = 0\<close> throws
  \<open>E_NO_PAGES\<close> although the host would have provided the page.
\<close>

theorem MaxPages_0_not_unbounded:
  "MaxPages (example_config\<lparr>MaxPages := 0\<rparr>) = 0 \<and>
   ObjectAllocator_ctor example_consts (\<lambda>x. 0) (Some 4096) 16 (example_config\<lparr>MaxPages := 0\<rparr>) =
   Some (Throw E_NO_PAGES, construct example_consts (\<lambda>x. 0) 16 (example_config\<lparr>MaxPages := 0\<rparr>))"
  by (simp add: ObjectAllocator_ctor_def AllocateNewPage_def construct_def Let_def)

lemma Free_debug_returns:
  assumes "Free_debug obj s = Some (Return u, s')"
  shows "stats s' = stats s \<and> FreeList s' = FreeList s \<and> configuration s' = configuration s"
  using assms
  by (auto simp: Free_debug_def split: option.splits outcome.splits if_splits)

lemma Free_header_stats: "stats (Free_header obj s) = stats s"
  by (simp add: Free_header_def Let_def split: HBLOCK_TYPE.splits)

text \<open>
  C3. Outside passthrough mode every \<open>Free\<close> that comes back, by returning or by throwing,
  has incremented \<open>Deallocations_\<close> and decremented \<open>ObjectsInUse_\<close>: the two counters are
  changed at entry, before the checks. A \<open>Free\<close> that throws does so in debug mode with
  \<open>E_BAD_BOUNDARY\<close>, \<open>E_CORRUPTED_BLOCK\<close> or \<open>E_MULTIPLE_FREE\<close>, and the state it leaves
  differs from the state before the call exactly in these two counters: the free list, the
  memory (hence every header) and \<open>FreeObjects_\<close> are unchanged. Only a \<open>Free\<close> that
  returns has pushed the block on the free list and incremented \<open>FreeObjects_\<close>.
\<close>

theorem Free_throw_not_atomic:
  assumes "\<not> UseCPPMemManager (configuration s)"
    and "Free obj s = Some (r, s')"
  shows "Deallocations (stats s') = Deallocations (stats s) + 1 \<and>
         ObjectsInUse (stats s') = ObjectsInUse (stats s) - 1 \<and>
         (\<forall>e. r = Throw e \<longrightarrow>
            DebugOn (configuration s) \<and>
            e \<in> {E_BAD_BOUNDARY, E_CORRUPTED_BLOCK, E_MULTIPLE_FREE} \<and>
            s' = s\<lparr>stats := (stats s)\<lparr>Deallocations := Deallocations (stats s) + 1,
                                       ObjectsInUse := ObjectsInUse (stats s) - 1\<rparr>\<rparr>) \<and>
         (r = Return () \<longrightarrow>
            FreeList s' = obj \<and> FreeObjects (stats s') = FreeObjects (stats s) + 1)"
  using assms
  by (auto simp: Free_def Let_def AddToFreeList_def Free_header_stats
      split: option.splits outcome.splits if_splits prod.splits
      dest!: Free_debug_throws Free_debug_returns)

definition align_spec :: "nat \<Rightarrow> nat \<Rightarrow> nat" where
  "align_spec x a = (if 0 < a then a * nat \<lceil>real x / real a\<rceil> else x)"

lemma ceiling_nat_div:
  "0 < a \<Longrightarrow> nat \<lceil>real x / real a\<rceil> = x div a + (if x mod a = 0 then 0 else 1)"
proof -
  assume a: "0 < a"
  have "\<lceil>real x / real a\<rceil> = - (- int x div int a)"
    using ceiling_divide_eq_div [of "int x" "int a", where ?'a = real] by simp
  also have "\<dots> = int (x div a) + (if x mod a = 0 then 0 else 1)"
    using a by (simp add: zdiv_zminus1_eq_if zdiv_int zmod_int [symmetric] del: of_nat_mod of_nat_div)
  finally show ?thesis by (auto simp: nat_add_distrib)
qed

lemma align_spec_eq:
  "align_spec x a = (if a = 0 then x else a * (x div a + (if x mod a = 0 then 0 else 1)))"
  by (simp add: align_spec_def ceiling_nat_div)

lemma align_spec_ge: "x \<le> align_spec x a"
proof (cases "a = 0")
  case True
  then show ?thesis by (simp add: align_spec_eq)
next
  case False
  have e: "a * (x div a) + x mod a = x" by simp
  have l: "x mod a < a" using False by simp
  have "x \<le> a * (x div a) + (if x mod a = 0 then 0 else a)"
  proof (cases "x mod a = 0")
    case True
    have "x \<le> a * (x div a) + 0" using e True by linarith
    with True show ?thesis by simp
  next
    case nz: False
    have "x \<le> a * (x div a) + a" using e l by linarith
    with nz show ?thesis by simp
  qed
  also have "\<dots> = a * (x div a + (if x mod a = 0 then 0 else 1))"
    by (simp add: algebra_simps)
  finally show ?thesis using False by (simp add: align_spec_eq)
qed

lemma unat_align:
  assumes "align_spec (unat sz) (unat al) < 2 ^ 64"
  shows "unat (align sz al) = align_spec (unat sz) (unat al)"
proof (cases "al = 0")
  case True
  then show ?thesis by (simp add: align_def align_spec_eq)
next
  case False
  then have nz: "unat al \<noteq> 0" by (simp add: unat_eq_0)
  let ?r = "if unat sz mod unat al = 0 then 0 else (1::nat)"
  have bound: "unat al * (unat sz div unat al + ?r) < 2 ^ 64"
    using assms nz by (simp add: align_spec_eq)
  have q: "unat sz div unat al + ?r < 2 ^ 64"
  proof -
    have "unat sz div unat al + ?r \<le> unat al * (unat sz div unat al + ?r)" using nz by simp
    with bound show ?thesis by linarith
  qed
  have rw: "(if sz mod al = 0 then 0 else 1 :: size_t) = of_nat ?r"
    by (simp add: unat_mod [symmetric] unat_eq_0)
  have "unat (sz div al + of_nat ?r) = unat sz div unat al + ?r"
    using q by (simp add: unat_add_lem [THEN iffD1] unat_div unat_of_nat)
  then have "unat (al * (sz div al + of_nat ?r)) = unat al * (unat sz div unat al + ?r)"
    using bound by (simp add: unat_mult_lem [THEN iffD1])
  with False nz show ?thesis by (simp add: align_def align_spec_eq Let_def rw)
qed

definition page_header_spec :: "OAConfig \<Rightarrow> nat" where
  "page_header_spec c =
     align_spec (PTR_SIZE + unat (hb_size (HBlockInfo c)) + unat (PadBytes c)) (unat (Alignment c))"

definition stride_spec :: "size_t \<Rightarrow> OAConfig \<Rightarrow> nat" where
  "stride_spec S c =
     align_spec (unat (hb_size (HBlockInfo c)) + 2 * unat (PadBytes c) + unat S) (unat (Alignment c))"

definition page_size_spec :: "size_t \<Rightarrow> OAConfig \<Rightarrow> nat" where
  "page_size_spec S c =
     page_header_spec c + (unat (ObjectsPerPage c) - 1) * stride_spec S c + unat S + unat (PadBytes c)"

definition representable :: "size_t \<Rightarrow> OAConfig \<Rightarrow> bool" where
  "representable S c \<longleftrightarrow>
     1 \<le> unat (ObjectsPerPage c) \<and> 2 * unat (PadBytes c) < 2 ^ 32 \<and>
     stride_spec S c < 2 ^ 64 \<and> page_size_spec S c < 2 ^ 64"

lemma unat_ucast_32_64: "unat (ucast (w :: unsigned) :: size_t) = unat w"
proof -
  have "unat w < 2 ^ 32" using unsigned_less [of w, where ?'a = nat] by simp
  then have "unat w < 2 ^ 64" by simp
  then show ?thesis by (simp add: unsigned_ucast_eq take_bit_nat_eq_self)
qed

lemma unat_add_nowrap: "unat (a :: 'a::len word) + unat b < 2 ^ LENGTH('a) \<Longrightarrow> unat (a + b) = unat a + unat b"
  by (simp add: unat_add_lem)

lemma unat_mult_nowrap: "unat (a :: 'a::len word) * unat b < 2 ^ LENGTH('a) \<Longrightarrow> unat (a * b) = unat a * unat b"
  by (simp add: unat_mult_lem)

lemma unat_sub_nowrap: "unat b \<le> unat (a :: 'a::len word) \<Longrightarrow> unat (a - b) = unat a - unat b"
  by (simp add: unat_sub word_le_nat_alt)

lemma unat_minus_1: "1 \<le> unat (w :: 'a::len word) \<Longrightarrow> unat (w - 1) = unat w - 1"
  using unat_sub_nowrap [of 1 w] by simp

lemma align_spec_0: "align_spec x 0 = x"
  by (simp add: align_spec_eq)

lemma unat_ucast_64_32: "unat w < 2 ^ 32 \<Longrightarrow> unat (ucast (w :: size_t) :: unsigned) = unat w"
  by (simp add: unsigned_ucast_eq take_bit_nat_eq_self)

lemma unat_add3:
  assumes "unat a + unat b + unat c < 2 ^ 64"
  shows "unat (a + b + c :: size_t) = unat a + unat b + unat c"
proof -
  have ab: "unat (a + b) = unat a + unat b"
    using assms by (intro unat_add_nowrap) simp
  have "unat (a + b + c) = unat (a + b) + unat c"
    using assms unfolding ab [symmetric] by (intro unat_add_nowrap) simp
  with ab show ?thesis by simp
qed

lemma unat_add4:
  assumes "unat a + unat b + unat c + unat d < 2 ^ 64"
  shows "unat (a + b + c + d :: size_t) = unat a + unat b + unat c + unat d"
proof -
  have abc: "unat (a + b + c) = unat a + unat b + unat c"
    using assms by (intro unat_add3) simp
  have "unat (a + b + c + d) = unat (a + b + c) + unat d"
    using assms unfolding abc [symmetric] by (intro unat_add_nowrap) simp
  with abc show ?thesis by simp
qed

lemma align_spec_less: "0 < a \<Longrightarrow> align_spec x a < x + a"
proof -
  assume a: "0 < a"
  have e: "a * (x div a) + x mod a = x" by simp
  show ?thesis
  proof (cases "x mod a = 0")
    case True
    have "a * (x div a) < x + a" using e a by linarith
    with True a show ?thesis by (simp add: align_spec_eq)
  next
    case False
    then have "0 < x mod a" by simp
    then have "a * (x div a) + a < x + a" using e by linarith
    with False a show ?thesis by (simp add: align_spec_eq)
  qed
qed

lemma unat_mid_block:
  assumes "2 * unat (PadBytes c) < 2 ^ 32" and "stride_spec S c < 2 ^ 64"
  shows "unat (S + ucast (PadBytes c * 2) + hb_size (HBlockInfo c)) =
         unat (hb_size (HBlockInfo c)) + 2 * unat (PadBytes c) + unat S"
proof -
  let ?x = "unat (hb_size (HBlockInfo c)) + 2 * unat (PadBytes c) + unat S"
  have "unat (PadBytes c) * unat (2 :: unsigned) < 2 ^ LENGTH(32)"
    using assms(1) by simp
  then have "unat (PadBytes c * 2) = unat (PadBytes c) * unat (2 :: unsigned)"
    by (rule unat_mult_nowrap)
  then have p2: "unat (ucast (PadBytes c * 2) :: size_t) = 2 * unat (PadBytes c)"
    by (simp add: unat_ucast_32_64)
  have "?x \<le> stride_spec S c"
    unfolding stride_spec_def by (rule align_spec_ge)
  with assms(2) have "unat S + unat (ucast (PadBytes c * 2) :: size_t) + unat (hb_size (HBlockInfo c)) < 2 ^ 64"
    unfolding p2 by linarith
  then have "unat (S + ucast (PadBytes c * 2) + hb_size (HBlockInfo c)) =
      unat S + unat (ucast (PadBytes c * 2) :: size_t) + unat (hb_size (HBlockInfo c))"
    by (rule unat_add3)
  then show ?thesis unfolding p2 by linarith
qed

lemma construct_simps:
  "hdr (construct K m0 S c) = K"
  "PageList (construct K m0 S c) = 0"
  "FreeList (construct K m0 S c) = 0"
  "mem (construct K m0 S c) = m0"
  "infos (construct K m0 S c) = Map.empty"
  "deleted (construct K m0 S c) = []"
  "pageHeader (construct K m0 S c) =
     align (of_nat PTR_SIZE + hb_size (HBlockInfo c) + ucast (PadBytes c)) (ucast (Alignment c))"
  "dataSize (construct K m0 S c) =
     align (S + ucast (PadBytes c * 2) + hb_size (HBlockInfo c)) (ucast (Alignment c))"
  "stats (construct K m0 S c) =
     \<lparr>ObjectSize = S,
      PageSize = pageHeader (construct K m0 S c)
                 + dataSize (construct K m0 S c) * ucast (ObjectsPerPage c - 1) + S + ucast (PadBytes c),
      FreeObjects = 0, ObjectsInUse = 0, PagesInUse = 0,
      MostObjects = 0, Allocations = 0, Deallocations = 0\<rparr>"
  "configuration (construct K m0 S c) =
     c\<lparr>LeftAlignSize := ucast (pageHeader (construct K m0 S c)
                              - (of_nat PTR_SIZE + hb_size (HBlockInfo c) + ucast (PadBytes c))),
       InterAlignSize := ucast (dataSize (construct K m0 S c)
                              - (S + ucast (PadBytes c * 2) + hb_size (HBlockInfo c)))\<rparr>"
  by (simp_all add: construct_def Let_def OAStats_init_def)

lemma unat_unaligned_header:
  assumes "page_header_spec c < 2 ^ 64"
  shows "unat (of_nat PTR_SIZE + hb_size (HBlockInfo c) + ucast (PadBytes c) :: size_t) =
         PTR_SIZE + unat (hb_size (HBlockInfo c)) + unat (PadBytes c)"
proof -
  let ?u = "PTR_SIZE + unat (hb_size (HBlockInfo c)) + unat (PadBytes c)"
  have w: "unat (of_nat PTR_SIZE :: size_t) = PTR_SIZE" by (simp add: PTR_SIZE_def)
  have "?u \<le> page_header_spec c"
    unfolding page_header_spec_def by (rule align_spec_ge)
  with assms have "unat (of_nat PTR_SIZE :: size_t) + unat (hb_size (HBlockInfo c))
      + unat (ucast (PadBytes c) :: size_t) < 2 ^ 64"
    unfolding w unat_ucast_32_64 by linarith
  then have "unat (of_nat PTR_SIZE + hb_size (HBlockInfo c) + ucast (PadBytes c) :: size_t) =
      unat (of_nat PTR_SIZE :: size_t) + unat (hb_size (HBlockInfo c)) + unat (ucast (PadBytes c) :: size_t)"
    by (rule unat_add3)
  then show ?thesis unfolding w unat_ucast_32_64 .
qed

lemma construct_pageHeader:
  assumes "page_header_spec c < 2 ^ 64"
  shows "unat (pageHeader (construct K m0 S c)) = page_header_spec c"
proof -
  have "align_spec (unat (of_nat PTR_SIZE + hb_size (HBlockInfo c) + ucast (PadBytes c) :: size_t))
          (unat (ucast (Alignment c) :: size_t)) = page_header_spec c"
    unfolding unat_unaligned_header [OF assms] unat_ucast_32_64 page_header_spec_def ..
  with assms show ?thesis
    unfolding construct_simps by (simp add: unat_align)
qed

lemma construct_dataSize:
  assumes "2 * unat (PadBytes c) < 2 ^ 32" and "stride_spec S c < 2 ^ 64"
  shows "unat (dataSize (construct K m0 S c)) = stride_spec S c"
proof -
  have "align_spec (unat (S + ucast (PadBytes c * 2) + hb_size (HBlockInfo c)))
          (unat (ucast (Alignment c) :: size_t)) = stride_spec S c"
    unfolding unat_mid_block [OF assms] unat_ucast_32_64 stride_spec_def ..
  with assms(2) show ?thesis
    unfolding construct_simps by (simp add: unat_align)
qed

lemma construct_PageSize:
  assumes "representable S c"
  shows "unat (PageSize (stats (construct K m0 S c))) = page_size_spec S c"
proof -
  from assms have n: "1 \<le> unat (ObjectsPerPage c)" and p: "2 * unat (PadBytes c) < 2 ^ 32"
    and d: "stride_spec S c < 2 ^ 64" and ps: "page_size_spec S c < 2 ^ 64"
    by (simp_all add: representable_def)
  let ?PH = "pageHeader (construct K m0 S c)" and ?D = "dataSize (construct K m0 S c)"
  let ?N1 = "ucast (ObjectsPerPage c - 1) :: size_t"
  have "page_header_spec c \<le> page_size_spec S c" by (simp add: page_size_spec_def)
  with ps have "page_header_spec c < 2 ^ 64" by linarith
  then have ph: "unat ?PH = page_header_spec c" by (rule construct_pageHeader)
  have ds: "unat ?D = stride_spec S c" using p d by (rule construct_dataSize)
  have n1: "unat ?N1 = unat (ObjectsPerPage c) - 1"
    unfolding unat_ucast_32_64 using n by (rule unat_minus_1)
  have "(unat (ObjectsPerPage c) - 1) * stride_spec S c \<le> page_size_spec S c"
    by (simp add: page_size_spec_def)
  with ps have "unat ?D * unat ?N1 < 2 ^ LENGTH(64)"
    unfolding ds n1 by (simp add: mult.commute)
  then have "unat (?D * ?N1) = unat ?D * unat ?N1" by (rule unat_mult_nowrap)
  then have m: "unat (?D * ?N1) = (unat (ObjectsPerPage c) - 1) * stride_spec S c"
    unfolding ds n1 by (simp add: mult.commute)
  have "unat ?PH + unat (?D * ?N1) + unat S + unat (ucast (PadBytes c) :: size_t) < 2 ^ 64"
    unfolding ph m unat_ucast_32_64 using ps unfolding page_size_spec_def .
  then have "unat (?PH + ?D * ?N1 + S + ucast (PadBytes c)) =
      unat ?PH + unat (?D * ?N1) + unat S + unat (ucast (PadBytes c) :: size_t)"
    by (rule unat_add4)
  then have "unat (?PH + ?D * ?N1 + S + ucast (PadBytes c)) = page_size_spec S c"
    unfolding ph m unat_ucast_32_64 page_size_spec_def .
  then show ?thesis by (simp add: construct_simps(9))
qed

lemma align_spec_slack: "align_spec x (unat (a :: unsigned)) - x < 2 ^ 32"
proof (cases "unat a = 0")
  case True
  then show ?thesis by (simp add: align_spec_eq)
next
  case False
  then have "align_spec x (unat a) < x + unat a" by (intro align_spec_less) simp
  moreover have "unat a < 2 ^ 32" using unsigned_less [of a, where ?'a = nat] by simp
  ultimately show ?thesis by linarith
qed

lemma construct_LeftAlignSize:
  assumes "page_header_spec c < 2 ^ 64"
  shows "unat (LeftAlignSize (configuration (construct K m0 S c))) =
         page_header_spec c - (PTR_SIZE + unat (hb_size (HBlockInfo c)) + unat (PadBytes c))"
proof -
  let ?u = "PTR_SIZE + unat (hb_size (HBlockInfo c)) + unat (PadBytes c)"
  let ?uw = "of_nat PTR_SIZE + hb_size (HBlockInfo c) + ucast (PadBytes c) :: size_t"
  let ?PH = "pageHeader (construct K m0 S c)"
  have u: "unat ?uw = ?u" using assms by (rule unat_unaligned_header)
  have ph: "unat ?PH = page_header_spec c" using assms by (rule construct_pageHeader)
  have "?u \<le> page_header_spec c"
    unfolding page_header_spec_def by (rule align_spec_ge)
  then have "unat ?uw \<le> unat ?PH" unfolding u ph .
  then have "unat (?PH - ?uw) = unat ?PH - unat ?uw" by (rule unat_sub_nowrap)
  then have d: "unat (?PH - ?uw) = page_header_spec c - ?u" unfolding u ph .
  have "page_header_spec c - ?u < 2 ^ 32"
    unfolding page_header_spec_def by (rule align_spec_slack)
  then have "unat (?PH - ?uw) < 2 ^ 32" unfolding d .
  then have "unat (ucast (?PH - ?uw) :: unsigned) = unat (?PH - ?uw)" by (rule unat_ucast_64_32)
  then show ?thesis unfolding d by (simp add: construct_simps(10))
qed

lemma construct_InterAlignSize:
  assumes "2 * unat (PadBytes c) < 2 ^ 32" and "stride_spec S c < 2 ^ 64"
  shows "unat (InterAlignSize (configuration (construct K m0 S c))) =
         stride_spec S c - (unat (hb_size (HBlockInfo c)) + 2 * unat (PadBytes c) + unat S)"
proof -
  let ?x = "unat (hb_size (HBlockInfo c)) + 2 * unat (PadBytes c) + unat S"
  let ?xw = "S + ucast (PadBytes c * 2) + hb_size (HBlockInfo c)"
  let ?D = "dataSize (construct K m0 S c)"
  have x: "unat ?xw = ?x" using assms by (rule unat_mid_block)
  have ds: "unat ?D = stride_spec S c" using assms by (rule construct_dataSize)
  have "?x \<le> stride_spec S c"
    unfolding stride_spec_def by (rule align_spec_ge)
  then have "unat ?xw \<le> unat ?D" unfolding x ds .
  then have "unat (?D - ?xw) = unat ?D - unat ?xw" by (rule unat_sub_nowrap)
  then have d: "unat (?D - ?xw) = stride_spec S c - ?x" unfolding x ds .
  have "stride_spec S c - ?x < 2 ^ 32"
    unfolding stride_spec_def by (rule align_spec_slack)
  then have "unat (?D - ?xw) < 2 ^ 32" unfolding d .
  then have "unat (ucast (?D - ?xw) :: unsigned) = unat (?D - ?xw)" by (rule unat_ucast_64_32)
  then show ?thesis unfolding d by (simp add: construct_simps(10))
qed

text \<open>
  C6 (as amended). For every configuration \<open>{S, A, P, H, N}\<close> whose geometry is representable in the
  integer types of the code (at least one block per page, \<open>2P\<close> below \<open>2^32\<close>, stride and
  page size below \<open>2^64\<close>), the constructor computes the page header
  \<open>PH = align(W + H + P, A)\<close>, the stride \<open>D = align(H + 2P + S, A)\<close>,
  \<open>PageSize = PH + (N - 1) * D + S + P\<close>, \<open>LeftAlignSize = PH - (W + H + P)\<close> and
  \<open>InterAlignSize = D - (H + 2P + S)\<close>, where \<open>align\<close> is the function of the spec,
  \<open>align(x, a) = a * ceil(x / a)\<close> for \<open>a > 0\<close> and \<open>align(x, 0) = x\<close>.
\<close>

theorem construct_geometry:
  assumes "representable S c"
  shows "unat (pageHeader (construct K m0 S c)) =
           align_spec (PTR_SIZE + unat (hb_size (HBlockInfo c)) + unat (PadBytes c)) (unat (Alignment c)) \<and>
         unat (dataSize (construct K m0 S c)) =
           align_spec (unat (hb_size (HBlockInfo c)) + 2 * unat (PadBytes c) + unat S) (unat (Alignment c)) \<and>
         unat (PageSize (stats (construct K m0 S c))) =
           unat (pageHeader (construct K m0 S c))
             + (unat (ObjectsPerPage c) - 1) * unat (dataSize (construct K m0 S c))
             + unat S + unat (PadBytes c) \<and>
         unat (LeftAlignSize (configuration (construct K m0 S c))) =
           unat (pageHeader (construct K m0 S c))
             - (PTR_SIZE + unat (hb_size (HBlockInfo c)) + unat (PadBytes c)) \<and>
         unat (InterAlignSize (configuration (construct K m0 S c))) =
           unat (dataSize (construct K m0 S c))
             - (unat (hb_size (HBlockInfo c)) + 2 * unat (PadBytes c) + unat S)"
proof -
  from assms have n: "1 \<le> unat (ObjectsPerPage c)" and p: "2 * unat (PadBytes c) < 2 ^ 32"
    and d: "stride_spec S c < 2 ^ 64" and ps: "page_size_spec S c < 2 ^ 64"
    by (simp_all add: representable_def)
  have "page_header_spec c \<le> page_size_spec S c" by (simp add: page_size_spec_def)
  with ps have h: "page_header_spec c < 2 ^ 64" by linarith
  note ph = construct_pageHeader [OF h, of K m0 S]
  note ds = construct_dataSize [OF p d, of K m0]
  show ?thesis
    unfolding ph ds construct_PageSize [OF assms] construct_LeftAlignSize [OF h]
      construct_InterAlignSize [OF p d]
    by (simp add: page_header_spec_def stride_spec_def page_size_spec_def)
qed

lemma example_representable: "representable 16 example_config"
  by (simp add: representable_def stride_spec_def page_size_spec_def page_header_spec_def
      example_config_def align_spec_def PTR_SIZE_def)

theorem construct_geometry_witness:
  "unat (pageHeader (construct example_consts (\<lambda>x. 0) 16 example_config)) = 16 \<and>
   unat (dataSize (construct example_consts (\<lambda>x. 0) 16 example_config)) = 32 \<and>
   unat (PageSize (stats (construct example_consts (\<lambda>x. 0) 16 example_config))) = 66 \<and>
   unat (LeftAlignSize (configuration (construct example_consts (\<lambda>x. 0) 16 example_config))) = 1 \<and>
   unat (InterAlignSize (configuration (construct example_consts (\<lambda>x. 0) 16 example_config))) = 7"
proof -
  have a: "align_spec (PTR_SIZE + unat (hb_size (HBlockInfo example_config)) + unat (PadBytes example_config))
             (unat (Alignment example_config)) = 16"
    by (simp add: example_config_def align_spec_def PTR_SIZE_def)
  have b: "align_spec (unat (hb_size (HBlockInfo example_config)) + 2 * unat (PadBytes example_config)
             + unat (16 :: size_t)) (unat (Alignment example_config)) = 32"
    by (simp add: example_config_def align_spec_def)
  have c: "unat (ObjectsPerPage example_config) = 2" "unat (PadBytes example_config) = 2"
    "unat (hb_size (HBlockInfo example_config)) = 5" "unat (16 :: size_t) = 16" "PTR_SIZE = 8"
    by (simp_all add: example_config_def PTR_SIZE_def)
  from construct_geometry [OF example_representable, of example_consts "\<lambda>x. 0"]
  show ?thesis unfolding a b unfolding c by simp
qed


text \<open>
  C6 as stated fails: with \<open>PadBytes_ = 2^31\<close> the product \<open>PadBytes_ * 2\<close> is 0 on 32
  bits and the stride is computed from \<open>S + H\<close> alone, 24 for \<open>S = 16\<close> and \<open>H = 5\<close>, while
  \<open>align(H + 2P + S, A)\<close> is \<open>2^32 + 24\<close>.
\<close>

theorem stride_wraps_PadBytes:
  "unat (dataSize (construct example_consts (\<lambda>x. 0) 16 (example_config\<lparr>PadBytes := 2147483648\<rparr>))) = 24 \<and>
   align_spec (unat (hb_size (HBlockInfo (example_config\<lparr>PadBytes := 2147483648\<rparr>)))
                 + 2 * unat (PadBytes (example_config\<lparr>PadBytes := 2147483648\<rparr>)) + unat (16 :: size_t))
     (unat (Alignment (example_config\<lparr>PadBytes := 2147483648\<rparr>))) = 4294967320"
proof
  have "(2147483648 :: unsigned) * 2 = 0" by simp
  then show "unat (dataSize (construct example_consts (\<lambda>x. 0) 16 (example_config\<lparr>PadBytes := 2147483648\<rparr>))) = 24"
    by (simp add: construct_def Let_def example_config_def align_def)
  show "align_spec (unat (hb_size (HBlockInfo (example_config\<lparr>PadBytes := 2147483648\<rparr>)))
                 + 2 * unat (PadBytes (example_config\<lparr>PadBytes := 2147483648\<rparr>)) + unat (16 :: size_t))
     (unat (Alignment (example_config\<lparr>PadBytes := 2147483648\<rparr>))) = 4294967320"
    by (simp add: example_config_def align_spec_eq)
qed

text \<open>
  The state that the body of the page loop leaves for the block at \<open>d\<close>, when it has a
  result.
\<close>

definition block_state :: "addr \<Rightarrow> ObjectAllocator \<Rightarrow> ObjectAllocator" where
  "block_state d s =
     (let P = unat (PadBytes (configuration s));
          s1 = s\<lparr>mem := memset (mem s) (headerStart s d) 0
                           (unat (hb_size (HBlockInfo (configuration s))))\<rparr>;
          s2 = AddToFreeList d s1
      in if DebugOn (configuration s) then
           s2\<lparr>mem :=
                memset
                  (memset
                     (memset (mem s2) (d + PTR_SIZE) (UNALLOCATED_PATTERN (hdr s))
                        (unat (ObjectSize (stats s) - of_nat PTR_SIZE)))
                     (d - P) (PAD_PATTERN (hdr s)) P)
                  (d + unat (ObjectSize (stats s))) (PAD_PATTERN (hdr s)) P\<rparr>
         else s2)"

lemma init_block_Some:
  "DebugOn (configuration s) \<longrightarrow> PTR_SIZE \<le> unat (ObjectSize (stats s)) \<Longrightarrow>
   init_block d s = Some (block_state d s)"
  by (auto simp: init_block_def block_state_def Let_def word_less_nat_alt PTR_SIZE_def)

lemma init_block_None:
  "DebugOn (configuration s) \<Longrightarrow> unat (ObjectSize (stats s)) < PTR_SIZE \<Longrightarrow> init_block d s = None"
  by (simp add: init_block_def Let_def word_less_nat_alt PTR_SIZE_def)

lemma init_block_stats:
  "init_block d s = Some s' \<Longrightarrow>
   stats s' = (stats s)\<lparr>FreeObjects := FreeObjects (stats s) + 1\<rparr>"
  by (auto simp: init_block_def AddToFreeList_def Let_def split: if_splits)

fun init_blocks :: "addr \<Rightarrow> nat \<Rightarrow> nat \<Rightarrow> ObjectAllocator \<Rightarrow> ObjectAllocator" where
  "init_blocks page 0 off s = s"
| "init_blocks page (Suc n) off s =
     init_blocks page n (off + unat (dataSize s)) (block_state (page + off) s)"

definition well_sized :: "size_t \<Rightarrow> OAConfig \<Rightarrow> bool" where
  "well_sized S c \<longleftrightarrow>
     1 \<le> unat (ObjectsPerPage c) \<and> 1 \<le> unat S + unat (PadBytes c) \<and>
     page_header_spec c + unat (ObjectsPerPage c) * stride_spec S c < 2 ^ 32 \<and>
     (DebugOn c \<longrightarrow> PTR_SIZE \<le> unat S)"

definition same_geometry :: "ObjectAllocator \<Rightarrow> ObjectAllocator \<Rightarrow> bool" where
  "same_geometry s s0 \<longleftrightarrow>
     hdr s = hdr s0 \<and> configuration s = configuration s0 \<and> pageHeader s = pageHeader s0 \<and>
     dataSize s = dataSize s0 \<and> PageSize (stats s) = PageSize (stats s0) \<and>
     ObjectSize (stats s) = ObjectSize (stats s0)"

lemma block_state_simps:
  "hdr (block_state d s) = hdr s"
  "configuration (block_state d s) = configuration s"
  "pageHeader (block_state d s) = pageHeader s"
  "dataSize (block_state d s) = dataSize s"
  "PageList (block_state d s) = PageList s"
  "FreeList (block_state d s) = d"
  "infos (block_state d s) = infos s"
  "deleted (block_state d s) = deleted s"
  "stats (block_state d s) = (stats s)\<lparr>FreeObjects := FreeObjects (stats s) + 1\<rparr>"
  by (simp_all add: block_state_def AddToFreeList_def Let_def)

lemma init_blocks_simps:
  "hdr (init_blocks page n off s) = hdr s"
  "configuration (init_blocks page n off s) = configuration s"
  "pageHeader (init_blocks page n off s) = pageHeader s"
  "dataSize (init_blocks page n off s) = dataSize s"
  "PageList (init_blocks page n off s) = PageList s"
  "infos (init_blocks page n off s) = infos s"
  "deleted (init_blocks page n off s) = deleted s"
  "stats (init_blocks page n off s) = (stats s)\<lparr>FreeObjects := FreeObjects (stats s) + of_nat n\<rparr>"
  by (induction n arbitrary: off s; simp add: block_state_simps)+

lemma init_blocks_Suc_last:
  "init_blocks page (Suc n) off s =
     block_state (page + off + n * unat (dataSize s)) (init_blocks page n off s)"
proof (induction n arbitrary: off s)
  case 0
  then show ?case by simp
next
  case (Suc n)
  have "init_blocks page (Suc (Suc n)) off s =
        init_blocks page (Suc n) (off + unat (dataSize s)) (block_state (page + off) s)"
    by simp
  also have "\<dots> = block_state (page + (off + unat (dataSize s)) + n * unat (dataSize s))
                     (init_blocks page n (off + unat (dataSize s)) (block_state (page + off) s))"
    by (subst Suc.IH) (simp add: block_state_simps)
  finally show ?case by (simp add: algebra_simps)
qed

lemma init_page_loop_eq:
  assumes "\<And>k. k < n \<Longrightarrow> (off + k * unat (dataSize s)) mod 2 ^ 32 < unat (PageSize (stats s))"
    and "\<not> (off + n * unat (dataSize s)) mod 2 ^ 32 < unat (PageSize (stats s))"
    and "DebugOn (configuration s) \<longrightarrow> PTR_SIZE \<le> unat (ObjectSize (stats s))"
  shows "init_page_loop page off s = Some (init_blocks page n off s)"
  using assms
proof (induction n arbitrary: off s)
  case 0
  then show ?case by (subst init_page_loop.simps) simp
next
  case (Suc n)
  let ?s = "block_state (page + off) s" and ?off = "off + unat (dataSize s)"
  have first: "off mod 2 ^ 32 < unat (PageSize (stats s))"
    using Suc.prems(1) [of 0] by simp
  have "init_page_loop page ?off ?s = Some (init_blocks page n ?off ?s)"
  proof (rule Suc.IH)
    fix k assume "k < n"
    then have "(off + Suc k * unat (dataSize s)) mod 2 ^ 32 < unat (PageSize (stats s))"
      by (intro Suc.prems(1)) simp
    then show "(?off + k * unat (dataSize ?s)) mod 2 ^ 32 < unat (PageSize (stats ?s))"
      by (simp add: block_state_simps algebra_simps)
  next
    show "\<not> (?off + n * unat (dataSize ?s)) mod 2 ^ 32 < unat (PageSize (stats ?s))"
      using Suc.prems(2) by (simp add: block_state_simps algebra_simps)
  next
    show "DebugOn (configuration ?s) \<longrightarrow> PTR_SIZE \<le> unat (ObjectSize (stats ?s))"
      using Suc.prems(3) by (simp add: block_state_simps)
  qed
  with first show ?case
    by (subst init_page_loop.simps) (simp add: init_block_Some [OF Suc.prems(3)])
qed

lemma stride_spec_ge: "unat S + unat (PadBytes c) \<le> stride_spec S c"
proof -
  have "unat (hb_size (HBlockInfo c)) + 2 * unat (PadBytes c) + unat S \<le> stride_spec S c"
    unfolding stride_spec_def by (rule align_spec_ge)
  then show ?thesis by linarith
qed

lemma well_sized_representable: "well_sized S c \<Longrightarrow> representable S c"
proof -
  assume w: "well_sized S c"
  let ?N = "unat (ObjectsPerPage c)" and ?D = "stride_spec S c" and ?PH = "page_header_spec c"
  from w have n: "1 \<le> ?N" and b: "?PH + ?N * ?D < 2 ^ 32" by (simp_all add: well_sized_def)
  from n obtain m where m: "?N = Suc m" by (cases ?N) simp_all
  have d: "?D \<le> ?N * ?D" using n by simp
  have "2 * unat (PadBytes c) \<le> unat (hb_size (HBlockInfo c)) + 2 * unat (PadBytes c) + unat S" by simp
  also have "\<dots> \<le> ?D" unfolding stride_spec_def by (rule align_spec_ge)
  finally have p: "2 * unat (PadBytes c) < 2 ^ 32" using d b by linarith
  have d32: "?D < 2 ^ 32" using d b by linarith
  have "page_size_spec S c \<le> ?PH + ?N * ?D"
    using stride_spec_ge [of S c] by (simp add: page_size_spec_def m)
  with b have ps: "page_size_spec S c < 2 ^ 32" by linarith
  have "(2::nat) ^ 32 < 2 ^ 64" by simp
  with p d32 ps n show ?thesis unfolding representable_def by linarith
qed

definition new_page_state :: "addr \<Rightarrow> ObjectAllocator \<Rightarrow> ObjectAllocator" where
  "new_page_state newPage s =
     (let psz = unat (PageSize (stats s));
          m1 = memset (mem s) newPage 0 (unat (PageSize (stats s) + of_nat PTR_SIZE));
          m2 = memset m1 newPage 0 psz;
          m3 = (if DebugOn (configuration s)
                then memset m2 newPage (ALIGN_PATTERN (hdr s)) psz else m2);
          m4 = store_ptr m3 newPage (PageList s)
      in s\<lparr>stats := (stats s)\<lparr>PagesInUse := PagesInUse (stats s) + 1\<rparr>,
           mem := m4,
           PageList := newPage\<rparr>)"

lemma AllocateNewPage_Some:
  "AllocateNewPage (Some a) s =
     (if MaxPages (configuration s) \<le> PagesInUse (stats s) then Some (Throw E_NO_PAGES, s)
      else map_option (Pair (Return ()))
             (init_page_loop a (unat (pageHeader s)) (new_page_state a s)))"
  by (simp add: AllocateNewPage_def new_page_state_def Let_def)

lemma new_page_state_simps:
  "hdr (new_page_state a s) = hdr s"
  "configuration (new_page_state a s) = configuration s"
  "pageHeader (new_page_state a s) = pageHeader s"
  "dataSize (new_page_state a s) = dataSize s"
  "PageList (new_page_state a s) = a"
  "FreeList (new_page_state a s) = FreeList s"
  "infos (new_page_state a s) = infos s"
  "deleted (new_page_state a s) = deleted s"
  "stats (new_page_state a s) = (stats s)\<lparr>PagesInUse := PagesInUse (stats s) + 1\<rparr>"
  by (simp_all add: new_page_state_def Let_def)

lemma same_geometry_unat:
  assumes "representable S c" and "same_geometry s (construct K m0 S c)"
  shows "unat (pageHeader s) = page_header_spec c"
    and "unat (dataSize s) = stride_spec S c"
    and "unat (PageSize (stats s)) = page_size_spec S c"
proof -
  from assms(1) have n: "1 \<le> unat (ObjectsPerPage c)" and p: "2 * unat (PadBytes c) < 2 ^ 32"
    and d: "stride_spec S c < 2 ^ 64" and ps: "page_size_spec S c < 2 ^ 64"
    by (simp_all add: representable_def)
  have "page_header_spec c \<le> page_size_spec S c" by (simp add: page_size_spec_def)
  with ps have h: "page_header_spec c < 2 ^ 64" by linarith
  from assms(2) have e: "pageHeader s = pageHeader (construct K m0 S c)"
    "dataSize s = dataSize (construct K m0 S c)"
    "PageSize (stats s) = PageSize (stats (construct K m0 S c))"
    by (simp_all add: same_geometry_def)
  show "unat (pageHeader s) = page_header_spec c" unfolding e by (rule construct_pageHeader [OF h])
  show "unat (dataSize s) = stride_spec S c" unfolding e by (rule construct_dataSize [OF p d])
  show "unat (PageSize (stats s)) = page_size_spec S c" unfolding e by (rule construct_PageSize [OF assms(1)])
qed

lemma init_page_loop_count:
  assumes w: "well_sized S c" and g: "same_geometry s (construct K m0 S c)"
  shows "init_page_loop a (unat (pageHeader s)) s =
         Some (init_blocks a (unat (ObjectsPerPage c)) (unat (pageHeader s)) s)"
proof (rule init_page_loop_eq)
  let ?N = "unat (ObjectsPerPage c)" and ?D = "stride_spec S c" and ?PH = "page_header_spec c"
  note u = same_geometry_unat [OF well_sized_representable [OF w] g]
  from w have n: "1 \<le> ?N" and sp: "1 \<le> unat S + unat (PadBytes c)" and b: "?PH + ?N * ?D < 2 ^ 32"
    by (simp_all add: well_sized_def)
  from n obtain m where m: "?N = Suc m" by (cases ?N) simp_all
  have ps: "page_size_spec S c = ?PH + m * ?D + unat S + unat (PadBytes c)"
    by (simp add: page_size_spec_def m)
  {
    fix k assume "k < ?N"
    then have "k \<le> m" using m by simp
    then have km: "k * ?D \<le> m * ?D" by simp
    have "m * ?D \<le> ?N * ?D" using m by simp
    with km b have "?PH + k * ?D < 2 ^ 32" by linarith
    then have "(?PH + k * ?D) mod 2 ^ 32 = ?PH + k * ?D" by simp
    moreover have "?PH + k * ?D < page_size_spec S c" using km sp unfolding ps by linarith
    ultimately show "(unat (pageHeader s) + k * unat (dataSize s)) mod 2 ^ 32 < unat (PageSize (stats s))"
      unfolding u by simp
  }
  have "(?PH + ?N * ?D) mod 2 ^ 32 = ?PH + ?N * ?D" using b by simp
  moreover have "page_size_spec S c \<le> ?PH + ?N * ?D"
    using stride_spec_ge [of S c] unfolding ps m by simp
  ultimately show "\<not> (unat (pageHeader s) + ?N * unat (dataSize s)) mod 2 ^ 32 < unat (PageSize (stats s))"
    unfolding u by simp
  from w g show "DebugOn (configuration s) \<longrightarrow> PTR_SIZE \<le> unat (ObjectSize (stats s))"
    by (simp add: well_sized_def same_geometry_def construct_simps)
qed

lemma same_geometry_new_page_state:
  "same_geometry (new_page_state a s) s0 = same_geometry s s0"
  by (simp add: same_geometry_def new_page_state_simps)

lemma AllocateNewPage_Return:
  assumes w: "well_sized S c" and g: "same_geometry s (construct K m0 S c)"
    and lt: "PagesInUse (stats s) < MaxPages (configuration s)"
  shows "AllocateNewPage (Some a) s =
         Some (Return (), init_blocks a (unat (ObjectsPerPage c)) (unat (pageHeader s)) (new_page_state a s))"
proof -
  have "same_geometry (new_page_state a s) (construct K m0 S c)"
    using g by (simp add: same_geometry_new_page_state)
  from init_page_loop_count [OF w this, of a] lt show ?thesis
    by (simp add: AllocateNewPage_Some new_page_state_simps not_le [symmetric])
qed

lemma init_page_loop_PagesInUse:
  assumes "init_page_loop page off s = Some s'"
  shows "PagesInUse (stats s') = PagesInUse (stats s)"
  by (rule init_page_loop.raw_induct [OF _ assms])
    (auto simp: init_block_stats split: if_splits option.splits)

lemma same_geometry_refl: "same_geometry s s"
  by (simp add: same_geometry_def)

text \<open>
  C9 (as amended). The constructor always calls \<open>AllocateNewPage\<close>, whatever
  \<open>UseCPPMemManager_\<close> is: with \<open>MaxPages_ = 0\<close> it throws \<open>E_NO_PAGES\<close>, otherwise it
  throws \<open>E_NO_MEMORY\<close> when the host refuses the page; every construction that returns
  leaves \<open>PagesInUse_ = 1\<close>; and for a well-sized configuration (at least one block per
  page, \<open>S + P \<ge> 1\<close>, page header plus \<open>N\<close> strides below \<open>2^32\<close>, and in debug mode an
  object that holds a pointer) the construction returns with \<open>FreeObjects_ = N\<close>.
\<close>

theorem ctor_always_allocates_page:
  "ObjectAllocator_ctor K m0 np S c = AllocateNewPage np (construct K m0 S c) \<and>
   (MaxPages c = 0 \<longrightarrow>
      ObjectAllocator_ctor K m0 np S c = Some (Throw E_NO_PAGES, construct K m0 S c)) \<and>
   (MaxPages c \<noteq> 0 \<longrightarrow>
      ObjectAllocator_ctor K m0 None S c = Some (Throw E_NO_MEMORY, construct K m0 S c)) \<and>
   (ObjectAllocator_ctor K m0 np S c = Some (Return (), s) \<longrightarrow>
      PagesInUse (stats s) = 1 \<and> MaxPages c \<noteq> 0 \<and> np \<noteq> None) \<and>
   (MaxPages c \<noteq> 0 \<and> well_sized S c \<longrightarrow>
      (\<exists>s'. ObjectAllocator_ctor K m0 (Some a) S c = Some (Return (), s') \<and>
            PagesInUse (stats s') = 1 \<and> FreeObjects (stats s') = ObjectsPerPage c \<and>
            ObjectsInUse (stats s') = 0 \<and> PageList s' = a))"
proof (intro conjI impI)
  show "ObjectAllocator_ctor K m0 np S c = AllocateNewPage np (construct K m0 S c)"
    by (simp add: ObjectAllocator_ctor_def)
next
  assume "MaxPages c = 0"
  then show "ObjectAllocator_ctor K m0 np S c = Some (Throw E_NO_PAGES, construct K m0 S c)"
    by (simp add: ObjectAllocator_ctor_def AllocateNewPage_def construct_simps)
next
  assume "MaxPages c \<noteq> 0"
  then have "\<not> MaxPages c \<le> 0" by (simp add: word_le_nat_alt unat_eq_0)
  then show "ObjectAllocator_ctor K m0 None S c = Some (Throw E_NO_MEMORY, construct K m0 S c)"
    by (simp add: ObjectAllocator_ctor_def AllocateNewPage_def construct_simps)
next
  assume r: "ObjectAllocator_ctor K m0 np S c = Some (Return (), s)"
  then have a: "AllocateNewPage np (construct K m0 S c) = Some (Return (), s)"
    by (simp add: ObjectAllocator_ctor_def)
  then have nz: "\<not> MaxPages c \<le> 0"
    by (auto simp: AllocateNewPage_def construct_simps split: if_splits)
  then show "MaxPages c \<noteq> 0" by auto
  from a nz obtain p where p: "np = Some p"
    by (cases np) (auto simp: AllocateNewPage_def construct_simps)
  then show "np \<noteq> None" by simp
  from a nz have "init_page_loop p (unat (pageHeader (construct K m0 S c)))
        (new_page_state p (construct K m0 S c)) = Some s"
    unfolding p AllocateNewPage_Some by (auto simp: construct_simps)
  from init_page_loop_PagesInUse [OF this]
  show "PagesInUse (stats s) = 1"
    by (simp add: new_page_state_simps construct_simps)
next
  assume "MaxPages c \<noteq> 0 \<and> well_sized S c"
  then have nz: "0 < MaxPages c" and w: "well_sized S c"
    by (simp_all add: word_neq_0_conv)
  have lt: "PagesInUse (stats (construct K m0 S c)) < MaxPages (configuration (construct K m0 S c))"
    using nz by (simp add: construct_simps)
  show "\<exists>s'. ObjectAllocator_ctor K m0 (Some a) S c = Some (Return (), s') \<and>
            PagesInUse (stats s') = 1 \<and> FreeObjects (stats s') = ObjectsPerPage c \<and>
            ObjectsInUse (stats s') = 0 \<and> PageList s' = a"
    unfolding ObjectAllocator_ctor_def AllocateNewPage_Return [OF w same_geometry_refl lt]
    by (simp add: init_blocks_simps new_page_state_simps construct_simps)
qed



text \<open>
  A page loop whose test fails at once creates no block: the construction returns with an
  empty free list.
\<close>

lemma ctor_no_blocks:
  assumes "MaxPages c \<noteq> 0"
    and "\<not> unat (pageHeader (construct K m0 S c)) mod 2 ^ 32
             < unat (PageSize (stats (construct K m0 S c)))"
  shows "ObjectAllocator_ctor K m0 (Some a) S c =
         Some (Return (), new_page_state a (construct K m0 S c))"
proof -
  from assms(1) have "\<not> MaxPages c \<le> 0" by (simp add: word_le_nat_alt unat_eq_0)
  moreover have "init_page_loop a (unat (pageHeader (construct K m0 S c)))
                   (new_page_state a (construct K m0 S c)) =
                 Some (new_page_state a (construct K m0 S c))"
    using assms(2) by (subst init_page_loop.simps) (simp add: new_page_state_simps)
  ultimately show ?thesis
    by (simp add: ObjectAllocator_ctor_def AllocateNewPage_Some construct_simps)
qed

text \<open>
  Objects of size 0 without padding and without header: three blocks per page are asked
  for, the page is its 8 bytes of link and holds none.
\<close>

definition example_config_empty :: OAConfig where
  "example_config_empty =
     example_config\<lparr>ObjectsPerPage := 3, DebugOn := False, PadBytes := 0,
       HBlockInfo := \<lparr>hb_type = hbNone, hb_size = 0, hb_additional = 0\<rparr>\<rparr>"

lemma example_empty_ctor:
  "ObjectAllocator_ctor example_consts (\<lambda>x. 0) (Some 4096) 0 example_config_empty =
   Some (Return (), new_page_state 4096 (construct example_consts (\<lambda>x. 0) 0 example_config_empty))"
proof (rule ctor_no_blocks)
  let ?c = example_config_empty
  show "MaxPages ?c \<noteq> 0" by (simp add: example_config_empty_def example_config_def)
  have r: "representable 0 ?c"
    by (simp add: representable_def stride_spec_def page_size_spec_def page_header_spec_def
        example_config_def example_config_empty_def align_spec_def PTR_SIZE_def)
  have v: "page_header_spec ?c = 8" "page_size_spec 0 ?c = 8"
    by (simp_all add: stride_spec_def page_size_spec_def page_header_spec_def
        example_config_def example_config_empty_def align_spec_def PTR_SIZE_def)
  note u = same_geometry_unat [OF r same_geometry_refl, of example_consts "\<lambda>x. 0"]
  show "\<not> unat (pageHeader (construct example_consts (\<lambda>x. 0) 0 ?c)) mod 2 ^ 32
           < unat (PageSize (stats (construct example_consts (\<lambda>x. 0) 0 ?c)))"
    unfolding u v by simp
qed

text \<open>
  C9 as stated fails: this construction returns with \<open>PagesInUse_ = 1\<close> and
  \<open>FreeObjects_ = 0\<close>, not \<open>ObjectsPerPage_ = 3\<close>.
\<close>

theorem ctor_FreeObjects_not_N:
  "\<exists>s. ObjectAllocator_ctor example_consts (\<lambda>x. 0) (Some 4096) 0 example_config_empty =
          Some (Return (), s) \<and>
       PagesInUse (stats s) = 1 \<and> FreeObjects (stats s) = 0 \<and>
       ObjectsPerPage example_config_empty = 3"
  unfolding example_empty_ctor
  by (simp add: new_page_state_simps construct_simps OAStats_init_def
      example_config_empty_def)


text \<open>
  In debug mode with an object smaller than a pointer, a construction that enters the page
  loop has no result: the first block's \<open>memset\<close> of \<open>ObjectSize_ - PTR_SIZE\<close> bytes runs
  off the page.
\<close>

lemma ctor_debug_small_object:
  assumes "MaxPages c \<noteq> 0" and "DebugOn c" and "unat S < PTR_SIZE"
    and "unat (pageHeader (construct K m0 S c)) mod 2 ^ 32
           < unat (PageSize (stats (construct K m0 S c)))"
  shows "ObjectAllocator_ctor K m0 (Some a) S c = None"
proof -
  let ?s = "new_page_state a (construct K m0 S c)"
  from assms(1) have "\<not> MaxPages c \<le> 0" by (simp add: word_le_nat_alt unat_eq_0)
  moreover have "init_block (a + unat (pageHeader (construct K m0 S c))) ?s = None"
    using assms(2,3) by (intro init_block_None) (simp_all add: new_page_state_simps construct_simps)
  then have "init_page_loop a (unat (pageHeader (construct K m0 S c))) ?s = None"
    using assms(4) by (subst init_page_loop.simps) (simp add: new_page_state_simps)
  ultimately show ?thesis
    by (simp add: ObjectAllocator_ctor_def AllocateNewPage_Some construct_simps)
qed

datatype call = CallAllocate "string option" HostNew | CallFree addr | ClientWrite addr byte

fun run_call :: "call \<Rightarrow> ObjectAllocator \<Rightarrow> ObjectAllocator option" where
  "run_call (CallAllocate lbl h) s =
     (case Allocate lbl h s of Some (Return p, s') \<Rightarrow> Some s' | _ \<Rightarrow> None)"
| "run_call (CallFree p) s =
     (case Free p s of Some (Return u, s') \<Rightarrow> Some s' | _ \<Rightarrow> None)"
| "run_call (ClientWrite a v) s = Some (s\<lparr>mem := (mem s)(a := v)\<rparr>)"

fun run_calls :: "call list \<Rightarrow> ObjectAllocator \<Rightarrow> ObjectAllocator option" where
  "run_calls [] s = Some s"
| "run_calls (x # xs) s = (case run_call x s of None \<Rightarrow> None | Some s' \<Rightarrow> run_calls xs s')"

definition counters_balanced :: "ObjectAllocator \<Rightarrow> bool" where
  "counters_balanced s \<longleftrightarrow>
     ObjectsInUse (stats s) + FreeObjects (stats s) =
     PagesInUse (stats s) * ObjectsPerPage (configuration s)"

lemma Allocate_header_stats:
  "Allocate_header lbl ni obj s = (r, s') \<Longrightarrow>
     stats s' = stats s \<and> hdr s' = hdr s \<and> configuration s' = configuration s \<and>
     pageHeader s' = pageHeader s \<and> dataSize s' = dataSize s \<and> PageList s' = PageList s \<and>
     FreeList s' = FreeList s"
  by (auto simp: Allocate_header_def Let_def split: HBLOCK_TYPE.splits option.splits)

lemma Allocate_pop_inv:
  assumes "Allocate_pop lbl ni s = (r, s')"
  shows "same_geometry s' s0 = same_geometry s s0"
    and "counters_balanced s' = counters_balanced s"
    and "PagesInUse (stats s') = PagesInUse (stats s)"
proof -
  let ?s1 = "s\<lparr>FreeList := load_ptr (mem s) (FreeList s)\<rparr>"
  let ?s2 = "if DebugOn (configuration ?s1)
             then ?s1\<lparr>mem := memset (mem ?s1) (FreeList s) (ALLOCATED_PATTERN (hdr ?s1))
                                (unat (ObjectSize (stats ?s1)))\<rparr>
             else ?s1"
  let ?st1 = "(stats ?s2)\<lparr>ObjectsInUse := ObjectsInUse (stats ?s2) + 1,
                Allocations := Allocations (stats ?s2) + 1,
                FreeObjects := FreeObjects (stats ?s2) - 1\<rparr>"
  let ?st2 = "if MostObjects ?st1 < ObjectsInUse ?st1
              then ?st1\<lparr>MostObjects := ObjectsInUse ?st1\<rparr> else ?st1"
  from assms have "Allocate_header lbl ni (FreeList s) (?s2\<lparr>stats := ?st2\<rparr>) = (r, s')"
    by (simp add: Allocate_pop_def Let_def)
  from Allocate_header_stats [OF this]
  have e: "stats s' = ?st2" "hdr s' = hdr s" "configuration s' = configuration s"
    "pageHeader s' = pageHeader s" "dataSize s' = dataSize s"
    by simp_all
  show "same_geometry s' s0 = same_geometry s s0"
    unfolding same_geometry_def e by simp
  show "counters_balanced s' = counters_balanced s"
    unfolding counters_balanced_def e by simp
  show "PagesInUse (stats s') = PagesInUse (stats s)"
    unfolding e by simp
qed

lemma Free_debug_Return:
  "Free_debug obj s = Some (Return u, s') \<Longrightarrow>
     s' = s\<lparr>mem := memset (mem s) obj (FREED_PATTERN (hdr s)) (unat (ObjectSize (stats s)))\<rparr>"
  by (auto simp: Free_debug_def split: option.splits outcome.splits if_splits)

lemma Free_header_simps:
  "stats (Free_header obj s) = stats s"
  "hdr (Free_header obj s) = hdr s"
  "configuration (Free_header obj s) = configuration s"
  "pageHeader (Free_header obj s) = pageHeader s"
  "dataSize (Free_header obj s) = dataSize s"
  "PageList (Free_header obj s) = PageList s"
  "FreeList (Free_header obj s) = FreeList s"
  by (simp_all add: Free_header_def Let_def split: HBLOCK_TYPE.splits)

lemma Free_Return_inv:
  assumes "\<not> UseCPPMemManager (configuration s)" and "Free obj s = Some (Return u, s')"
  shows "same_geometry s' s0 = same_geometry s s0"
    and "counters_balanced s' = counters_balanced s"
proof -
  let ?s = "s\<lparr>stats := (stats s)\<lparr>Deallocations := Deallocations (stats s) + 1,
                                  ObjectsInUse := ObjectsInUse (stats s) - 1\<rparr>\<rparr>"
  from assms obtain s1 where s1: "s' = AddToFreeList obj (Free_header obj s1)"
    and d: "s1 = ?s \<or> s1 = ?s\<lparr>mem := memset (mem ?s) obj (FREED_PATTERN (hdr ?s)) (unat (ObjectSize (stats ?s)))\<rparr>"
    by (auto simp: Free_def Let_def split: if_splits option.splits outcome.splits prod.splits
        dest!: Free_debug_Return)
  from d have e: "stats s1 = stats ?s" "hdr s1 = hdr s" "configuration s1 = configuration s"
    "pageHeader s1 = pageHeader s" "dataSize s1 = dataSize s"
    by auto
  show "same_geometry s' s0 = same_geometry s s0"
    unfolding same_geometry_def s1 by (simp add: AddToFreeList_def Free_header_simps e)
  show "counters_balanced s' = counters_balanced s"
    unfolding counters_balanced_def s1 by (simp add: AddToFreeList_def Free_header_simps e)
qed

lemma AllocateNewPage_Return_inv:
  assumes w: "well_sized S c" and g: "same_geometry s (construct K m0 S c)"
    and r: "AllocateNewPage np s = Some (Return u, s')"
  shows "same_geometry s' (construct K m0 S c)"
    and "counters_balanced s' = counters_balanced s"
proof -
  from r have lt: "PagesInUse (stats s) < MaxPages (configuration s)"
    by (auto simp: AllocateNewPage_def not_le split: if_splits)
  from r lt obtain a where a: "np = Some a"
    by (cases np) (auto simp: AllocateNewPage_def not_le [symmetric])
  from r have s': "s' = init_blocks a (unat (ObjectsPerPage c)) (unat (pageHeader s)) (new_page_state a s)"
    unfolding a AllocateNewPage_Return [OF w g lt] by simp
  show "same_geometry s' (construct K m0 S c)"
    using g unfolding s' same_geometry_def
    by (simp add: init_blocks_simps new_page_state_simps)
  from g have "ObjectsPerPage (configuration s) = ObjectsPerPage c"
    by (simp add: same_geometry_def construct_simps)
  then show "counters_balanced s' = counters_balanced s"
    unfolding s' counters_balanced_def
    by (simp add: init_blocks_simps new_page_state_simps algebra_simps)
qed

lemma run_call_inv:
  assumes w: "well_sized S c" and np: "\<not> UseCPPMemManager c"
    and g: "same_geometry s (construct K m0 S c)" and b: "counters_balanced s"
    and r: "run_call x s = Some s'"
  shows "same_geometry s' (construct K m0 S c) \<and> counters_balanced s'"
proof (cases x)
  case (CallAllocate lbl h)
  from g np have n: "\<not> UseCPPMemManager (configuration s)"
    by (simp add: same_geometry_def construct_simps)
  from r CallAllocate obtain p where al: "Allocate lbl h s = Some (Return p, s')"
    by (auto split: option.splits outcome.splits prod.splits)
  show ?thesis
  proof (cases "FreeList s = 0")
    case True
    with al n obtain u s1 where a1: "AllocateNewPage (new_page h) s = Some (Return u, s1)"
      and a2: "Allocate_pop lbl (new_info h) s1 = (Return p, s')"
      by (auto simp: Allocate_def split: option.splits outcome.splits prod.splits if_splits)
    from AllocateNewPage_Return_inv [OF w g a1] b Allocate_pop_inv [OF a2]
    show ?thesis by simp
  next
    case False
    with al n have "Allocate_pop lbl (new_info h) s = (Return p, s')"
      by (simp add: Allocate_def)
    from Allocate_pop_inv [OF this] g b show ?thesis by simp
  qed
next
  case (CallFree p)
  from g np have n: "\<not> UseCPPMemManager (configuration s)"
    by (simp add: same_geometry_def construct_simps)
  from r CallFree obtain u where "Free p s = Some (Return u, s')"
    by (auto split: option.splits outcome.splits prod.splits)
  from Free_Return_inv [OF n this] g b show ?thesis by simp
next
  case (ClientWrite a v)
  with r g b show ?thesis
    by (auto simp: same_geometry_def counters_balanced_def)
qed

lemma run_calls_inv:
  assumes w: "well_sized S c" and np: "\<not> UseCPPMemManager c"
  shows "same_geometry s (construct K m0 S c) \<Longrightarrow> counters_balanced s \<Longrightarrow> run_calls cs s = Some s' \<Longrightarrow>
         same_geometry s' (construct K m0 S c) \<and> counters_balanced s'"
proof (induction cs arbitrary: s)
  case Nil
  then show ?case by simp
next
  case (Cons x xs)
  from Cons.prems(3) obtain s1 where s1: "run_call x s = Some s1" and r: "run_calls xs s1 = Some s'"
    by (auto split: option.splits)
  from run_call_inv [OF w np Cons.prems(1,2) s1]
  have "same_geometry s1 (construct K m0 S c)" "counters_balanced s1" by simp_all
  from Cons.IH [OF this r] show ?case .
qed

text \<open>
  C4 (as amended). Outside passthrough mode, for a well-sized configuration (so that every
  page holds exactly \<open>ObjectsPerPage_\<close> blocks), after the construction and any sequence of
  calls of \<open>Allocate\<close> and \<open>Free\<close> that all return (with writes of the client to memory
  in between), \<open>ObjectsInUse_ + FreeObjects_ = PagesInUse_ * ObjectsPerPage_\<close>, in the
  arithmetic of \<open>unsigned\<close>. As every prefix of such a sequence is such a sequence, this
  holds at every point between the calls.
\<close>

theorem counters_invariant:
  assumes "well_sized S c" and "\<not> UseCPPMemManager c"
    and "ObjectAllocator_ctor K m0 np S c = Some (Return (), s0)"
    and "run_calls cs s0 = Some s"
  shows "ObjectsInUse (stats s) + FreeObjects (stats s) = PagesInUse (stats s) * ObjectsPerPage c"
proof -
  have a: "AllocateNewPage np (construct K m0 S c) = Some (Return (), s0)"
    using assms(3) by (simp add: ObjectAllocator_ctor_def)
  have b0: "counters_balanced (construct K m0 S c)"
    by (simp add: counters_balanced_def construct_simps)
  from AllocateNewPage_Return_inv [OF assms(1) same_geometry_refl a] b0
  have "same_geometry s0 (construct K m0 S c)" "counters_balanced s0" by simp_all
  from run_calls_inv [OF assms(1,2) this assms(4)]
  show ?thesis by (simp add: counters_balanced_def same_geometry_def construct_simps)
qed


text \<open>
  C4 as stated fails: right after this construction, before any call,
  \<open>ObjectsInUse_ + FreeObjects_ = 0\<close> and \<open>PagesInUse_ * ObjectsPerPage_ = 3\<close>.
\<close>

theorem counters_not_balanced_without_blocks:
  "\<exists>s0 s. \<not> UseCPPMemManager example_config_empty \<and>
       ObjectAllocator_ctor example_consts (\<lambda>x. 0) (Some 4096) 0 example_config_empty =
          Some (Return (), s0) \<and>
       run_calls [] s0 = Some s \<and>
       ObjectsInUse (stats s) + FreeObjects (stats s) = 0 \<and>
       PagesInUse (stats s) * ObjectsPerPage example_config_empty = 3"
  unfolding example_empty_ctor
  by (simp add: new_page_state_simps construct_simps OAStats_init_def
      example_config_empty_def example_config_def)

definition fresh :: "OAConsts \<Rightarrow> memory \<Rightarrow> addr \<Rightarrow> size_t \<Rightarrow> OAConfig \<Rightarrow> ObjectAllocator" where
  "fresh K m0 a S c =
     init_blocks a (unat (ObjectsPerPage c)) (unat (pageHeader (construct K m0 S c)))
       (new_page_state a (construct K m0 S c))"

lemma ctor_fresh:
  assumes "well_sized S c" and "MaxPages c \<noteq> 0"
  shows "ObjectAllocator_ctor K m0 (Some a) S c = Some (Return (), fresh K m0 a S c)"
proof -
  from assms(2) have "0 < MaxPages c" by (simp add: word_neq_0_conv)
  then have lt: "PagesInUse (stats (construct K m0 S c)) < MaxPages (configuration (construct K m0 S c))"
    by (simp add: construct_simps)
  show ?thesis
    unfolding ObjectAllocator_ctor_def fresh_def
    by (rule AllocateNewPage_Return [OF assms(1) same_geometry_refl lt])
qed

lemma FreeList_init_blocks:
  "FreeList (init_blocks page n off s) =
     (if n = 0 then FreeList s else page + off + (n - 1) * unat (dataSize s))"
proof (cases n)
  case 0
  then show ?thesis by simp
next
  case (Suc m)
  then show ?thesis
    unfolding Suc init_blocks_Suc_last by (simp add: block_state_simps init_blocks_simps)
qed

lemma fresh_simps:
  "hdr (fresh K m0 a S c) = K"
  "configuration (fresh K m0 a S c) = configuration (construct K m0 S c)"
  "pageHeader (fresh K m0 a S c) = pageHeader (construct K m0 S c)"
  "dataSize (fresh K m0 a S c) = dataSize (construct K m0 S c)"
  "PageList (fresh K m0 a S c) = a"
  "infos (fresh K m0 a S c) = Map.empty"
  "deleted (fresh K m0 a S c) = []"
  "stats (fresh K m0 a S c) =
     (stats (construct K m0 S c))\<lparr>PagesInUse := 1, FreeObjects := ObjectsPerPage c\<rparr>"
  by (simp_all add: fresh_def init_blocks_simps new_page_state_simps construct_simps)

lemma FreeList_fresh:
  assumes "representable S c"
  shows "FreeList (fresh K m0 a S c) =
         a + page_header_spec c + (unat (ObjectsPerPage c) - 1) * stride_spec S c"
proof -
  from assms have n: "unat (ObjectsPerPage c) \<noteq> 0" by (simp add: representable_def)
  note u = same_geometry_unat [OF assms same_geometry_refl]
  show ?thesis
    unfolding fresh_def FreeList_init_blocks using n
    by (simp add: new_page_state_simps u)
qed

definition example_host :: HostNew where
  "example_host = \<lparr>new_page = Some 8192, new_info = Some 12288, new_object = Some 16384\<rparr>"

lemma example_well_sized:
  "well_sized 16 (example_config\<lparr>UseCPPMemManager := u, DebugOn := d\<rparr>)"
  by (simp add: well_sized_def stride_spec_def page_size_spec_def page_header_spec_def
      example_config_def align_spec_def PTR_SIZE_def)

lemma example_spec_values:
  "page_header_spec (example_config\<lparr>UseCPPMemManager := u, DebugOn := d\<rparr>) = 16"
  "stride_spec 16 (example_config\<lparr>UseCPPMemManager := u, DebugOn := d\<rparr>) = 32"
  "page_size_spec 16 (example_config\<lparr>UseCPPMemManager := u, DebugOn := d\<rparr>) = 66"
  by (simp_all add: stride_spec_def page_size_spec_def page_header_spec_def
      example_config_def align_spec_def PTR_SIZE_def)

theorem ctor_always_allocates_page_witness:
  "(\<exists>s'. ObjectAllocator_ctor example_consts (\<lambda>x. 0) (Some 4096) 16
            (example_config\<lparr>UseCPPMemManager := True, DebugOn := False\<rparr>) = Some (Return (), s') \<and>
         PagesInUse (stats s') = 1 \<and> FreeObjects (stats s') = 2 \<and> PageList s' = 4096) \<and>
   ObjectAllocator_ctor example_consts (\<lambda>x. 0) None 16
     (example_config\<lparr>UseCPPMemManager := True, DebugOn := False\<rparr>) =
   Some (Throw E_NO_MEMORY,
         construct example_consts (\<lambda>x. 0) 16 (example_config\<lparr>UseCPPMemManager := True, DebugOn := False\<rparr>))"
proof -
  let ?c = "example_config\<lparr>UseCPPMemManager := True, DebugOn := False\<rparr>"
  have m: "MaxPages ?c \<noteq> 0" by (simp add: example_config_def)
  have n: "ObjectsPerPage ?c = 2" by (simp add: example_config_def)
  from ctor_always_allocates_page [of example_consts "\<lambda>x. 0" None 16 ?c _ 4096] m example_well_sized [where u = True and d = False]
  show ?thesis unfolding n by blast
qed

lemma Allocate_header_Return:
  "hb_type (HBlockInfo (configuration s)) \<noteq> hbExternal \<or> ni \<noteq> None \<Longrightarrow>
   fst (Allocate_header lbl ni obj s) = Return obj"
  by (auto simp: Allocate_header_def Let_def split: HBLOCK_TYPE.splits option.splits)

lemma Allocate_pop_Return:
  assumes "hb_type (HBlockInfo (configuration s)) \<noteq> hbExternal \<or> ni \<noteq> None"
  shows "\<exists>s'. Allocate_pop lbl ni s = (Return (FreeList s), s')"
proof -
  obtain r s' where e: "Allocate_pop lbl ni s = (r, s')" by (cases "Allocate_pop lbl ni s")
  then have "r = fst (Allocate_pop lbl ni s)" by simp
  also have "\<dots> = Return (FreeList s)"
    unfolding Allocate_pop_def Let_def
    by (rule Allocate_header_Return) (use assms in auto)
  finally show ?thesis using e by blast
qed

lemma Allocate_pop_configuration:
  "Allocate_pop lbl ni s = (r, s') \<Longrightarrow> configuration s' = configuration s"
  using Allocate_pop_inv(1) [of lbl ni s r s' s] by (simp add: same_geometry_def)

lemma run_Allocate_ok:
  assumes "\<not> UseCPPMemManager (configuration s)" and "FreeList s \<noteq> 0"
    and "hb_type (HBlockInfo (configuration s)) \<noteq> hbExternal"
  shows "\<exists>s'. run_call (CallAllocate lbl h) s = Some s' \<and> configuration s' = configuration s"
proof -
  from Allocate_pop_Return [of s "new_info h" lbl] assms(3)
  obtain s' where p: "Allocate_pop lbl (new_info h) s = (Return (FreeList s), s')" by blast
  with assms(1,2) have "Allocate lbl h s = Some (Return (FreeList s), s')"
    by (simp add: Allocate_def)
  then have "run_call (CallAllocate lbl h) s = Some s'" by simp
  with Allocate_pop_configuration [OF p] show ?thesis by blast
qed

lemma run_Free_ok:
  assumes "\<not> UseCPPMemManager (configuration s)" and "\<not> DebugOn (configuration s)"
  shows "\<exists>s'. run_call (CallFree p) s = Some s' \<and> configuration s' = configuration s \<and> FreeList s' = p"
  using assms by (simp add: Free_def Let_def AddToFreeList_def Free_header_simps)

theorem counters_invariant_witness:
  "\<exists>s0 s. ObjectAllocator_ctor example_consts (\<lambda>x. 0) (Some 4096) 16
             (example_config\<lparr>UseCPPMemManager := False, DebugOn := False\<rparr>) = Some (Return (), s0) \<and>
          run_calls [CallAllocate None example_host, CallFree 4144, CallFree 4144, ClientWrite 4144 7,
                     CallAllocate None example_host] s0 = Some s \<and>
          ObjectsInUse (stats s) + FreeObjects (stats s) = PagesInUse (stats s) * 2"
proof -
  let ?c = "example_config\<lparr>UseCPPMemManager := False, DebugOn := False\<rparr>"
  let ?s0 = "fresh example_consts (\<lambda>x. 0) 4096 16 ?c"
  let ?cs = "[CallAllocate None example_host, CallFree 4144, CallFree 4144, ClientWrite 4144 7,
              CallAllocate None example_host]"
  note w = example_well_sized [where u = False and d = False]
  have m: "MaxPages ?c \<noteq> 0" by (simp add: example_config_def)
  have p: "\<not> UseCPPMemManager ?c" by simp
  have n: "ObjectsPerPage ?c = 2" by (simp add: example_config_def)
  have c: "ObjectAllocator_ctor example_consts (\<lambda>x. 0) (Some 4096) 16 ?c = Some (Return (), ?s0)"
    using w m by (rule ctor_fresh)
  have fl: "FreeList ?s0 = 4144"
    unfolding FreeList_fresh [OF well_sized_representable [OF w]] example_spec_values
    by (simp add: example_config_def)
  have cf: "\<not> UseCPPMemManager (configuration ?s0)" "\<not> DebugOn (configuration ?s0)"
    "hb_type (HBlockInfo (configuration ?s0)) = hbBasic"
    by (simp_all add: fresh_simps construct_simps example_config_def)
  from run_Allocate_ok [OF cf(1), of None example_host] fl cf(3)
  obtain s1 where r1: "run_call (CallAllocate None example_host) ?s0 = Some s1"
    and c1: "configuration s1 = configuration ?s0" by auto
  from run_Free_ok [of s1 4144] cf(1,2) c1
  obtain s2 where r2: "run_call (CallFree 4144) s1 = Some s2"
    and c2: "configuration s2 = configuration ?s0" by auto
  from run_Free_ok [of s2 4144] cf(1,2) c2
  obtain s3 where r3: "run_call (CallFree 4144) s2 = Some s3"
    and c3: "configuration s3 = configuration ?s0" and f3: "FreeList s3 = 4144" by auto
  let ?s4 = "s3\<lparr>mem := (mem s3)(4144 := 7)\<rparr>"
  from run_Allocate_ok [of ?s4 None example_host] cf c3 f3
  obtain s where r5: "run_call (CallAllocate None example_host) ?s4 = Some s" by auto
  have r: "run_calls ?cs ?s0 = Some s"
    using r1 r2 r3 r5 by simp
  from counters_invariant [OF w p c r] c r show ?thesis unfolding n by blast
qed

lemma store_ptr_apply:
  "store_ptr m a v x = (if a \<le> x \<and> x < a + PTR_SIZE then of_nat (v div 256 ^ (x - a)) else m x)"
  by (simp add: store_ptr_def store_le_apply)

lemma store_ptr_other: "x < a \<or> a + PTR_SIZE \<le> x \<Longrightarrow> store_ptr m a v x = m x"
  by (auto simp: store_ptr_apply)

lemma memset_other: "x < d \<or> d + n \<le> x \<Longrightarrow> memset m d v n x = m x"
  by (auto simp: memset_apply)

lemma memset_inside: "d \<le> x \<Longrightarrow> x < d + n \<Longrightarrow> memset m d v n x = v"
  by (simp add: memset_apply)

lemma headerStart_le: "headerStart s d \<le> d - unat (PadBytes (configuration s))"
  by (simp add: headerStart_def)

lemma headerStart_mono: "d \<le> d' \<Longrightarrow> headerStart s d \<le> headerStart s d'"
  by (simp add: headerStart_def diff_le_mono)

lemma headerStart_cong:
  "configuration s' = configuration s \<Longrightarrow> headerStart s' d = headerStart s d"
  by (simp add: headerStart_def)

lemma block_state_mem_below:
  assumes "x < headerStart s d"
  shows "mem (block_state d s) x = mem s x"
proof -
  from assms headerStart_le [of s d] have a: "x < d - unat (PadBytes (configuration s))" by linarith
  then have b: "x < d" by linarith
  from assms a b show ?thesis
    by (simp add: block_state_def AddToFreeList_def Let_def memset_other store_ptr_other)
qed

lemma init_blocks_mem_below:
  "x < headerStart s (page + off) \<Longrightarrow> mem (init_blocks page n off s) x = mem s x"
proof (induction n arbitrary: off s)
  case 0
  then show ?case by simp
next
  case (Suc n)
  let ?s = "block_state (page + off) s"
  have "headerStart s (page + off) \<le> headerStart s (page + (off + unat (dataSize s)))"
    by (rule headerStart_mono) simp
  with Suc.prems have "x < headerStart ?s (page + (off + unat (dataSize s)))"
    by (simp add: headerStart_cong [of ?s s] block_state_simps)
  then have "mem (init_blocks page n (off + unat (dataSize s)) ?s) x = mem ?s x"
    by (rule Suc.IH)
  with block_state_mem_below [OF Suc.prems] show ?case by simp
qed

text \<open>The bytes of the last block that \<open>block_state\<close> leaves.\<close>

lemma block_state_header_zero:
  assumes "headerStart s d \<le> x" and "x < headerStart s d + unat (hb_size (HBlockInfo (configuration s)))"
    and "unat (PadBytes (configuration s)) + unat (hb_size (HBlockInfo (configuration s))) \<le> d"
  shows "mem (block_state d s) x = 0"
proof -
  from assms have "x < d - unat (PadBytes (configuration s))" by (simp add: headerStart_def)
  then have "x < d" by linarith
  with assms \<open>x < d - unat (PadBytes (configuration s))\<close> show ?thesis
    by (simp add: block_state_def AddToFreeList_def Let_def memset_other store_ptr_other memset_inside)
qed

lemma block_state_left_pad:
  assumes "DebugOn (configuration s)" and "i < unat (PadBytes (configuration s))"
    and "unat (PadBytes (configuration s)) \<le> d"
  shows "mem (block_state d s) (d - unat (PadBytes (configuration s)) + i) = PAD_PATTERN (hdr s)"
  using assms
  by (auto simp: block_state_def AddToFreeList_def Let_def memset_apply)

lemma block_state_right_pad:
  assumes "DebugOn (configuration s)" and "i < unat (PadBytes (configuration s))"
  shows "mem (block_state d s) (d + unat (ObjectSize (stats s)) + i) = PAD_PATTERN (hdr s)"
  using assms
  by (simp add: block_state_def AddToFreeList_def Let_def memset_inside)


text \<open>\<open>CheckPadding\<close> returns exactly when both pads hold the pad pattern.\<close>

lemma CheckPadding_right_Return:
  "CheckPadding_right m pad ra js = Return () \<longleftrightarrow> (\<forall>j\<in>set js. m (ra + j) = pad)"
  by (induction js) auto

lemma CheckPadding_left_Return:
  "CheckPadding_left m pad P la ra is = Return () \<longleftrightarrow>
     (\<forall>i\<in>set is. m (la + i) = pad) \<and> (P - 1 \<in> set is \<longrightarrow> (\<forall>j<P. m (ra + j) = pad))"
proof (induction "is")
  case Nil
  then show ?case by simp
next
  case (Cons i "is")
  show ?case
  proof (cases "m (la + i) = pad")
    case False
    then show ?thesis by auto
  next
    case True
    show ?thesis
    proof (cases "i = P - 1")
      case False
      with True Cons show ?thesis by auto
    next
      case eq: True
      show ?thesis
      proof (cases "CheckPadding_right m pad ra [0..<P]")
        case (Return u)
        then have "\<forall>j<P. m (ra + j) = pad" by (simp add: CheckPadding_right_Return)
        with True eq Return Cons show ?thesis by auto
      next
        case (Throw e)
        then have "\<not> (\<forall>j<P. m (ra + j) = pad)"
          using CheckPadding_right_Return [of m pad ra "[0..<P]"] by auto
        with True eq Throw show ?thesis by auto
      qed
    qed
  qed
qed

lemma CheckPadding_Return:
  "CheckPadding obj s = Return () \<longleftrightarrow>
     (\<forall>i<unat (PadBytes (configuration s)).
        mem s (obj - unat (PadBytes (configuration s)) + i) = PAD_PATTERN (hdr s) \<and>
        mem s (obj + unat (ObjectSize (stats s)) + i) = PAD_PATTERN (hdr s))"
proof -
  let ?P = "unat (PadBytes (configuration s))"
  have "?P - 1 \<in> set [0..<?P] \<longleftrightarrow> 0 < ?P" by auto
  then show ?thesis
    unfolding CheckPadding_def Let_def CheckPadding_left_Return by auto
qed

lemma CheckPadding_cases:
  "CheckPadding obj s = Return () \<or> CheckPadding obj s = Throw E_CORRUPTED_BLOCK"
proof (cases "CheckPadding obj s")
  case (Return u)
  then show ?thesis by simp
next
  case (Throw e)
  then show ?thesis
    unfolding CheckPadding_def Let_def by (auto dest: CheckPadding_left_throws)
qed

fun page_chain :: "memory \<Rightarrow> addr \<Rightarrow> addr list \<Rightarrow> bool" where
  "page_chain m p [] \<longleftrightarrow> p = 0"
| "page_chain m p (q # qs) \<longleftrightarrow> p = q \<and> q \<noteq> 0 \<and> page_chain m (load_ptr m q) qs"

lemma new_page_link:
  assumes "PageList s < 2 ^ 64"
    and "PTR_SIZE + unat (PadBytes (configuration s)) + unat (hb_size (HBlockInfo (configuration s)))
           \<le> unat (pageHeader s)"
  shows "load_ptr (mem (init_blocks a n (unat (pageHeader s)) (new_page_state a s))) a = PageList s"
proof -
  let ?s1 = "new_page_state a s"
  have "load_ptr (mem (init_blocks a n (unat (pageHeader s)) ?s1)) a = load_ptr (mem ?s1) a"
  proof (rule load_ptr_cong)
    fix x assume "a \<le> x" "x < a + PTR_SIZE"
    with assms(2) have "x < headerStart ?s1 (a + unat (pageHeader s))"
      by (simp add: headerStart_def new_page_state_simps)
    then show "mem (init_blocks a n (unat (pageHeader s)) ?s1) x = mem ?s1 x"
      by (rule init_blocks_mem_below)
  qed
  also have "\<dots> = PageList s"
    using assms(1) by (simp add: new_page_state_def Let_def load_ptr_store_ptr_same)
  finally show ?thesis .
qed

lemma page_header_spec_ge:
  "PTR_SIZE + unat (hb_size (HBlockInfo c)) + unat (PadBytes c) \<le> page_header_spec c"
  unfolding page_header_spec_def by (rule align_spec_ge)

lemma fresh_page_link:
  assumes "well_sized S c"
  shows "load_ptr (mem (fresh K m0 a S c)) a = 0"
proof -
  note u = same_geometry_unat [OF well_sized_representable [OF assms] same_geometry_refl, of K m0]
  have "load_ptr (mem (init_blocks a (unat (ObjectsPerPage c))
          (unat (pageHeader (construct K m0 S c))) (new_page_state a (construct K m0 S c)))) a =
        PageList (construct K m0 S c)"
    using page_header_spec_ge [of c]
    by (intro new_page_link) (simp_all add: construct_simps(2,10) u)
  then show ?thesis by (simp add: fresh_def construct_simps)
qed


lemma example_fresh_debug:
  "\<not> UseCPPMemManager (configuration (fresh example_consts (\<lambda>x. 0) 4096 16 example_config))"
  "DebugOn (configuration (fresh example_consts (\<lambda>x. 0) 4096 16 example_config))"
  "unat (PageSize (stats (fresh example_consts (\<lambda>x. 0) 4096 16 example_config))) = 66"
  "load_ptr (mem (fresh example_consts (\<lambda>x. 0) 4096 16 example_config)) 4096 = 0"
  "PageList (fresh example_consts (\<lambda>x. 0) 4096 16 example_config) = 4096"
  "ObjectAllocator_ctor example_consts (\<lambda>x. 0) (Some 4096) 16 example_config =
     Some (Return (), fresh example_consts (\<lambda>x. 0) 4096 16 example_config)"
proof -
  have e: "example_config = example_config\<lparr>UseCPPMemManager := False, DebugOn := True\<rparr>"
    by (simp add: example_config_def)
  have w: "well_sized 16 example_config"
    by (subst e) (rule example_well_sized)
  have v: "page_size_spec 16 example_config = 66"
    by (subst e) (rule example_spec_values)
  let ?s = "fresh example_consts (\<lambda>x. 0) 4096 16 example_config"
  show "\<not> UseCPPMemManager (configuration ?s)" "DebugOn (configuration ?s)"
    by (simp_all add: fresh_simps construct_simps example_config_def)
  have "PageSize (stats ?s) = PageSize (stats (construct example_consts (\<lambda>x. 0) 16 example_config))"
    by (simp add: fresh_simps)
  then show "unat (PageSize (stats ?s)) = 66"
    using construct_PageSize [OF well_sized_representable [OF w], of example_consts "\<lambda>x. 0"] v by simp
  show "load_ptr (mem ?s) 4096 = 0" using w by (rule fresh_page_link)
  show "PageList ?s = 4096" by (simp add: fresh_simps)
  show "ObjectAllocator_ctor example_consts (\<lambda>x. 0) (Some 4096) 16 example_config = Some (Return (), ?s)"
    using w by (rule ctor_fresh) (simp add: example_config_def)
qed

text \<open>
  An instance of C3: on the fresh example allocator, \<open>Free\<close> of an address outside the
  page throws \<open>E_BAD_BOUNDARY\<close> and has changed the two counters only.
\<close>

theorem Free_throw_not_atomic_witness:
  "\<exists>s0 s'. ObjectAllocator_ctor example_consts (\<lambda>x. 0) (Some 4096) 16 example_config = Some (Return (), s0) \<and>
       Free 100 s0 = Some (Throw E_BAD_BOUNDARY, s') \<and>
       Deallocations (stats s') = Deallocations (stats s0) + 1 \<and>
       ObjectsInUse (stats s') = ObjectsInUse (stats s0) - 1 \<and>
       FreeObjects (stats s') = FreeObjects (stats s0) \<and>
       FreeList s' = FreeList s0 \<and> mem s' = mem s0"
proof -
  let ?s0 = "fresh example_consts (\<lambda>x. 0) 4096 16 example_config"
  note f = example_fresh_debug
  have b: "CheckPageBoundary 100 ?s0 = Some (Throw E_BAD_BOUNDARY)"
    unfolding CheckPageBoundary_def f(3,5)
    by (subst CheckPageBoundary_loop.simps) (simp add: f(4))
  have "\<exists>s'. Free 100 ?s0 = Some (Throw E_BAD_BOUNDARY, s')"
    using f(1,2) b by (simp add: Free_def Free_debug_def Let_def CheckPageBoundary_def)
  then obtain s' where t: "Free 100 ?s0 = Some (Throw E_BAD_BOUNDARY, s')" ..
  from Free_throw_not_atomic [OF f(1) t]
  have "s' = ?s0\<lparr>stats := (stats ?s0)\<lparr>Deallocations := Deallocations (stats ?s0) + 1,
                                    ObjectsInUse := ObjectsInUse (stats ?s0) - 1\<rparr>\<rparr>" by simp
  then have "Deallocations (stats s') = Deallocations (stats ?s0) + 1 \<and>
       ObjectsInUse (stats s') = ObjectsInUse (stats ?s0) - 1 \<and>
       FreeObjects (stats s') = FreeObjects (stats ?s0) \<and>
       FreeList s' = FreeList ?s0 \<and> mem s' = mem ?s0" by simp
  with f(6) t show ?thesis by blast
qed

lemma DumpMemoryInUse_blocks_silent:
  assumes "hb_type (HBlockInfo (configuration s)) = hbNone \<or>
           hb_type (HBlockInfo (configuration s)) = hbExternal"
  shows "DumpMemoryInUse_blocks s n obj acc = acc"
  using assms by (induction n arbitrary: obj) auto

lemma DumpMemoryInUse_pages_silent:
  assumes "hb_type (HBlockInfo (configuration s)) = hbNone \<or>
           hb_type (HBlockInfo (configuration s)) = hbExternal"
  shows "page_chain (mem s) page ps \<Longrightarrow> DumpMemoryInUse_pages s page acc = Some acc"
proof (induction ps arbitrary: page)
  case Nil
  then show ?case by (subst DumpMemoryInUse_pages.simps) simp
next
  case (Cons q qs)
  then have "DumpMemoryInUse_pages s (load_ptr (mem s) page) acc = Some acc" by simp
  with Cons.prems show ?case
    by (subst DumpMemoryInUse_pages.simps) (simp add: DumpMemoryInUse_blocks_silent [OF assms])
qed

text \<open>
  C10. For the header flavors none and external, \<open>DumpMemoryInUse\<close> on an allocator whose
  page list is a finite chain returns 0 and never calls the callback, whatever the memory
  and the statistics say about allocated blocks. Only the branch for the basic and extended
  flavors, which reads the byte before the left pad, counts a leak
  (\<open>DumpMemoryInUse_blocks_flag\<close>).
\<close>

theorem DumpMemoryInUse_none_external:
  assumes "hb_type (HBlockInfo (configuration s)) = hbNone \<or>
           hb_type (HBlockInfo (configuration s)) = hbExternal"
    and "page_chain (mem s) (PageList s) ps"
  shows "DumpMemoryInUse s = Some (0, [])"
  unfolding DumpMemoryInUse_def using assms(2) by (rule DumpMemoryInUse_pages_silent [OF assms(1)])

lemma DumpMemoryInUse_blocks_flag:
  assumes "hb_type (HBlockInfo (configuration s)) = hbBasic \<or>
           hb_type (HBlockInfo (configuration s)) = hbExtended"
  shows "DumpMemoryInUse_blocks s (Suc 0) obj (leaks, calls) =
         (if mem s (obj - unat (PadBytes (configuration s)) - 1) \<noteq> 0
          then (leaks + 1, calls @ [(obj, ObjectSize (stats s))]) else (leaks, calls))"
  using assms by auto

lemma Allocate_header_mem_below:
  assumes "Allocate_header lbl ni obj s = (r, s')" and "x < headerStart s obj"
  shows "mem s' x = mem s x"
  using assms
  by (auto simp: Allocate_header_def Let_def store_le_apply store_ptr_apply
      split: HBLOCK_TYPE.splits option.splits)

definition pop_state :: "ObjectAllocator \<Rightarrow> ObjectAllocator" where
  "pop_state s =
     (let s1 = s\<lparr>FreeList := load_ptr (mem s) (FreeList s)\<rparr>;
          s2 = (if DebugOn (configuration s1)
                then s1\<lparr>mem := memset (mem s1) (FreeList s) (ALLOCATED_PATTERN (hdr s1))
                                  (unat (ObjectSize (stats s1)))\<rparr>
                else s1);
          st = stats s2;
          st1 = st\<lparr>ObjectsInUse := ObjectsInUse st + 1,
                   Allocations := Allocations st + 1,
                   FreeObjects := FreeObjects st - 1\<rparr>;
          st2 = (if MostObjects st1 < ObjectsInUse st1
                 then st1\<lparr>MostObjects := ObjectsInUse st1\<rparr> else st1)
      in s2\<lparr>stats := st2\<rparr>)"

lemma Allocate_pop_eq:
  "Allocate_pop lbl ni s = Allocate_header lbl ni (FreeList s) (pop_state s)"
  by (simp add: Allocate_pop_def pop_state_def Let_def)

lemma pop_state_simps:
  "hdr (pop_state s) = hdr s"
  "configuration (pop_state s) = configuration s"
  "pageHeader (pop_state s) = pageHeader s"
  "dataSize (pop_state s) = dataSize s"
  "PageList (pop_state s) = PageList s"
  "FreeList (pop_state s) = load_ptr (mem s) (FreeList s)"
  "infos (pop_state s) = infos s"
  "deleted (pop_state s) = deleted s"
  "mem (pop_state s) =
     (if DebugOn (configuration s)
      then memset (mem s) (FreeList s) (ALLOCATED_PATTERN (hdr s)) (unat (ObjectSize (stats s)))
      else mem s)"
  "ObjectSize (stats (pop_state s)) = ObjectSize (stats s)"
  "PageSize (stats (pop_state s)) = PageSize (stats s)"
  "Allocations (stats (pop_state s)) = Allocations (stats s) + 1"
  "ObjectsInUse (stats (pop_state s)) = ObjectsInUse (stats s) + 1"
  "FreeObjects (stats (pop_state s)) = FreeObjects (stats s) - 1"
  "PagesInUse (stats (pop_state s)) = PagesInUse (stats s)"
  "Deallocations (stats (pop_state s)) = Deallocations (stats s)"
  "headerStart (pop_state s) d = headerStart s d"
  by (simp_all add: pop_state_def Let_def headerStart_def)

lemma Allocate_pop_mem_below:
  assumes "Allocate_pop lbl ni s = (r, s')" and "x < headerStart s (FreeList s)"
  shows "mem s' x = mem s x"
proof -
  from assms(1) have h: "Allocate_header lbl ni (FreeList s) (pop_state s) = (r, s')"
    by (simp add: Allocate_pop_eq)
  from assms(2) have "x < headerStart (pop_state s) (FreeList s)"
    by (simp add: pop_state_simps)
  from Allocate_header_mem_below [OF h this] have "mem s' x = mem (pop_state s) x" .
  also have "\<dots> = mem s x"
  proof -
    from assms(2) headerStart_le [of s "FreeList s"] have "x < FreeList s" by linarith
    then show ?thesis by (simp add: pop_state_simps memset_apply)
  qed
  finally show ?thesis .
qed

lemma Allocate_nonempty:
  assumes "\<not> UseCPPMemManager (configuration s)" and "FreeList s \<noteq> 0"
  shows "Allocate lbl h s = Some (Allocate_header lbl (new_info h) (FreeList s) (pop_state s))"
  using assms by (simp add: Allocate_def Allocate_pop_eq)

lemma Allocate_header_None: 
  "hb_type (HBlockInfo (configuration s)) = hbNone \<Longrightarrow> Allocate_header lbl ni obj s = (Return obj, s)"
  by (simp add: Allocate_header_def Let_def)

text \<open>The first block handed out by a fresh allocator is the last block of the page.\<close>

definition last_block :: "addr \<Rightarrow> size_t \<Rightarrow> OAConfig \<Rightarrow> addr" where
  "last_block a S c = a + page_header_spec c + (unat (ObjectsPerPage c) - 1) * stride_spec S c"

lemma FreeList_fresh_last_block:
  "well_sized S c \<Longrightarrow> FreeList (fresh K m0 a S c) = last_block a S c"
  unfolding last_block_def by (rule FreeList_fresh) (rule well_sized_representable)

lemma last_block_ge:
  "a + PTR_SIZE + unat (hb_size (HBlockInfo c)) + unat (PadBytes c) \<le> last_block a S c"
  using page_header_spec_ge [of c] unfolding last_block_def by linarith

lemma headerStart_fresh_last_block:
  "a + PTR_SIZE \<le> headerStart (fresh K m0 a S c) (last_block a S c)"
  using last_block_ge [of a c S]
  by (simp add: headerStart_def fresh_simps construct_simps)

lemma last_block_within_page:
  assumes "well_sized S c"
  shows "a \<le> last_block a S c" and "last_block a S c < a + page_size_spec S c"
proof -
  show "a \<le> last_block a S c" unfolding last_block_def by simp
  from assms have "1 \<le> unat S + unat (PadBytes c)" by (simp add: well_sized_def)
  then show "last_block a S c < a + page_size_spec S c"
    unfolding last_block_def page_size_spec_def by linarith
qed

lemma fresh_Allocate_page_link:
  assumes w: "well_sized S c"
    and al: "Allocate lbl h (fresh K m0 a S c) = Some (r, s1)"
    and np: "\<not> UseCPPMemManager c"
  shows "load_ptr (mem s1) a = 0"
proof -
  let ?s0 = "fresh K m0 a S c"
  have fl: "FreeList ?s0 = last_block a S c" using w by (rule FreeList_fresh_last_block)
  have nz: "FreeList ?s0 \<noteq> 0" unfolding fl using last_block_ge [of a c S] by (simp add: PTR_SIZE_def)
  have n: "\<not> UseCPPMemManager (configuration ?s0)" using np by (simp add: fresh_simps construct_simps)
  from al have p: "Allocate_pop lbl (new_info h) ?s0 = (r, s1)"
    unfolding Allocate_nonempty [OF n nz] Allocate_pop_eq by simp
  have "load_ptr (mem s1) a = load_ptr (mem ?s0) a"
  proof (rule load_ptr_cong)
    fix x assume "a \<le> x" "x < a + PTR_SIZE"
    with headerStart_fresh_last_block [of a K m0 S c] have "x < headerStart ?s0 (FreeList ?s0)"
      unfolding fl by linarith
    with p show "mem s1 x = mem ?s0 x" by (rule Allocate_pop_mem_below)
  qed
  with fresh_page_link [OF w] show ?thesis by simp
qed

definition example_config_none :: OAConfig where
  "example_config_none =
     example_config\<lparr>HBlockInfo := \<lparr>hb_type = hbNone, hb_size = 0, hb_additional = 0\<rparr>\<rparr>"

lemma example_none_well_sized: "well_sized 16 example_config_none"
  by (simp add: well_sized_def stride_spec_def page_size_spec_def page_header_spec_def
      example_config_def example_config_none_def align_spec_def PTR_SIZE_def)

theorem DumpMemoryInUse_none_external_witness:
  "\<exists>s0 p s1. ObjectAllocator_ctor example_consts (\<lambda>x. 0) (Some 4096) 16 example_config_none
                = Some (Return (), s0) \<and>
     Allocate None example_host s0 = Some (Return p, s1) \<and>
     ObjectsInUse (stats s1) = 1 \<and>
     DumpMemoryInUse s1 = Some (0, [])"
proof -
  let ?c = example_config_none
  let ?s0 = "fresh example_consts (\<lambda>x. 0) 4096 16 ?c"
  note w = example_none_well_sized
  have c: "ObjectAllocator_ctor example_consts (\<lambda>x. 0) (Some 4096) 16 ?c = Some (Return (), ?s0)"
    using w by (rule ctor_fresh) (simp add: example_config_def example_config_none_def)
  have np: "\<not> UseCPPMemManager ?c" by (simp add: example_config_def example_config_none_def)
  have n: "\<not> UseCPPMemManager (configuration ?s0)" using np by (simp add: fresh_simps construct_simps)
  have t: "hb_type (HBlockInfo (configuration ?s0)) = hbNone"
    by (simp add: fresh_simps construct_simps example_config_none_def)
  have fl: "FreeList ?s0 = last_block 4096 16 ?c" using w by (rule FreeList_fresh_last_block)
  have nz: "FreeList ?s0 \<noteq> 0" unfolding fl using last_block_ge [of 4096 ?c 16] by simp
  have al: "Allocate None example_host ?s0 = Some (Return (FreeList ?s0), pop_state ?s0)"
    unfolding Allocate_nonempty [OF n nz]
    by (simp add: Allocate_header_None t pop_state_simps)
  have t1: "hb_type (HBlockInfo (configuration (pop_state ?s0))) = hbNone \<or>
            hb_type (HBlockInfo (configuration (pop_state ?s0))) = hbExternal"
    using t by (simp add: pop_state_simps)
  have "load_ptr (mem (pop_state ?s0)) 4096 = 0"
    using w al np by (rule fresh_Allocate_page_link)
  then have ch: "page_chain (mem (pop_state ?s0)) (PageList (pop_state ?s0)) [4096]"
    by (simp add: pop_state_simps fresh_simps)
  have o: "ObjectsInUse (stats (pop_state ?s0)) = 1"
    by (simp add: pop_state_simps fresh_simps construct_simps)
  from DumpMemoryInUse_none_external [OF t1 ch] c al o show ?thesis by blast
qed

text \<open>
  The header block is wide enough for what \<open>Allocate\<close> and \<open>Free\<close> write into it. The
  constructor of \<open>HeaderBlockInfo\<close> (in ObjectAllocator.h) sets \<open>size_\<close> from the flavor;
  the widths of the spec (8, \<open>u + 2 + 8\<close> and \<open>W\<close>, with a basic header of 8 bytes) satisfy
  this, as do the widths \<open>sizeof(unsigned) + 1\<close> and \<open>u + 7\<close> of a basic header of 5 bytes.
\<close>

definition header_fits :: "OAConsts \<Rightarrow> OAConfig \<Rightarrow> bool" where
  "header_fits K c \<longleftrightarrow>
     (case hb_type (HBlockInfo c) of
        hbNone \<Rightarrow> True
      | hbBasic \<Rightarrow> 5 \<le> unat (hb_size (HBlockInfo c)) \<and>
                   unat (BASIC_HEADER_SIZE K) \<le> unat (hb_size (HBlockInfo c))
      | hbExtended \<Rightarrow>
          unat (ucast (hb_additional (HBlockInfo c)) :: byte) + 7 \<le> unat (hb_size (HBlockInfo c)) \<and>
          unat (hb_additional (HBlockInfo c)) + 2 + unat (BASIC_HEADER_SIZE K)
            \<le> unat (hb_size (HBlockInfo c))
      | hbExternal \<Rightarrow> PTR_SIZE \<le> unat (hb_size (HBlockInfo c)))"

text \<open>The state that a returning \<open>Free\<close> leaves, outside passthrough mode.\<close>

definition free_state :: "addr \<Rightarrow> ObjectAllocator \<Rightarrow> ObjectAllocator" where
  "free_state obj s =
     (let s1 = s\<lparr>stats := (stats s)\<lparr>Deallocations := Deallocations (stats s) + 1,
                                    ObjectsInUse := ObjectsInUse (stats s) - 1\<rparr>\<rparr>;
          s2 = (if DebugOn (configuration s)
                then s1\<lparr>mem := memset (mem s) obj (FREED_PATTERN (hdr s))
                                  (unat (ObjectSize (stats s)))\<rparr>
                else s1)
      in AddToFreeList obj (Free_header obj s2))"

lemma Free_debug_cases:
  "Free_debug obj s =
     (case CheckPageBoundary obj s of
        None \<Rightarrow> None
      | Some (Throw e) \<Rightarrow> Some (Throw e, s)
      | Some (Return u) \<Rightarrow>
          if CheckPadding obj s \<noteq> Return () then Some (Throw E_CORRUPTED_BLOCK, s)
          else if mem s (obj + PTR_SIZE) = FREED_PATTERN (hdr s) then Some (Throw E_MULTIPLE_FREE, s)
          else Some (Return (),
                     s\<lparr>mem := memset (mem s) obj (FREED_PATTERN (hdr s))
                                (unat (ObjectSize (stats s)))\<rparr>))"
  using CheckPadding_cases [of obj s]
  by (auto simp: Free_debug_def split: option.splits outcome.splits)

lemma CheckPageBoundary_stats:
  "CheckPageBoundary obj (s\<lparr>stats := (stats s)\<lparr>Deallocations := x, ObjectsInUse := y\<rparr>\<rparr>) =
   CheckPageBoundary obj s"
  by (simp add: CheckPageBoundary_def)

lemma CheckPadding_stats:
  "CheckPadding obj (s\<lparr>stats := (stats s)\<lparr>Deallocations := x, ObjectsInUse := y\<rparr>\<rparr>) =
   CheckPadding obj s"
  by (simp add: CheckPadding_def)

lemma Free_nodebug:
  assumes "\<not> UseCPPMemManager (configuration s)" and "\<not> DebugOn (configuration s)"
  shows "Free obj s = Some (Return (), free_state obj s)"
  using assms by (simp add: Free_def free_state_def Let_def)

lemma Free_debug_Return_iff:
  assumes "\<not> UseCPPMemManager (configuration s)" and "DebugOn (configuration s)"
  shows "Free obj s = Some (Return (), s') \<longleftrightarrow>
         s' = free_state obj s \<and> CheckPageBoundary obj s = Some (Return ()) \<and>
         CheckPadding obj s = Return () \<and> mem s (obj + PTR_SIZE) \<noteq> FREED_PATTERN (hdr s)"
  using assms
  by (auto simp: Free_def free_state_def Let_def Free_debug_cases CheckPageBoundary_stats
      CheckPadding_stats split: option.splits outcome.splits)

lemma Free_MULTIPLE_FREE:
  assumes "\<not> UseCPPMemManager (configuration s)" and "DebugOn (configuration s)"
    and "CheckPageBoundary obj s = Some (Return ())" and "CheckPadding obj s = Return ()"
    and "mem s (obj + PTR_SIZE) = FREED_PATTERN (hdr s)"
  shows "Free obj s =
         Some (Throw E_MULTIPLE_FREE,
               s\<lparr>stats := (stats s)\<lparr>Deallocations := Deallocations (stats s) + 1,
                                     ObjectsInUse := ObjectsInUse (stats s) - 1\<rparr>\<rparr>)"
  using assms
  by (simp add: Free_def Let_def Free_debug_cases CheckPageBoundary_stats CheckPadding_stats)

lemma free_state_simps:
  "hdr (free_state obj s) = hdr s"
  "configuration (free_state obj s) = configuration s"
  "pageHeader (free_state obj s) = pageHeader s"
  "dataSize (free_state obj s) = dataSize s"
  "PageList (free_state obj s) = PageList s"
  "FreeList (free_state obj s) = obj"
  "ObjectSize (stats (free_state obj s)) = ObjectSize (stats s)"
  "PageSize (stats (free_state obj s)) = PageSize (stats s)"
  "headerStart (free_state obj s) d = headerStart s d"
  by (simp_all add: free_state_def Let_def AddToFreeList_def Free_header_simps headerStart_def)

lemma CheckPageBoundary_first:
  assumes "PageList s \<le> obj" and "obj < PageList s + unat (PageSize (stats s))"
  shows "CheckPageBoundary obj s = Some (Return ())"
  unfolding CheckPageBoundary_def using assms
  by (subst CheckPageBoundary_loop.simps) simp

text \<open>What the header updates leave alone.\<close>

lemma Allocate_header_mem_outside:
  assumes "Allocate_header lbl ni obj s = (r, s')" and "header_fits (hdr s) (configuration s)"
    and "x < headerStart s obj \<or>
         headerStart s obj + unat (hb_size (HBlockInfo (configuration s))) \<le> x"
  shows "mem s' x = mem s x"
  using assms
  by (auto simp: Allocate_header_def header_fits_def Let_def store_le_apply store_ptr_apply
      split: HBLOCK_TYPE.splits option.splits)

lemma Free_header_mem_outside:
  assumes "header_fits (hdr s) (configuration s)"
    and "x < headerStart s obj \<or>
         headerStart s obj + unat (hb_size (HBlockInfo (configuration s))) \<le> x"
  shows "mem (Free_header obj s) x = mem s x"
  using assms
  by (auto simp: Free_header_def header_fits_def Let_def memset_apply store_ptr_apply
      split: HBLOCK_TYPE.splits)

lemma fresh_as_last_init_block:
  assumes w: "well_sized S c"
  shows "\<exists>s'. fresh K m0 a S c = block_state (last_block a S c) s' \<and>
              configuration s' = configuration (construct K m0 S c) \<and> hdr s' = K \<and>
              ObjectSize (stats s') = S"
proof -
  let ?c0 = "construct K m0 S c"
  let ?s1 = "new_page_state a ?c0"
  note u = same_geometry_unat [OF well_sized_representable [OF w] same_geometry_refl, of K m0]
  from w obtain m where m: "unat (ObjectsPerPage c) = Suc m"
    by (cases "unat (ObjectsPerPage c)") (simp_all add: well_sized_def)
  let ?s' = "init_blocks a m (unat (pageHeader ?c0)) ?s1"
  have "fresh K m0 a S c = block_state (a + unat (pageHeader ?c0) + m * unat (dataSize ?s1)) ?s'"
    unfolding fresh_def m by (rule init_blocks_Suc_last)
  also have "a + unat (pageHeader ?c0) + m * unat (dataSize ?s1) = last_block a S c"
    by (simp add: last_block_def m new_page_state_simps u)
  finally have "fresh K m0 a S c = block_state (last_block a S c) ?s'" .
  moreover have "configuration ?s' = configuration ?c0" "hdr ?s' = K" "ObjectSize (stats ?s') = S"
    by (simp_all add: init_blocks_simps new_page_state_simps construct_simps(1,9))
  ultimately show ?thesis by blast
qed

lemma fresh_pads:
  assumes w: "well_sized S c" and d: "DebugOn c" and i: "i < unat (PadBytes c)"
  shows "mem (fresh K m0 a S c) (last_block a S c - unat (PadBytes c) + i) = PAD_PATTERN K"
    and "mem (fresh K m0 a S c) (last_block a S c + unat S + i) = PAD_PATTERN K"
proof -
  from fresh_as_last_init_block [OF w, of K m0 a] obtain s' where
    f: "fresh K m0 a S c = block_state (last_block a S c) s'"
    and c: "configuration s' = configuration (construct K m0 S c)" and h: "hdr s' = K"
    and o: "ObjectSize (stats s') = S" by blast
  have dc: "DebugOn (configuration s')" and pc: "PadBytes (configuration s') = PadBytes c"
    using d by (simp_all add: c construct_simps(10))
  have le: "unat (PadBytes (configuration s')) \<le> last_block a S c"
    unfolding pc using last_block_ge [of a c S] by linarith
  from block_state_left_pad [OF dc _ le, of i] i
  show "mem (fresh K m0 a S c) (last_block a S c - unat (PadBytes c) + i) = PAD_PATTERN K"
    unfolding f pc h by simp
  from block_state_right_pad [OF dc, of i "last_block a S c"] i
  show "mem (fresh K m0 a S c) (last_block a S c + unat S + i) = PAD_PATTERN K"
    unfolding f pc h o by simp
qed


lemma block_state_mem_above:
  assumes "d + unat (ObjectSize (stats s)) + unat (PadBytes (configuration s)) \<le> x"
    and "PTR_SIZE \<le> unat (ObjectSize (stats s))"
    and "unat (PadBytes (configuration s)) + unat (hb_size (HBlockInfo (configuration s))) \<le> d"
  shows "mem (block_state d s) x = mem s x"
proof -
  let ?S = "unat (ObjectSize (stats s))"
  have "unat (of_nat PTR_SIZE :: size_t) = PTR_SIZE" by (simp add: PTR_SIZE_def)
  with assms(2) have u: "unat (ObjectSize (stats s) - of_nat PTR_SIZE) = ?S - PTR_SIZE"
    by (simp add: unat_sub_nowrap)
  have h: "headerStart s d + unat (hb_size (HBlockInfo (configuration s))) \<le> x"
    using assms(1,3) by (simp add: headerStart_def)
  from assms h show ?thesis
    by (simp add: block_state_def AddToFreeList_def Let_def memset_apply store_ptr_apply u)
qed

lemma init_blocks_mem_above:
  assumes "\<forall>k<n. page + off + k * unat (dataSize s) + unat (ObjectSize (stats s))
                   + unat (PadBytes (configuration s)) \<le> x"
    and "PTR_SIZE \<le> unat (ObjectSize (stats s))"
    and "unat (PadBytes (configuration s)) + unat (hb_size (HBlockInfo (configuration s))) \<le> page + off"
  shows "mem (init_blocks page n off s) x = mem s x"
  using assms(1)
proof (induction n)
  case 0
  then show ?case by simp
next
  case (Suc n)
  let ?s = "init_blocks page n off s" and ?d = "page + off + n * unat (dataSize s)"
  have "mem (block_state ?d ?s) x = mem ?s x"
    using Suc.prems assms(2,3) by (intro block_state_mem_above) (simp_all add: init_blocks_simps)
  moreover have "mem ?s x = mem s x" using Suc.prems by (intro Suc.IH) simp
  ultimately show ?case unfolding init_blocks_Suc_last by simp
qed

text \<open>
  The page is allocated with \<open>PTR_SIZE\<close> bytes more than \<open>PageSize_\<close>, which stay zero.
\<close>

lemma fresh_slack:
  assumes w: "well_sized S c" and sz: "PTR_SIZE \<le> unat S" and i: "i < PTR_SIZE"
  shows "mem (fresh K m0 a S c) (a + page_size_spec S c + i) = 0"
proof -
  let ?c0 = "construct K m0 S c"
  let ?s1 = "new_page_state a ?c0"
  let ?N = "unat (ObjectsPerPage c)" and ?D = "stride_spec S c" and ?PH = "page_header_spec c"
  let ?x = "a + page_size_spec S c + i"
  note r = well_sized_representable [OF w]
  note u = same_geometry_unat [OF r same_geometry_refl, of K m0]
  from w have n: "1 \<le> ?N" and b: "?PH + ?N * ?D < 2 ^ 32" by (simp_all add: well_sized_def)
  from n obtain m where m: "?N = Suc m" by (cases ?N) simp_all
  have ps: "page_size_spec S c = ?PH + m * ?D + unat S + unat (PadBytes c)"
    by (simp add: page_size_spec_def m)
  have psb: "page_size_spec S c < 2 ^ 32"
    using b stride_spec_ge [of S c] unfolding ps m by simp
  have cf: "unat (dataSize ?s1) = ?D" "ObjectSize (stats ?s1) = S" "PadBytes (configuration ?s1) = PadBytes c"
    "HBlockInfo (configuration ?s1) = HBlockInfo c"
    by (simp_all add: new_page_state_simps u construct_simps(9,10))
  have "mem (fresh K m0 a S c) ?x = mem ?s1 ?x"
    unfolding fresh_def
  proof (rule init_blocks_mem_above)
    show "\<forall>k<?N. a + unat (pageHeader ?c0) + k * unat (dataSize ?s1) + unat (ObjectSize (stats ?s1))
                   + unat (PadBytes (configuration ?s1)) \<le> ?x"
    proof (intro allI impI)
      fix k assume "k < ?N"
      then have "k * ?D \<le> m * ?D" using m by simp
      then show "a + unat (pageHeader ?c0) + k * unat (dataSize ?s1) + unat (ObjectSize (stats ?s1))
                   + unat (PadBytes (configuration ?s1)) \<le> ?x"
        unfolding cf u ps by linarith
    qed
    show "PTR_SIZE \<le> unat (ObjectSize (stats ?s1))" using sz by (simp add: cf)
    show "unat (PadBytes (configuration ?s1)) + unat (hb_size (HBlockInfo (configuration ?s1)))
            \<le> a + unat (pageHeader ?c0)"
      unfolding cf u using page_header_spec_ge [of c] by linarith
  qed
  also have "\<dots> = 0"
  proof -
    have p8: "unat (PageSize (stats ?c0) + of_nat PTR_SIZE) = page_size_spec S c + PTR_SIZE"
    proof -
      have "unat (of_nat PTR_SIZE :: size_t) = PTR_SIZE" by (simp add: PTR_SIZE_def)
      moreover have "page_size_spec S c + PTR_SIZE < 2 ^ 64" using psb by (simp add: PTR_SIZE_def)
      ultimately show ?thesis using u(3) by (simp add: unat_add_nowrap)
    qed
    have ge: "PTR_SIZE \<le> page_size_spec S c"
      using page_header_spec_ge [of c] unfolding ps by linarith
    show ?thesis
      using i ge
      by (simp add: new_page_state_def Let_def store_ptr_apply memset_apply p8 u)
  qed
  finally show ?thesis .
qed

text \<open>
  What the checks of \<open>Free\<close> need in debug mode: an object that holds a pointer, a header
  block wide enough, and a byte at offset \<open>W\<close> that is not the freed pattern after
  \<open>Allocate\<close>. That byte holds the allocated pattern when the object is larger than a
  pointer; when it is exactly a pointer, it is the first byte of the right pad, or without
  padding, for the last block of the page, the first of the bytes after \<open>PageSize_\<close>,
  which is zero.
\<close>

definition debug_ready :: "OAConsts \<Rightarrow> size_t \<Rightarrow> OAConfig \<Rightarrow> bool" where
  "debug_ready K S c \<longleftrightarrow>
     PTR_SIZE \<le> unat S \<and> header_fits K c \<and>
     (PTR_SIZE < unat S \<longrightarrow> ALLOCATED_PATTERN K \<noteq> FREED_PATTERN K) \<and>
     (unat S = PTR_SIZE \<longrightarrow>
        (if unat (PadBytes c) = 0 then FREED_PATTERN K \<noteq> 0
         else PAD_PATTERN K \<noteq> FREED_PATTERN K))"

text \<open>The state after the first \<open>Allocate\<close> on a fresh allocator.\<close>

lemma fresh_first_Allocate:
  assumes w: "well_sized S c" and np: "\<not> UseCPPMemManager c"
    and ext: "hb_type (HBlockInfo c) = hbExternal \<longrightarrow> new_info h \<noteq> None"
  shows "\<exists>s1. Allocate lbl h (fresh K m0 a S c) = Some (Return (last_block a S c), s1) \<and>
              Allocate_header lbl (new_info h) (last_block a S c) (pop_state (fresh K m0 a S c))
                = (Return (last_block a S c), s1)"
proof -
  let ?s0 = "fresh K m0 a S c"
  have fl: "FreeList ?s0 = last_block a S c" using w by (rule FreeList_fresh_last_block)
  have nz: "FreeList ?s0 \<noteq> 0" unfolding fl using last_block_ge [of a c S] by (simp add: PTR_SIZE_def)
  have n: "\<not> UseCPPMemManager (configuration ?s0)" using np by (simp add: fresh_simps construct_simps)
  have "hb_type (HBlockInfo (configuration (pop_state ?s0))) \<noteq> hbExternal \<or> new_info h \<noteq> None"
    using ext by (auto simp: pop_state_simps fresh_simps construct_simps(10))
  from Allocate_header_Return [OF this, of lbl "last_block a S c"]
  obtain s1 where "Allocate_header lbl (new_info h) (last_block a S c) (pop_state ?s0)
                = (Return (last_block a S c), s1)"
    by (cases "Allocate_header lbl (new_info h) (last_block a S c) (pop_state ?s0)") auto
  then show ?thesis unfolding Allocate_nonempty [OF n nz] fl by simp
qed

lemma header_fits_cong: "HBlockInfo c' = HBlockInfo c \<Longrightarrow> header_fits K c' = header_fits K c"
  by (auto simp: header_fits_def split: HBLOCK_TYPE.splits)

lemma construct_config:
  "HBlockInfo (configuration (construct K m0 S c)) = HBlockInfo c"
  "PadBytes (configuration (construct K m0 S c)) = PadBytes c"
  "DebugOn (configuration (construct K m0 S c)) = DebugOn c"
  "UseCPPMemManager (configuration (construct K m0 S c)) = UseCPPMemManager c"
  "ObjectsPerPage (configuration (construct K m0 S c)) = ObjectsPerPage c"
  "MaxPages (configuration (construct K m0 S c)) = MaxPages c"
  "Alignment (configuration (construct K m0 S c)) = Alignment c"
  by (simp_all add: construct_simps(10))

lemma headerStart_end:
  assumes "unat (PadBytes (configuration s)) + unat (hb_size (HBlockInfo (configuration s))) \<le> d"
  shows "headerStart s d + unat (hb_size (HBlockInfo (configuration s))) =
         d - unat (PadBytes (configuration s))"
  using assms by (simp add: headerStart_def)

text \<open>
  The block just handed out by a fresh allocator in debug mode: its pads hold the pad
  pattern and its payload the allocated pattern.
\<close>

lemma fresh_first_block_debug:
  assumes w: "well_sized S c" and d: "DebugOn c" and r: "header_fits K c"
    and h: "Allocate_header lbl ni (last_block a S c) (pop_state (fresh K m0 a S c)) = (res, s1)"
  shows "\<forall>i<unat (PadBytes c).
           mem s1 (last_block a S c - unat (PadBytes c) + i) = PAD_PATTERN K \<and>
           mem s1 (last_block a S c + unat S + i) = PAD_PATTERN K"
    and "\<forall>x. last_block a S c \<le> x \<and> x < last_block a S c + unat S \<longrightarrow>
           mem s1 x = ALLOCATED_PATTERN K"
proof -
  let ?s0 = "fresh K m0 a S c" and ?p = "last_block a S c"
  let ?P = "unat (PadBytes c)" and ?H = "unat (hb_size (HBlockInfo c))"
  have fl: "FreeList ?s0 = ?p" using w by (rule FreeList_fresh_last_block)
  have cf: "PadBytes (configuration (pop_state ?s0)) = PadBytes c"
    "HBlockInfo (configuration (pop_state ?s0)) = HBlockInfo c"
    "hdr (pop_state ?s0) = K" "DebugOn (configuration ?s0)"
    "hdr ?s0 = K" "ObjectSize (stats ?s0) = S"
    using d by (simp_all add: pop_state_simps fresh_simps construct_simps(9,10))
  have fits: "header_fits (hdr (pop_state ?s0)) (configuration (pop_state ?s0))"
    using r by (simp add: pop_state_simps fresh_simps construct_config
        header_fits_cong [of "configuration (construct K m0 S c)" c])
  have ge: "?P + ?H \<le> ?p" using last_block_ge [of a c S] by linarith
  then have he: "headerStart (pop_state ?s0) ?p + ?H = ?p - ?P"
    using headerStart_end [of "pop_state ?s0" ?p] by (simp add: cf)
  have out: "mem s1 x = mem (pop_state ?s0) x" if "?p - ?P \<le> x" for x
    using Allocate_header_mem_outside [OF h fits, of x] that he by (simp add: cf)
  have pm: "mem (pop_state ?s0) x =
            (if ?p \<le> x \<and> x < ?p + unat S then ALLOCATED_PATTERN K else mem ?s0 x)" for x
    by (simp add: pop_state_simps cf fl memset_apply)
  show "\<forall>i<?P. mem s1 (?p - ?P + i) = PAD_PATTERN K \<and> mem s1 (?p + unat S + i) = PAD_PATTERN K"
  proof (intro allI impI conjI)
    fix i assume i: "i < ?P"
    have "mem s1 (?p - ?P + i) = mem (pop_state ?s0) (?p - ?P + i)" by (rule out) simp
    also have "\<dots> = mem ?s0 (?p - ?P + i)" using i ge by (auto simp: pm)
    also have "\<dots> = PAD_PATTERN K" using w d i by (rule fresh_pads)
    finally show "mem s1 (?p - ?P + i) = PAD_PATTERN K" .
    have "mem s1 (?p + unat S + i) = mem (pop_state ?s0) (?p + unat S + i)" by (rule out) simp
    also have "\<dots> = mem ?s0 (?p + unat S + i)" by (simp add: pm)
    also have "\<dots> = PAD_PATTERN K" using w d i by (rule fresh_pads)
    finally show "mem s1 (?p + unat S + i) = PAD_PATTERN K" .
  qed
  show "\<forall>x. ?p \<le> x \<and> x < ?p + unat S \<longrightarrow> mem s1 x = ALLOCATED_PATTERN K"
  proof (intro allI impI)
    fix x assume x: "?p \<le> x \<and> x < ?p + unat S"
    then have "?p - ?P \<le> x" by linarith
    then have "mem s1 x = mem (pop_state ?s0) x" by (rule out)
    with x show "mem s1 x = ALLOCATED_PATTERN K" by (simp add: pm)
  qed
qed

lemma Allocate_header_fields:
  assumes "Allocate_header lbl ni obj s = (r, s')"
  shows "hdr s' = hdr s" "configuration s' = configuration s" "stats s' = stats s"
    "PageList s' = PageList s" "FreeList s' = FreeList s"
  using Allocate_header_stats [OF assms] by simp_all

text \<open>
  The first \<open>Allocate\<close> on a fresh allocator hands out the last block of the page, and
  \<open>Free\<close> of that block returns.
\<close>

lemma fresh_Allocate_Free:
  assumes w: "well_sized S c" and np: "\<not> UseCPPMemManager c"
    and dbg: "DebugOn c \<longrightarrow> debug_ready K S c"
    and e1: "hb_type (HBlockInfo c) = hbExternal \<longrightarrow> new_info h1 \<noteq> None"
  shows "\<exists>s1. Allocate l1 h1 (fresh K m0 a S c) = Some (Return (last_block a S c), s1) \<and>
              Allocate_header l1 (new_info h1) (last_block a S c) (pop_state (fresh K m0 a S c))
                = (Return (last_block a S c), s1) \<and>
              configuration s1 = configuration (construct K m0 S c) \<and> hdr s1 = K \<and>
              PageList s1 = a \<and> ObjectSize (stats s1) = S \<and>
              PageSize (stats s1) = PageSize (stats (construct K m0 S c)) \<and>
              Free (last_block a S c) s1 = Some (Return (), free_state (last_block a S c) s1)"
proof -
  let ?s0 = "fresh K m0 a S c" and ?p = "last_block a S c"
  from fresh_first_Allocate [OF w np e1, of l1 K m0 a] obtain s1 where
    a1: "Allocate l1 h1 ?s0 = Some (Return ?p, s1)"
    and ah: "Allocate_header l1 (new_info h1) ?p (pop_state ?s0) = (Return ?p, s1)" by blast
  note f1 = Allocate_header_fields [OF ah]
  have cf: "configuration s1 = configuration (construct K m0 S c)" "hdr s1 = K"
    "PageList s1 = a" "ObjectSize (stats s1) = S"
    "PageSize (stats s1) = PageSize (stats (construct K m0 S c))"
    by (simp_all add: f1 pop_state_simps fresh_simps construct_simps(9))
  have n1: "\<not> UseCPPMemManager (configuration s1)" using np by (simp add: cf construct_config)
  have pb: "PadBytes (configuration s1) = PadBytes c" by (simp add: cf construct_config)
  have fr: "Free ?p s1 = Some (Return (), free_state ?p s1)"
  proof (cases "DebugOn c")
    case False
    then have "\<not> DebugOn (configuration s1)" by (simp add: cf construct_config)
    with n1 show ?thesis by (rule Free_nodebug)
  next
    case True
    then have d1: "DebugOn (configuration s1)" by (simp add: cf construct_config)
    from True dbg have sz: "PTR_SIZE \<le> unat S" and hf: "header_fits K c"
      and big: "PTR_SIZE < unat S \<longrightarrow> ALLOCATED_PATTERN K \<noteq> FREED_PATTERN K"
      and eq: "unat S = PTR_SIZE \<longrightarrow> unat (PadBytes c) \<noteq> 0 \<longrightarrow> PAD_PATTERN K \<noteq> FREED_PATTERN K"
      and eq0: "unat S = PTR_SIZE \<longrightarrow> unat (PadBytes c) = 0 \<longrightarrow> FREED_PATTERN K \<noteq> 0"
      by (simp_all add: debug_ready_def)
    note bl = fresh_first_block_debug [OF w True hf ah]
    have ps: "unat (PageSize (stats s1)) = page_size_spec S c"
      unfolding cf by (rule construct_PageSize [OF well_sized_representable [OF w]])
    have b: "CheckPageBoundary ?p s1 = Some (Return ())"
      using last_block_within_page [OF w, of a]
      by (intro CheckPageBoundary_first) (simp_all add: cf(3) ps)
    have p: "CheckPadding ?p s1 = Return ()"
      unfolding CheckPadding_Return pb cf(2,4) using bl(1) by simp
    have s: "mem s1 (?p + PTR_SIZE) \<noteq> FREED_PATTERN (hdr s1)"
    proof (cases "PTR_SIZE < unat S")
      case True
      then have "mem s1 (?p + PTR_SIZE) = ALLOCATED_PATTERN K" using bl(2) by simp
      with True big show ?thesis by (simp add: cf)
    next
      case False
      with sz have s8: "unat S = PTR_SIZE" by simp
      show ?thesis
      proof (cases "unat (PadBytes c) = 0")
        case nopad: True
        have fits: "header_fits (hdr (pop_state ?s0)) (configuration (pop_state ?s0))"
          using hf by (simp add: pop_state_simps fresh_simps construct_config
              header_fits_cong [of "configuration (construct K m0 S c)" c])
        have "unat (PadBytes (configuration (pop_state ?s0)))
                + unat (hb_size (HBlockInfo (configuration (pop_state ?s0)))) \<le> ?p"
          using last_block_ge [of a c S]
          by (simp add: pop_state_simps fresh_simps construct_config)
        from headerStart_end [OF this]
        have "headerStart (pop_state ?s0) ?p + unat (hb_size (HBlockInfo (configuration (pop_state ?s0))))
                \<le> ?p + PTR_SIZE"
          by simp
        from Allocate_header_mem_outside [OF ah fits disjI2, OF this]
        have "mem s1 (?p + PTR_SIZE) = mem (pop_state ?s0) (?p + PTR_SIZE)" .
        also have "\<dots> = mem ?s0 (?p + PTR_SIZE)"
          using s8 FreeList_fresh_last_block [OF w, of K m0 a]
          by (simp add: pop_state_simps memset_apply fresh_simps construct_simps(9))
        also have "\<dots> = 0"
        proof -
          have "?p + PTR_SIZE = a + page_size_spec S c + 0"
            using s8 nopad w
            by (cases "unat (ObjectsPerPage c)")
              (simp_all add: last_block_def page_size_spec_def well_sized_def)
          moreover have "mem ?s0 (a + page_size_spec S c + 0) = 0"
            using w sz by (rule fresh_slack) (simp add: PTR_SIZE_def)
          ultimately show ?thesis by simp
        qed
        finally have "mem s1 (?p + PTR_SIZE) = 0" .
        with eq0 s8 nopad show ?thesis by (simp add: cf)
      next
        case pad: False
        then have "0 < unat (PadBytes c)" by simp
        with bl(1) have "mem s1 (?p + unat S + 0) = PAD_PATTERN K" by blast
        with s8 eq pad show ?thesis by (simp add: cf)
      qed
    qed
    from b p s show ?thesis
      unfolding Free_debug_Return_iff [OF n1 d1] by simp
  qed
  from a1 ah cf fr show ?thesis by blast
qed


lemma init_block_configuration:
  "init_block d s = Some s' \<Longrightarrow> configuration s' = configuration s"
  by (auto simp: init_block_def AddToFreeList_def Let_def split: if_splits)

lemma init_page_loop_configuration:
  assumes "init_page_loop page off s = Some s'"
  shows "configuration s' = configuration s"
  by (rule init_page_loop.raw_induct [OF _ assms])
    (auto simp: init_block_configuration split: if_splits option.splits)

lemma AllocateNewPage_configuration:
  assumes "AllocateNewPage np s = Some (r, s')"
  shows "configuration s' = configuration s"
  using assms
  by (auto simp: AllocateNewPage_def Let_def split: if_splits option.splits
      dest!: init_page_loop_configuration)

lemma Allocate_header_Return_eq:
  "Allocate_header lbl ni obj s = (Return p, s') \<Longrightarrow> p = obj"
  by (auto simp: Allocate_header_def Let_def split: HBLOCK_TYPE.splits option.splits)

text \<open>
  A returning \<open>Allocate\<close> outside passthrough mode pops the head of the free list (of the
  list that \<open>AllocateNewPage\<close> has filled, when it was empty).
\<close>

lemma Allocate_Return_pops:
  assumes "\<not> UseCPPMemManager (configuration s)" and "Allocate lbl h s = Some (Return p, s1)"
  shows "\<exists>s'. (FreeList s \<noteq> 0 \<longrightarrow> s' = s) \<and> configuration s' = configuration s \<and>
              p = FreeList s' \<and> p \<noteq> 0 \<and> FreeList s1 = load_ptr (mem s') (FreeList s') \<and>
              configuration s1 = configuration s"
proof -
  from assms obtain s' where s': "FreeList s \<noteq> 0 \<longrightarrow> s' = s"
    and c: "configuration s' = configuration s" and nz: "FreeList s' \<noteq> 0"
    and h: "Allocate_header lbl (new_info h) (FreeList s') (pop_state s') = (Return p, s1)"
    by (auto simp: Allocate_def Allocate_pop_eq split: if_splits option.splits outcome.splits prod.splits
        dest: AllocateNewPage_configuration)
  note f = Allocate_header_fields [OF h]
  from Allocate_header_Return_eq [OF h] s' c f nz show ?thesis
    by (intro exI [of _ s']) (simp add: pop_state_simps)
qed

lemma Free_Return_free_state:
  assumes "\<not> UseCPPMemManager (configuration s)" and "Free obj s = Some (Return (), s')"
  shows "s' = free_state obj s"
proof (cases "DebugOn (configuration s)")
  case True
  with assms show ?thesis by (simp add: Free_debug_Return_iff)
next
  case False
  with assms show ?thesis by (simp add: Free_nodebug)
qed

lemma free_state_link:
  assumes "FreeList s < 2 ^ 64"
  shows "load_ptr (mem (free_state obj s)) obj = FreeList s"
proof -
  have "\<exists>m. mem (free_state obj s) = store_ptr m obj (FreeList s)"
    by (auto simp: free_state_def Let_def AddToFreeList_def Free_header_def split: HBLOCK_TYPE.splits)
  then obtain m where "mem (free_state obj s) = store_ptr m obj (FreeList s)" ..
  then show ?thesis using assms by (simp add: load_ptr_store_ptr_same)
qed

text \<open>
  The free list is a stack: a returning \<open>Allocate\<close> pops its head, a returning \<open>Free\<close>
  pushes the block at its head, and the next \<open>Allocate\<close> pops that block again.
\<close>

lemma Allocate_Free_Allocate:
  assumes np: "\<not> UseCPPMemManager (configuration s0)"
    and a1: "Allocate l1 h1 s0 = Some (Return p1, s1)"
    and fr: "Free p1 s1 = Some (Return (), s2)"
    and ext: "hb_type (HBlockInfo (configuration s0)) = hbExternal \<longrightarrow> new_info h2 \<noteq> None"
  shows "(FreeList s0 \<noteq> 0 \<longrightarrow> p1 = FreeList s0 \<and> FreeList s1 = load_ptr (mem s0) p1) \<and>
         FreeList s2 = p1 \<and> load_ptr (mem s2) p1 = FreeList s1 \<and>
         (\<exists>s3. Allocate l2 h2 s2 = Some (Return p1, s3) \<and> FreeList s3 = FreeList s1)"
proof -
  from Allocate_Return_pops [OF np a1] obtain s' where
    s': "FreeList s0 \<noteq> 0 \<longrightarrow> s' = s0" and p: "p1 = FreeList s'" and p1: "p1 \<noteq> 0"
    and f1: "FreeList s1 = load_ptr (mem s') (FreeList s')"
    and c1: "configuration s1 = configuration s0" by blast
  have b: "FreeList s1 < 2 ^ 64" unfolding f1 by (rule load_ptr_bound)
  have n1: "\<not> UseCPPMemManager (configuration s1)" using np c1 by simp
  have s2: "s2 = free_state p1 s1" using n1 fr by (rule Free_Return_free_state)
  have c2: "configuration s2 = configuration s0" "FreeList s2 = p1"
    by (simp_all add: s2 free_state_simps c1)
  have l2: "load_ptr (mem s2) p1 = FreeList s1" unfolding s2 using b by (rule free_state_link)
  have n2: "\<not> UseCPPMemManager (configuration s2)" using np c2 by simp
  have nz: "FreeList s2 \<noteq> 0" using p1 c2 by simp
  have "hb_type (HBlockInfo (configuration (pop_state s2))) \<noteq> hbExternal \<or> new_info h2 \<noteq> None"
    using ext by (auto simp: pop_state_simps c2)
  from Allocate_header_Return [OF this, of l2 p1]
  obtain s3 where h3: "Allocate_header l2 (new_info h2) p1 (pop_state s2) = (Return p1, s3)"
    by (cases "Allocate_header l2 (new_info h2) p1 (pop_state s2)") auto
  then have a2: "Allocate l2 h2 s2 = Some (Return p1, s3)"
    unfolding Allocate_nonempty [OF n2 nz] by (simp add: c2)
  have f3: "FreeList s3 = FreeList s1"
    using Allocate_header_fields(5) [OF h3] l2 by (simp add: pop_state_simps c2)
  from s' p f1 have "FreeList s0 \<noteq> 0 \<longrightarrow> p1 = FreeList s0 \<and> FreeList s1 = load_ptr (mem s0) p1"
    by auto
  with c2(2) l2 a2 f3 show ?thesis by blast
qed

text \<open>
  On a fresh allocator with a well-sized configuration the first \<open>Allocate\<close> and the
  \<open>Free\<close> of its block return, and so does the second \<open>Allocate\<close>, with the same block.
\<close>

lemma fresh_LIFO:
  assumes w: "well_sized S c" and np: "\<not> UseCPPMemManager c" and mp: "MaxPages c \<noteq> 0"
    and dbg: "DebugOn c \<longrightarrow> debug_ready K S c"
    and ext: "hb_type (HBlockInfo c) = hbExternal \<longrightarrow> new_info h1 \<noteq> None \<and> new_info h2 \<noteq> None"
  shows "\<exists>s0 s1 s2 s3.
           ObjectAllocator_ctor K m0 (Some a) S c = Some (Return (), s0) \<and>
           Allocate l1 h1 s0 = Some (Return (last_block a S c), s1) \<and>
           Free (last_block a S c) s1 = Some (Return (), s2) \<and>
           Allocate l2 h2 s2 = Some (Return (last_block a S c), s3)"
proof -
  let ?s0 = "fresh K m0 a S c" and ?p = "last_block a S c"
  have c0: "ObjectAllocator_ctor K m0 (Some a) S c = Some (Return (), ?s0)"
    using w mp by (rule ctor_fresh)
  from ext have e1: "hb_type (HBlockInfo c) = hbExternal \<longrightarrow> new_info h1 \<noteq> None" by simp
  from fresh_Allocate_Free [OF w np dbg e1, of l1 m0 a] obtain s1 where
    a1: "Allocate l1 h1 ?s0 = Some (Return ?p, s1)"
    and fr: "Free ?p s1 = Some (Return (), free_state ?p s1)" by blast
  have n0: "\<not> UseCPPMemManager (configuration ?s0)"
    using np by (simp add: fresh_simps construct_config)
  have e2: "hb_type (HBlockInfo (configuration ?s0)) = hbExternal \<longrightarrow> new_info h2 \<noteq> None"
    using ext by (simp add: fresh_simps construct_config)
  from Allocate_Free_Allocate [OF n0 a1 fr e2, of l2] c0 a1 fr show ?thesis by blast
qed

text \<open>
  C7. Outside passthrough mode, in every state of the allocator and so in a fresh one: when
  \<open>p1 = Allocate()\<close> and \<open>Free(p1)\<close> have returned, the next \<open>Allocate()\<close> returns, and it
  returns \<open>p1\<close>. The free list is LIFO: the first \<open>Allocate\<close> has popped the head of the
  free list it found, \<open>Free\<close> has pushed \<open>p1\<close> at the head, linked to the former head, and
  the second \<open>Allocate\<close> pops \<open>p1\<close> and leaves the former head. (For the external flavor the
  host provides the info record of the second \<open>Allocate\<close>.)
\<close>

theorem LIFO_reuse:
  assumes np: "\<not> UseCPPMemManager (configuration s0)"
    and a1: "Allocate l1 h1 s0 = Some (Return p1, s1)"
    and fr: "Free p1 s1 = Some (Return (), s2)"
    and ext: "hb_type (HBlockInfo (configuration s0)) = hbExternal \<longrightarrow> new_info h2 \<noteq> None"
  shows "(FreeList s0 \<noteq> 0 \<longrightarrow> p1 = FreeList s0 \<and> FreeList s1 = load_ptr (mem s0) p1) \<and>
         FreeList s2 = p1 \<and> load_ptr (mem s2) p1 = FreeList s1 \<and>
         (\<exists>s3. Allocate l2 h2 s2 = Some (Return p1, s3) \<and> FreeList s3 = FreeList s1)"
  using assms by (rule Allocate_Free_Allocate)

lemma example_debug_ready: "debug_ready example_consts 16 example_config"
  by (simp add: debug_ready_def header_fits_def example_consts_def example_config_def PTR_SIZE_def)

theorem LIFO_reuse_witness:
  "\<exists>s0 p1 s1 s2 s3.
     ObjectAllocator_ctor example_consts (\<lambda>x. 0) (Some 4096) 16 example_config = Some (Return (), s0) \<and>
     Allocate None example_host s0 = Some (Return p1, s1) \<and> p1 = FreeList s0 \<and>
     Free p1 s1 = Some (Return (), s2) \<and> FreeList s2 = p1 \<and>
     Allocate None example_host s2 = Some (Return p1, s3) \<and> FreeList s3 = FreeList s1"
proof -
  let ?c = example_config and ?K = example_consts
  let ?s0 = "fresh ?K (\<lambda>x. 0) 4096 16 ?c" and ?p = "last_block 4096 16 ?c"
  have e: "example_config = example_config\<lparr>UseCPPMemManager := False, DebugOn := True\<rparr>"
    by (simp add: example_config_def)
  have w: "well_sized 16 ?c"
    by (subst e) (rule example_well_sized)
  have c: "\<not> UseCPPMemManager ?c" "MaxPages ?c \<noteq> 0"
    "hb_type (HBlockInfo ?c) = hbExternal \<longrightarrow> new_info example_host \<noteq> None"
    by (simp_all add: example_config_def)
  from example_debug_ready have d: "DebugOn ?c \<longrightarrow> debug_ready ?K 16 ?c" by simp
  have c0: "ObjectAllocator_ctor ?K (\<lambda>x. 0) (Some 4096) 16 ?c = Some (Return (), ?s0)"
    using w c(2) by (rule ctor_fresh)
  from fresh_Allocate_Free [OF w c(1) d c(3), of None "\<lambda>x. 0" 4096] obtain s1 where
    a1: "Allocate None example_host ?s0 = Some (Return ?p, s1)"
    and fr: "Free ?p s1 = Some (Return (), free_state ?p s1)" by blast
  have n0: "\<not> UseCPPMemManager (configuration ?s0)"
    using c(1) by (simp add: fresh_simps construct_config)
  have pz: "?p \<noteq> 0" using last_block_ge [of 4096 ?c 16] by (simp add: PTR_SIZE_def)
  have f0: "FreeList ?s0 \<noteq> 0" using FreeList_fresh_last_block [OF w, of ?K "\<lambda>x. 0" 4096] pz by simp
  have e2: "hb_type (HBlockInfo (configuration ?s0)) = hbExternal \<longrightarrow> new_info example_host \<noteq> None"
    using c(3) by (simp add: fresh_simps construct_config)
  from LIFO_reuse [OF n0 a1 fr e2, of None] f0 c0 a1 fr show ?thesis by blast
qed

text \<open>
  The configuration of the scenarios of the spec: no alignment, no padding, no header, four
  objects of 8 bytes per page, debug on. The three calls return, with the same block.
\<close>

definition scenario_config :: OAConfig where
  "scenario_config =
     \<lparr>UseCPPMemManager = False, ObjectsPerPage = 4, MaxPages = 2, DebugOn = True,
      PadBytes = 0, HBlockInfo = \<lparr>hb_type = hbNone, hb_size = 0, hb_additional = 0\<rparr>,
      Alignment = 0, LeftAlignSize = 0, InterAlignSize = 0\<rparr>"

lemma scenario_LIFO:
  "\<exists>s0 s1 s2 s3.
     ObjectAllocator_ctor example_consts (\<lambda>x. 0) (Some 4096) 8 scenario_config = Some (Return (), s0) \<and>
     Allocate None example_host s0 = Some (Return 4128, s1) \<and>
     Free 4128 s1 = Some (Return (), s2) \<and>
     Allocate None example_host s2 = Some (Return 4128, s3)"
proof -
  have w: "well_sized 8 scenario_config"
    by (simp add: well_sized_def stride_spec_def page_size_spec_def page_header_spec_def
        scenario_config_def align_spec_def PTR_SIZE_def)
  have d: "DebugOn scenario_config \<longrightarrow> debug_ready example_consts 8 scenario_config"
    by (simp add: debug_ready_def header_fits_def example_consts_def scenario_config_def PTR_SIZE_def)
  have p: "last_block 4096 8 scenario_config = 4128"
    by (simp add: last_block_def stride_spec_def page_header_spec_def
        scenario_config_def align_spec_def PTR_SIZE_def)
  have c: "\<not> UseCPPMemManager scenario_config" "MaxPages scenario_config \<noteq> 0"
    "hb_type (HBlockInfo scenario_config) = hbExternal \<longrightarrow>
       new_info example_host \<noteq> None \<and> new_info example_host \<noteq> None"
    by (simp_all add: scenario_config_def)
  from fresh_LIFO [OF w c(1,2) d c(3), of "\<lambda>x. 0" 4096 None None] show ?thesis
    unfolding p .
qed

lemma CheckPageBoundary_loop_chain_cong:
  "page_chain m page ps \<Longrightarrow> (\<forall>q\<in>set ps. load_ptr m' q = load_ptr m q) \<Longrightarrow>
   CheckPageBoundary_loop m' psz obj page = CheckPageBoundary_loop m psz obj page"
proof (induction ps arbitrary: page)
  case Nil
  then have "page = 0" by simp
  then show ?case
    by (simp add: CheckPageBoundary_loop.simps [of m'] CheckPageBoundary_loop.simps [of m])
next
  case (Cons q qs)
  then have pq: "page = q" and l: "load_ptr m' q = load_ptr m q"
    and ch: "page_chain m (load_ptr m q) qs" and r: "\<forall>q\<in>set qs. load_ptr m' q = load_ptr m q"
    by simp_all
  have ih: "CheckPageBoundary_loop m' psz obj (load_ptr m q)
            = CheckPageBoundary_loop m psz obj (load_ptr m q)"
    using ch r by (rule Cons.IH)
  show ?case
    unfolding pq
    by (subst CheckPageBoundary_loop.simps [of m'], subst CheckPageBoundary_loop.simps [of m])
       (simp add: l ih Let_def)
qed

text \<open>The memory that a returning \<open>Free\<close> leaves.\<close>

lemma free_state_mem:
  assumes hf: "header_fits (hdr s) (configuration s)"
    and ge: "unat (PadBytes (configuration s)) + unat (hb_size (HBlockInfo (configuration s))) \<le> p"
    and x: "x < headerStart s p \<or> p - unat (PadBytes (configuration s)) \<le> x"
  shows "mem (free_state p s) x =
         (if p \<le> x \<and> x < p + PTR_SIZE then of_nat (FreeList s div 256 ^ (x - p))
          else if DebugOn (configuration s) \<and> p \<le> x \<and> x < p + unat (ObjectSize (stats s))
          then FREED_PATTERN (hdr s) else mem s x)"
proof -
  define s2 where "s2 =
     (if DebugOn (configuration s)
      then s\<lparr>stats := (stats s)\<lparr>Deallocations := Deallocations (stats s) + 1,
                                   ObjectsInUse := ObjectsInUse (stats s) - 1\<rparr>,
             mem := memset (mem s) p (FREED_PATTERN (hdr s)) (unat (ObjectSize (stats s)))\<rparr>
      else s\<lparr>stats := (stats s)\<lparr>Deallocations := Deallocations (stats s) + 1,
                                   ObjectsInUse := ObjectsInUse (stats s) - 1\<rparr>\<rparr>)"
  have fs: "free_state p s = AddToFreeList p (Free_header p s2)"
    by (simp add: free_state_def s2_def Let_def)
  have c2: "configuration s2 = configuration s" "hdr s2 = hdr s" "FreeList s2 = FreeList s"
    by (simp_all add: s2_def)
  have h2: "headerStart s2 p = headerStart s p" by (simp add: headerStart_def c2)
  have m2: "mem s2 x = (if DebugOn (configuration s) \<and> p \<le> x \<and> x < p + unat (ObjectSize (stats s))
                        then FREED_PATTERN (hdr s) else mem s x)"
    by (simp add: s2_def memset_apply)
  have he: "headerStart s p + unat (hb_size (HBlockInfo (configuration s)))
            = p - unat (PadBytes (configuration s))"
    using ge by (rule headerStart_end)
  have f2: "header_fits (hdr s2) (configuration s2)" using hf by (simp add: c2)
  have "x < headerStart s2 p \<or> headerStart s2 p + unat (hb_size (HBlockInfo (configuration s2))) \<le> x"
    using x he by (simp add: c2 h2)
  with f2 have "mem (Free_header p s2) x = mem s2 x"
    by (rule Free_header_mem_outside)
  moreover have "mem (free_state p s) x =
      (if p \<le> x \<and> x < p + PTR_SIZE then of_nat (FreeList s div 256 ^ (x - p))
       else mem (Free_header p s2) x)"
    by (simp add: fs AddToFreeList_def store_ptr_apply Free_header_simps c2)
  ultimately show ?thesis by (simp add: m2)
qed

text \<open>
  A second \<open>Free\<close> of the same block, right after a \<open>Free\<close> that returned: the boundary
  and pad checks pass again, and the byte at offset \<open>W\<close> is the freed pattern when the
  object is larger than a pointer and is untouched otherwise.
\<close>

lemma second_Free_checks:
  assumes np: "\<not> UseCPPMemManager (configuration s)" and d: "DebugOn (configuration s)"
    and hf: "header_fits (hdr s) (configuration s)"
    and ge: "unat (PadBytes (configuration s)) + unat (hb_size (HBlockInfo (configuration s))) \<le> p"
    and sz: "PTR_SIZE \<le> unat (ObjectSize (stats s))"
    and ch: "page_chain (mem s) (PageList s) ps"
    and sep: "\<forall>q\<in>set ps. q + PTR_SIZE \<le> headerStart s p \<or> p + unat (ObjectSize (stats s)) \<le> q"
    and first: "Free p s = Some (Return (), s1)"
  shows "s1 = free_state p s"
    and "CheckPageBoundary p s1 = Some (Return ())"
    and "CheckPadding p s1 = Return ()"
    and "mem s1 (p + PTR_SIZE) =
           (if PTR_SIZE < unat (ObjectSize (stats s)) then FREED_PATTERN (hdr s)
            else mem s (p + PTR_SIZE))"
proof -
  let ?P = "unat (PadBytes (configuration s))" and ?S = "unat (ObjectSize (stats s))"
  from first have s1: "s1 = free_state p s" and cb: "CheckPageBoundary p s = Some (Return ())"
    and cp: "CheckPadding p s = Return ()"
    unfolding Free_debug_Return_iff [OF np d] by simp_all
  show "s1 = free_state p s" by (rule s1)
  note fm_lo = free_state_mem [OF hf ge disjI1] and fm_hi = free_state_mem [OF hf ge disjI2]
  have hs: "headerStart s p \<le> p" using headerStart_le [of s p] by linarith
  have links: "load_ptr (mem s1) q = load_ptr (mem s) q" if "q \<in> set ps" for q
  proof (rule load_ptr_cong)
    fix x assume x: "q \<le> x" "x < q + PTR_SIZE"
    from sep that have "q + PTR_SIZE \<le> headerStart s p \<or> p + ?S \<le> q" by blast
    then show "mem s1 x = mem s x"
    proof
      assume "q + PTR_SIZE \<le> headerStart s p"
      with x hs have lo: "x < headerStart s p" and "x < p" by linarith+
      with fm_lo [OF lo] show ?thesis unfolding s1 by simp
    next
      assume "p + ?S \<le> q"
      with x sz have a: "p + ?S \<le> x" "p + PTR_SIZE \<le> x" by linarith+
      then have "p - ?P \<le> x" by linarith
      from fm_hi [OF this] a show ?thesis unfolding s1 by simp
    qed
  qed
  from links have la: "\<forall>q\<in>set ps. load_ptr (mem (free_state p s)) q = load_ptr (mem s) q"
    unfolding s1 by blast
  have "CheckPageBoundary p s1 = CheckPageBoundary p s"
    unfolding CheckPageBoundary_def s1 free_state_simps
    using ch la by (rule CheckPageBoundary_loop_chain_cong)
  with cb show "CheckPageBoundary p s1 = Some (Return ())" by simp
  from cp have pads: "\<forall>i<?P. mem s (p - ?P + i) = PAD_PATTERN (hdr s) \<and>
                             mem s (p + ?S + i) = PAD_PATTERN (hdr s)"
    by (simp add: CheckPadding_Return)
  have "\<forall>i<?P. mem (free_state p s) (p - ?P + i) = PAD_PATTERN (hdr s) \<and>
                mem (free_state p s) (p + ?S + i) = PAD_PATTERN (hdr s)"
  proof (intro allI impI conjI)
    fix i assume i: "i < ?P"
    have lt: "p - ?P + i < p" using i ge by linarith
    have "p - ?P \<le> p - ?P + i" by simp
    from fm_hi [OF this] lt have "mem (free_state p s) (p - ?P + i) = mem s (p - ?P + i)"
      by simp
    with pads i show "mem (free_state p s) (p - ?P + i) = PAD_PATTERN (hdr s)" by simp
    have b: "p + PTR_SIZE \<le> p + ?S + i" using sz by linarith
    have "p - ?P \<le> p + ?S + i" by linarith
    from fm_hi [OF this] b have "mem (free_state p s) (p + ?S + i) = mem s (p + ?S + i)"
      by simp
    with pads i show "mem (free_state p s) (p + ?S + i) = PAD_PATTERN (hdr s)" by simp
  qed
  then show "CheckPadding p s1 = Return ()"
    unfolding CheckPadding_Return s1 free_state_simps by simp
  show "mem s1 (p + PTR_SIZE) =
           (if PTR_SIZE < ?S then FREED_PATTERN (hdr s) else mem s (p + PTR_SIZE))"
  proof -
    have "p - ?P \<le> p + PTR_SIZE" by linarith
    from fm_hi [OF this] d show ?thesis unfolding s1 by simp
  qed
qed

text \<open>
  C5 (as amended). With debug on and an object larger than a pointer, a second \<open>Free\<close> of
  a block, right after a \<open>Free\<close> of it that returned, throws \<open>E_MULTIPLE_FREE\<close>: the first
  \<open>Free\<close> painted the payload with the freed pattern, the free-list link overwrote only its
  first \<open>W\<close> bytes, and the byte at offset \<open>W\<close> that the second \<open>Free\<close> reads is the freed
  pattern. The block lies in an allocator whose page list is a chain of pages whose links are
  outside the header and payload of the block, and its header block is wide enough.
\<close>

theorem double_free_detected:
  assumes np: "\<not> UseCPPMemManager (configuration s)" and d: "DebugOn (configuration s)"
    and big: "PTR_SIZE < unat (ObjectSize (stats s))"
    and hf: "header_fits (hdr s) (configuration s)"
    and ge: "unat (PadBytes (configuration s)) + unat (hb_size (HBlockInfo (configuration s))) \<le> p"
    and ch: "page_chain (mem s) (PageList s) ps"
    and sep: "\<forall>q\<in>set ps. q + PTR_SIZE \<le> headerStart s p \<or> p + unat (ObjectSize (stats s)) \<le> q"
    and first: "Free p s = Some (Return (), s1)"
  shows "Free p s1 =
         Some (Throw E_MULTIPLE_FREE,
               s1\<lparr>stats := (stats s1)\<lparr>Deallocations := Deallocations (stats s1) + 1,
                                       ObjectsInUse := ObjectsInUse (stats s1) - 1\<rparr>\<rparr>) \<and>
         mem s1 (p + PTR_SIZE) = FREED_PATTERN (hdr s1) \<and>
         (\<forall>x. p + PTR_SIZE \<le> x \<and> x < p + unat (ObjectSize (stats s)) \<longrightarrow>
              mem s1 x = FREED_PATTERN (hdr s1))"
proof -
  from big have sz: "PTR_SIZE \<le> unat (ObjectSize (stats s))" by simp
  note c = second_Free_checks [OF np d hf ge sz ch sep first]
  have cf: "\<not> UseCPPMemManager (configuration s1)" "DebugOn (configuration s1)" "hdr s1 = hdr s"
    using np d unfolding c(1) by (simp_all add: free_state_simps)
  have m: "mem s1 (p + PTR_SIZE) = FREED_PATTERN (hdr s1)"
    using c(4) big by (simp add: cf)
  have painted: "\<forall>x. p + PTR_SIZE \<le> x \<and> x < p + unat (ObjectSize (stats s)) \<longrightarrow>
              mem s1 x = FREED_PATTERN (hdr s1)"
  proof (intro allI impI)
    fix x assume x: "p + PTR_SIZE \<le> x \<and> x < p + unat (ObjectSize (stats s))"
    then have "p - unat (PadBytes (configuration s)) \<le> x" by linarith
    then have "mem (free_state p s) x =
         (if p \<le> x \<and> x < p + PTR_SIZE then of_nat (FreeList s div 256 ^ (x - p))
          else if DebugOn (configuration s) \<and> p \<le> x \<and> x < p + unat (ObjectSize (stats s))
          then FREED_PATTERN (hdr s) else mem s x)"
      by (intro free_state_mem [OF hf ge]) simp
    with x d show "mem s1 x = FREED_PATTERN (hdr s1)" by (simp add: c(1) free_state_simps)
  qed
  from Free_MULTIPLE_FREE [OF cf(1,2) c(2,3) m] m painted show ?thesis by simp
qed

text \<open>The block handed out first by a fresh allocator satisfies what the second \<open>Free\<close> needs.\<close>

lemma fresh_block_separated:
  assumes w: "well_sized S c" and np: "\<not> UseCPPMemManager c" and a: "a \<noteq> 0"
    and al: "Allocate l1 h1 (fresh K m0 a S c) = Some (r, s1)"
    and cf: "configuration s1 = configuration (construct K m0 S c)" "PageList s1 = a"
  shows "page_chain (mem s1) (PageList s1) [a]"
    and "\<forall>q\<in>set [a]. q + PTR_SIZE \<le> headerStart s1 (last_block a S c) \<or>
                         last_block a S c + unat (ObjectSize (stats s1)) \<le> q"
    and "unat (PadBytes (configuration s1)) + unat (hb_size (HBlockInfo (configuration s1)))
           \<le> last_block a S c"
proof -
  from fresh_Allocate_page_link [OF w al np] a
  show "page_chain (mem s1) (PageList s1) [a]" by (simp add: cf)
  have "headerStart s1 (last_block a S c) = headerStart (fresh K m0 a S c) (last_block a S c)"
    by (rule headerStart_cong) (simp add: cf fresh_simps)
  with headerStart_fresh_last_block [of a K m0 S c]
  show "\<forall>q\<in>set [a]. q + PTR_SIZE \<le> headerStart s1 (last_block a S c) \<or>
                         last_block a S c + unat (ObjectSize (stats s1)) \<le> q" by simp
  show "unat (PadBytes (configuration s1)) + unat (hb_size (HBlockInfo (configuration s1)))
           \<le> last_block a S c"
    using last_block_ge [of a c S] by (simp add: cf construct_config)
qed

theorem double_free_detected_witness:
  "\<exists>s0 p s1 s2 s3.
     ObjectAllocator_ctor example_consts (\<lambda>x. 0) (Some 4096) 16 example_config = Some (Return (), s0) \<and>
     Allocate None example_host s0 = Some (Return p, s1) \<and>
     Free p s1 = Some (Return (), s2) \<and>
     Free p s2 = Some (Throw E_MULTIPLE_FREE, s3) \<and>
     mem s2 (p + PTR_SIZE) = FREED_PATTERN example_consts"
proof -
  let ?c = example_config and ?K = example_consts
  let ?s0 = "fresh ?K (\<lambda>x. 0) 4096 16 ?c" and ?p = "last_block 4096 16 ?c"
  have e: "example_config = example_config\<lparr>UseCPPMemManager := False, DebugOn := True\<rparr>"
    by (simp add: example_config_def)
  have w: "well_sized 16 ?c" by (subst e) (rule example_well_sized)
  have c: "\<not> UseCPPMemManager ?c" "MaxPages ?c \<noteq> 0" "DebugOn ?c"
    "hb_type (HBlockInfo ?c) = hbExternal \<longrightarrow> new_info example_host \<noteq> None"
    by (simp_all add: example_config_def)
  from example_debug_ready have dr: "DebugOn ?c \<longrightarrow> debug_ready ?K 16 ?c" by simp
  have c0: "ObjectAllocator_ctor ?K (\<lambda>x. 0) (Some 4096) 16 ?c = Some (Return (), ?s0)"
    using w c(2) by (rule ctor_fresh)
  from fresh_Allocate_Free [OF w c(1) dr c(4), of None "\<lambda>x. 0" 4096] obtain s1 where
    a1: "Allocate None example_host ?s0 = Some (Return ?p, s1)"
    and cf: "configuration s1 = configuration (construct ?K (\<lambda>x. 0) 16 ?c)" "hdr s1 = ?K"
      "PageList s1 = 4096" "ObjectSize (stats s1) = 16"
    and fr: "Free ?p s1 = Some (Return (), free_state ?p s1)" by blast
  note sp = fresh_block_separated [OF w c(1) _ a1 cf(1,3)]
  have n1: "\<not> UseCPPMemManager (configuration s1)" "DebugOn (configuration s1)"
    using c by (simp_all add: cf construct_config)
  have big: "PTR_SIZE < unat (ObjectSize (stats s1))" by (simp add: cf PTR_SIZE_def)
  have hf: "header_fits (hdr s1) (configuration s1)"
    using example_debug_ready
    by (simp add: cf debug_ready_def construct_config header_fits_cong [of "configuration (construct ?K (\<lambda>x. 0) 16 ?c)" ?c])
  from double_free_detected [OF n1 big hf sp(3) sp(1) sp(2) fr]
  have "\<exists>s3. Free ?p (free_state ?p s1) = Some (Throw E_MULTIPLE_FREE, s3)"
    and "mem (free_state ?p s1) (?p + PTR_SIZE) = FREED_PATTERN ?K"
    by (simp_all add: free_state_simps cf)
  with c0 a1 fr show ?thesis by blast
qed

text \<open>
  C5 as stated fails for an object of exactly the size of a pointer: the byte at offset
  \<open>W\<close> is then the first byte of the right pad, which \<open>Free\<close> never paints, and the second
  \<open>Free\<close> of the same block returns like the first.
\<close>

definition example_small :: size_t where
  "example_small = 8"

lemma example_small_ready:
  "well_sized example_small example_config" "debug_ready example_consts example_small example_config"
  by (simp_all add: well_sized_def stride_spec_def page_size_spec_def page_header_spec_def
      example_config_def align_spec_def PTR_SIZE_def debug_ready_def header_fits_def
      example_consts_def example_small_def)

theorem double_free_undetected_small_object:
  "\<exists>s0 p s1 s2 s3.
     DebugOn example_config \<and>
     ObjectAllocator_ctor example_consts (\<lambda>x. 0) (Some 4096) example_small example_config
       = Some (Return (), s0) \<and>
     Allocate None example_host s0 = Some (Return p, s1) \<and>
     Free p s1 = Some (Return (), s2) \<and>
     Free p s2 = Some (Return (), s3)"
proof -
  let ?c = example_config and ?K = example_consts and ?S = example_small
  let ?s0 = "fresh ?K (\<lambda>x. 0) 4096 ?S ?c" and ?p = "last_block 4096 ?S ?c"
  note w = example_small_ready(1)
  have c: "\<not> UseCPPMemManager ?c" "MaxPages ?c \<noteq> 0" "DebugOn ?c"
    "hb_type (HBlockInfo ?c) = hbExternal \<longrightarrow> new_info example_host \<noteq> None"
    "unat (PadBytes ?c) = 2"
    by (simp_all add: example_config_def)
  from example_small_ready(2) have dr: "DebugOn ?c \<longrightarrow> debug_ready ?K ?S ?c" by simp
  have c0: "ObjectAllocator_ctor ?K (\<lambda>x. 0) (Some 4096) ?S ?c = Some (Return (), ?s0)"
    using w c(2) by (rule ctor_fresh)
  from fresh_Allocate_Free [OF w c(1) dr c(4), of None "\<lambda>x. 0" 4096] obtain s1 where
    a1: "Allocate None example_host ?s0 = Some (Return ?p, s1)"
    and ah: "Allocate_header None (new_info example_host) ?p (pop_state ?s0) = (Return ?p, s1)"
    and cf: "configuration s1 = configuration (construct ?K (\<lambda>x. 0) ?S ?c)" "hdr s1 = ?K"
      "PageList s1 = 4096" "ObjectSize (stats s1) = ?S"
    and fr: "Free ?p s1 = Some (Return (), free_state ?p s1)" by blast
  note sp = fresh_block_separated [OF w c(1) _ a1 cf(1,3)]
  have n1: "\<not> UseCPPMemManager (configuration s1)" "DebugOn (configuration s1)"
    using c by (simp_all add: cf construct_config)
  have sz: "PTR_SIZE \<le> unat (ObjectSize (stats s1))" "\<not> PTR_SIZE < unat (ObjectSize (stats s1))"
    "unat ?S = PTR_SIZE"
    by (simp_all add: cf PTR_SIZE_def example_small_def)
  have hfc: "header_fits ?K ?c" using example_small_ready(2) by (simp add: debug_ready_def)
  then have hf: "header_fits (hdr s1) (configuration s1)"
    by (simp add: cf construct_config header_fits_cong [of "configuration (construct ?K (\<lambda>x. 0) ?S ?c)" ?c])
  note ck = second_Free_checks [OF n1 hf sp(3) sz(1) sp(1) sp(2) fr]
  let ?s2 = "free_state ?p s1"
  have n2: "\<not> UseCPPMemManager (configuration ?s2)" "DebugOn (configuration ?s2)"
    using n1 by (simp_all add: free_state_simps)
  have "(0::nat) < unat (PadBytes ?c)" by (simp add: c(5))
  with fresh_first_block_debug(1) [OF w c(3) hfc ah]
  have "mem s1 (?p + unat ?S + 0) = PAD_PATTERN ?K" by blast
  then have "mem s1 (?p + PTR_SIZE) = PAD_PATTERN ?K" by (simp add: sz(3))
  with ck(4) sz(2) have "mem ?s2 (?p + PTR_SIZE) = PAD_PATTERN ?K" by simp
  then have nf: "mem ?s2 (?p + PTR_SIZE) \<noteq> FREED_PATTERN (hdr ?s2)"
    by (simp add: free_state_simps cf example_consts_def)
  have "Free ?p ?s2 = Some (Return (), free_state ?p ?s2)"
    unfolding Free_debug_Return_iff [OF n2] using ck(2,3) nf by simp
  with c0 a1 fr c(3) show ?thesis by blast
qed



text \<open>What \<open>Allocate\<close> writes into an extended header.\<close>

lemma load_le_2: "load_le m a 2 = unat (m a) + 256 * unat (m (Suc a))"
  by (simp add: numeral_2_eq_2)

lemma Allocate_header_extended:
  assumes t: "hb_type (HBlockInfo (configuration s)) = hbExtended"
    and h: "Allocate_header lbl ni obj s = (r, s')"
  shows "r = Return obj"
    and "mem s' (headerStart s obj + unat (ucast (hb_additional (HBlockInfo (configuration s))) :: byte))
           = mem s (headerStart s obj + unat (ucast (hb_additional (HBlockInfo (configuration s))) :: byte)) + 1"
    and "mem s' (headerStart s obj + unat (ucast (hb_additional (HBlockInfo (configuration s))) :: byte) + 1)
           = mem s (headerStart s obj + unat (ucast (hb_additional (HBlockInfo (configuration s))) :: byte) + 1)"
    and "load_le (mem s') (headerStart s obj + unat (ucast (hb_additional (HBlockInfo (configuration s))) :: byte) + 2) 4
           = unat (Allocations (stats s))"
    and "mem s' (headerStart s obj + unat (ucast (hb_additional (HBlockInfo (configuration s))) :: byte) + 6) = 1"
proof -
  let ?hs1 = "headerStart s obj + unat (ucast (hb_additional (HBlockInfo (configuration s))) :: byte)"
  let ?m1 = "(mem s)(?hs1 := mem s ?hs1 + 1)"
  let ?m2 = "store_le ?m1 (?hs1 + 2) 4 (unat (Allocations (stats s)))"
  from t h have r: "r = Return obj" and s': "s' = s\<lparr>mem := ?m2(?hs1 + 2 + 4 := 1)\<rparr>"
    by (simp_all add: Allocate_header_def Let_def)
  show "r = Return obj" by (rule r)
  show "mem s' ?hs1 = mem s ?hs1 + 1" by (simp add: s' store_le_apply)
  show "mem s' (?hs1 + 1) = mem s (?hs1 + 1)" by (simp add: s' store_le_apply)
  show "mem s' (?hs1 + 6) = 1" by (simp add: s')
  have "load_le (mem s') (?hs1 + 2) 4 = load_le ?m2 (?hs1 + 2) 4"
    by (rule load_le_cong) (simp add: s')
  also have "\<dots> = unat (Allocations (stats s)) mod 256 ^ 4"
    by (rule load_le_store_le_same)
  also have "\<dots> = unat (Allocations (stats s))"
    using unsigned_less [of "Allocations (stats s)", where ?'a = nat] by simp
  finally show "load_le (mem s') (?hs1 + 2) 4 = unat (Allocations (stats s))" .
qed

lemma free_state_Allocations: "Allocations (stats (free_state p s)) = Allocations (stats s)"
  by (simp add: free_state_def Let_def AddToFreeList_def Free_header_simps)

text \<open>
  The calls of \<open>n\<close> rounds of \<open>Allocate\<close> and \<open>Free\<close> of the block \<open>p\<close>.
\<close>

definition rounds :: "nat \<Rightarrow> HostNew \<Rightarrow> addr \<Rightarrow> call list" where
  "rounds n h p = concat (replicate n [CallAllocate None h, CallFree p])"

lemma run_calls_append:
  "run_calls (xs @ ys) s = (case run_calls xs s of None \<Rightarrow> None | Some s' \<Rightarrow> run_calls ys s')"
  by (induction xs arbitrary: s) (auto split: option.splits)

text \<open>
  The invariant of the rounds, without debug and with an extended header without user
  bytes: the block \<open>p\<close> heads the free list, the first byte of its use count is the number of
  rounds modulo 256 and its second byte is 0.
\<close>

definition round_inv :: "OAConfig \<Rightarrow> OAConsts \<Rightarrow> addr \<Rightarrow> nat \<Rightarrow> ObjectAllocator \<Rightarrow> bool" where
  "round_inv c0 K p n s \<longleftrightarrow>
     configuration s = c0 \<and> hdr s = K \<and> FreeList s = p \<and>
     mem s (headerStart s p) = of_nat n \<and> mem s (headerStart s p + 1) = 0 \<and>
     Allocations (stats s) = of_nat n"

lemma round_step:
  assumes c: "\<not> UseCPPMemManager c0" "\<not> DebugOn c0" "hb_type (HBlockInfo c0) = hbExtended"
    "hb_additional (HBlockInfo c0) = 0"
    and hf: "header_fits K c0" and p: "unat (PadBytes c0) + unat (hb_size (HBlockInfo c0)) \<le> p"
    and pz: "p \<noteq> 0"
    and inv: "round_inv c0 K p n s"
  shows "\<exists>s'. run_calls [CallAllocate None h, CallFree p] s = Some s' \<and> round_inv c0 K p (Suc n) s'"
proof -
  from inv have i: "configuration s = c0" "hdr s = K" "FreeList s = p"
    "mem s (headerStart s p) = of_nat n" "mem s (headerStart s p + 1) = 0"
    "Allocations (stats s) = of_nat n"
    by (simp_all add: round_inv_def)
  have n0: "\<not> UseCPPMemManager (configuration s)" using c i by simp
  have nz: "FreeList s \<noteq> 0" using pz i by simp
  obtain r s1 where ah: "Allocate_header None (new_info h) p (pop_state s) = (r, s1)"
    by (cases "Allocate_header None (new_info h) p (pop_state s)")
  have t: "hb_type (HBlockInfo (configuration (pop_state s))) = hbExtended"
    using c i by (simp add: pop_state_simps)
  have u0: "unat (ucast (hb_additional (HBlockInfo (configuration (pop_state s)))) :: byte) = 0"
    using c i by (simp add: pop_state_simps)
  note f1 = Allocate_header_fields [OF ah]
  have pm: "mem (pop_state s) = mem s" using c i by (simp add: pop_state_simps)
  have hp: "headerStart (pop_state s) p = headerStart s p"
    by (rule headerStart_cong) (simp add: pop_state_simps)
  have ex: "r = Return p" "mem s1 (headerStart s p) = mem s (headerStart s p) + 1"
    "mem s1 (headerStart s p + 1) = mem s (headerStart s p + 1)"
    using Allocate_header_extended(1,2,3) [OF t ah] unfolding u0 hp pm by simp_all
  have al: "Allocate None h s = Some (Return p, s1)"
    unfolding Allocate_nonempty [OF n0 nz] i(3) ah ex(1) ..
  have c1: "configuration s1 = c0" "hdr s1 = K"
    by (simp_all add: f1 pop_state_simps i)
  have hs1: "headerStart s1 p = headerStart s p"
    by (rule headerStart_cong) (simp add: c1 i)
  have n1: "\<not> UseCPPMemManager (configuration s1)" "\<not> DebugOn (configuration s1)"
    using c by (simp_all add: c1)
  have fr: "Free p s1 = Some (Return (), free_state p s1)"
    using n1 by (rule Free_nodebug)
  let ?s2 = "free_state p s1"
  have he: "headerStart s p + unat (hb_size (HBlockInfo c0)) = p - unat (PadBytes c0)"
    using headerStart_end [of s p] p by (simp add: i)
  have h7: "7 \<le> unat (hb_size (HBlockInfo c0))" "2 + unat (BASIC_HEADER_SIZE K) \<le> unat (hb_size (HBlockInfo c0))"
    using hf c by (simp_all add: header_fits_def)
  have lt: "headerStart s p + 1 < p" using he h7 by linarith
  have keep: "mem ?s2 x = mem s1 x" if "x = headerStart s p \<or> x = headerStart s p + 1" for x
  proof -
    from that lt have x: "x < headerStart s p + 2" "x < p" by linarith+
    have "mem (Free_header p (s1\<lparr>stats := st\<rparr>)) x = mem s1 x" for st
      using x c by (simp add: Free_header_def Let_def c1 headerStart_def memset_apply i)
    with x show ?thesis
      using n1 by (simp add: free_state_def Let_def AddToFreeList_def store_ptr_apply Free_header_simps)
  qed
  have "round_inv c0 K p (Suc n) ?s2"
    unfolding round_inv_def
    using keep ex(2,3) i(4,5)
    by (simp add: free_state_simps c1 hs1 i free_state_Allocations f1 pop_state_simps)
  moreover have "run_calls [CallAllocate None h, CallFree p] s = Some ?s2"
    by (simp add: al fr)
  ultimately show ?thesis by blast
qed

lemma rounds_inv:
  assumes c: "\<not> UseCPPMemManager c0" "\<not> DebugOn c0" "hb_type (HBlockInfo c0) = hbExtended"
    "hb_additional (HBlockInfo c0) = 0"
    and hf: "header_fits K c0" and p: "unat (PadBytes c0) + unat (hb_size (HBlockInfo c0)) \<le> p"
    and pz: "p \<noteq> 0"
  shows "round_inv c0 K p k s \<Longrightarrow>
         \<exists>s'. run_calls (rounds n h p) s = Some s' \<and> round_inv c0 K p (k + n) s'"
proof (induction n arbitrary: k s)
  case 0
  then show ?case by (simp add: rounds_def)
next
  case (Suc n)
  from round_step [OF c hf p pz Suc.prems, of h] obtain s1 where
    r1: "run_calls [CallAllocate None h, CallFree p] s = Some s1"
    and i1: "round_inv c0 K p (Suc k) s1" by blast
  from Suc.IH [OF i1] obtain s' where
    r2: "run_calls (rounds n h p) s1 = Some s'" and i2: "round_inv c0 K p (Suc k + n) s'" by blast
  have "rounds (Suc n) h p = [CallAllocate None h, CallFree p] @ rounds n h p"
    by (simp add: rounds_def)
  then have "run_calls (rounds (Suc n) h p) s = Some s'"
    by (simp only: run_calls_append r1 r2 option.case)
  with i2 show ?case by auto
qed


lemma fresh_round_inv:
  assumes w: "well_sized S c" and t: "hb_type (HBlockInfo c) = hbExtended"
    and hf: "header_fits K c"
  shows "round_inv (configuration (construct K m0 S c)) K (last_block a S c) 0 (fresh K m0 a S c)"
proof -
  let ?p = "last_block a S c"
  from fresh_as_last_init_block [OF w, of K m0 a] obtain s' where
    f: "fresh K m0 a S c = block_state ?p s'"
    and cs: "configuration s' = configuration (construct K m0 S c)" by blast
  have cf: "HBlockInfo (configuration s') = HBlockInfo c" "PadBytes (configuration s') = PadBytes c"
    by (simp_all add: cs construct_config)
  have hs: "headerStart (fresh K m0 a S c) ?p = headerStart s' ?p"
    by (rule headerStart_cong) (simp add: fresh_simps cs)
  have h7: "7 \<le> unat (hb_size (HBlockInfo c))" using hf t by (simp add: header_fits_def)
  have ge: "unat (PadBytes (configuration s')) + unat (hb_size (HBlockInfo (configuration s'))) \<le> ?p"
    using last_block_ge [of a c S] by (simp add: cf)
  have z: "mem (fresh K m0 a S c) x = 0"
    if "headerStart s' ?p \<le> x" "x < headerStart s' ?p + 7" for x
    unfolding f using that h7 by (intro block_state_header_zero ge) (simp_all add: cf)
  have "mem (fresh K m0 a S c) (headerStart s' ?p) = 0"
    "mem (fresh K m0 a S c) (headerStart s' ?p + 1) = 0"
    by (rule z; simp)+
  moreover have "Allocations (stats (fresh K m0 a S c)) = 0"
    by (simp add: fresh_simps construct_simps OAStats_init_def)
  ultimately show ?thesis
    using FreeList_fresh_last_block [OF w, of K m0 a]
    by (simp add: round_inv_def fresh_simps hs)
qed

text \<open>
  After \<open>n\<close> rounds on a fresh allocator the next \<open>Allocate\<close> is the \<open>n + 1\<close>-th use of
  the block: it writes the allocation number and the flag, but the two bytes of the use
  count hold \<open>(n + 1) mod 256\<close>, since only the first byte is incremented.
\<close>

lemma use_count_mod_256:
  assumes w: "well_sized S c" and c: "\<not> UseCPPMemManager c" "\<not> DebugOn c"
    "hb_type (HBlockInfo c) = hbExtended" "hb_additional (HBlockInfo c) = 0"
    and hf: "header_fits K c"
  shows "\<exists>s s'. run_calls (rounds n h (last_block a S c)) (fresh K m0 a S c) = Some s \<and>
           Allocate None h s = Some (Return (last_block a S c), s') \<and>
           load_le (mem s') (last_block a S c - unat (PadBytes c) - unat (hb_size (HBlockInfo c))) 2
             = Suc n mod 256 \<and>
           load_le (mem s') (last_block a S c - unat (PadBytes c) - unat (hb_size (HBlockInfo c)) + 2) 4
             = Suc n mod 2 ^ 32 \<and>
           mem s' (last_block a S c - unat (PadBytes c) - unat (hb_size (HBlockInfo c)) + 6) = 1"
proof -
  let ?p = "last_block a S c"
  let ?c0 = "configuration (construct K m0 S c)"
  let ?hs = "?p - unat (PadBytes c) - unat (hb_size (HBlockInfo c))"
  have c0: "\<not> UseCPPMemManager ?c0" "\<not> DebugOn ?c0" "hb_type (HBlockInfo ?c0) = hbExtended"
    "hb_additional (HBlockInfo ?c0) = 0"
    using c by (simp_all add: construct_config)
  have hf0: "header_fits K ?c0"
    using hf header_fits_cong [OF construct_config(1), of K K m0 S c] by simp
  have ge: "unat (PadBytes ?c0) + unat (hb_size (HBlockInfo ?c0)) \<le> ?p"
    using last_block_ge [of a c S] by (simp add: construct_config)
  have pz: "?p \<noteq> 0" using last_block_ge [of a c S] by (simp add: PTR_SIZE_def)
  from rounds_inv [OF c0 hf0 ge pz fresh_round_inv [OF w c(3) hf], of n h] obtain s where
    r: "run_calls (rounds n h ?p) (fresh K m0 a S c) = Some s" and inv: "round_inv ?c0 K ?p n s"
    by auto
  from inv have i: "configuration s = ?c0" "hdr s = K" "FreeList s = ?p"
    "mem s (headerStart s ?p) = of_nat n" "mem s (headerStart s ?p + 1) = 0"
    "Allocations (stats s) = of_nat n"
    by (simp_all add: round_inv_def)
  have hs: "headerStart s ?p = ?hs" by (simp add: headerStart_def i construct_config)
  have n0: "\<not> UseCPPMemManager (configuration s)" using c0 i by simp
  have nz: "FreeList s \<noteq> 0" using pz i by simp
  obtain r' s' where ah: "Allocate_header None (new_info h) ?p (pop_state s) = (r', s')"
    by (cases "Allocate_header None (new_info h) ?p (pop_state s)")
  have t: "hb_type (HBlockInfo (configuration (pop_state s))) = hbExtended"
    using c0 i by (simp add: pop_state_simps)
  have u0: "unat (ucast (hb_additional (HBlockInfo (configuration (pop_state s)))) :: byte) = 0"
    using c0 i by (simp add: pop_state_simps)
  have pm: "mem (pop_state s) = mem s" using c0 i by (simp add: pop_state_simps)
  have hp: "headerStart (pop_state s) ?p = ?hs"
    unfolding hs [symmetric] by (rule headerStart_cong) (simp add: pop_state_simps)
  have pa: "Allocations (stats (pop_state s)) = of_nat (Suc n)"
    by (simp add: pop_state_simps i)
  have ex: "r' = Return ?p" "mem s' ?hs = of_nat n + 1" "mem s' (?hs + 1) = 0"
    "load_le (mem s') (?hs + 2) 4 = unat (of_nat (Suc n) :: unsigned)" "mem s' (?hs + 6) = 1"
    using Allocate_header_extended [OF t ah] i(4,5) unfolding u0 hp pm pa hs by simp_all
  have al: "Allocate None h s = Some (Return ?p, s')"
    unfolding Allocate_nonempty [OF n0 nz] i(3) ah ex(1) ..
  have "of_nat n + 1 = (of_nat (Suc n) :: byte)" by simp
  then have "unat (of_nat n + 1 :: byte) = Suc n mod 256"
    by (simp only: unat_of_nat) simp
  moreover have "load_le (mem s') ?hs 2 = unat (mem s' ?hs) + 256 * unat (mem s' (?hs + 1))"
    by (simp add: load_le_2)
  ultimately have u2: "load_le (mem s') ?hs 2 = Suc n mod 256"
    unfolding ex(2,3) by simp
  have u4: "load_le (mem s') (?hs + 2) 4 = Suc n mod 2 ^ 32"
    unfolding ex(4) by (simp only: unat_of_nat) simp
  from r al u2 u4 ex(5) show ?thesis by blast
qed

definition example_config_extended :: OAConfig where
  "example_config_extended =
     example_config\<lparr>DebugOn := False,
       HBlockInfo := \<lparr>hb_type = hbExtended, hb_size = 7, hb_additional = 0\<rparr>\<rparr>"

lemma example_extended_well_sized: "well_sized 16 example_config_extended"
  by (simp add: well_sized_def stride_spec_def page_size_spec_def page_header_spec_def
      example_config_def example_config_extended_def align_spec_def PTR_SIZE_def)

lemma example_extended_last_block: "last_block 4096 16 example_config_extended = 4152"
  by (simp add: last_block_def stride_spec_def page_header_spec_def
      example_config_def example_config_extended_def align_spec_def PTR_SIZE_def)

text \<open>
  Claim C2 (extended header: every \<open>Allocate\<close> increments the 2-byte use count, writes the
  allocation number and sets the flag). The code increments one byte: \<open>++(*headerStart)\<close>
  acts on an \<open>unsigned char\<close>, without carry into the second byte of the count. A fresh
  allocator with an extended header of 7 bytes and no user bytes, objects of 16 bytes, whose
  block at 4152 is allocated and freed 255 times and then allocated once more: this is the
  256th use of the block, the allocation number in the header is 256 and the flag is 1, but
  the two bytes of the use count at 4143 read 0.
\<close>

theorem use_count_wraps_at_256:
  "\<exists>s0 s s'.
     ObjectAllocator_ctor example_consts (\<lambda>x. 0) (Some 4096) 16 example_config_extended
       = Some (Return (), s0) \<and>
     run_calls (rounds 255 example_host 4152) s0 = Some s \<and>
     Allocate None example_host s = Some (Return 4152, s') \<and>
     load_le (mem s') 4143 2 = 0 \<and> load_le (mem s') 4145 4 = 256 \<and> mem s' 4149 = 1"
proof -
  let ?c = example_config_extended
  have m: "MaxPages ?c \<noteq> 0" by (simp add: example_config_def example_config_extended_def)
  have c: "\<not> UseCPPMemManager ?c" "\<not> DebugOn ?c" "hb_type (HBlockInfo ?c) = hbExtended"
    "hb_additional (HBlockInfo ?c) = 0"
    by (simp_all add: example_config_def example_config_extended_def)
  have hf: "header_fits example_consts ?c"
    by (simp add: header_fits_def example_consts_def example_config_def example_config_extended_def)
  have v: "unat (PadBytes ?c) = 2" "unat (hb_size (HBlockInfo ?c)) = 7"
    by (simp_all add: example_config_def example_config_extended_def)
  from use_count_mod_256 [OF example_extended_well_sized c hf, of 255 example_host 4096 "\<lambda>x. 0"]
    ctor_fresh [OF example_extended_well_sized m, of example_consts "\<lambda>x. 0" 4096]
  show ?thesis
    unfolding example_extended_last_block v by simp
qed



text \<open>
  The link cells of the nodes of a list are pairwise apart: two distinct nodes are at least
  a pointer away from each other.
\<close>

definition cell_sep :: "addr list \<Rightarrow> bool" where
  "cell_sep xs \<longleftrightarrow>
     distinct xs \<and> (\<forall>x\<in>set xs. \<forall>y\<in>set xs. x = y \<or> x + PTR_SIZE \<le> y \<or> y + PTR_SIZE \<le> x)"



lemma cell_sep_subset:
  "cell_sep ys \<Longrightarrow> set xs \<subseteq> set ys \<Longrightarrow> distinct xs \<Longrightarrow> cell_sep xs"
  by (auto simp: cell_sep_def)





lemma load_ptr_store_ptr_other:
  "a + PTR_SIZE \<le> b \<or> b + PTR_SIZE \<le> a \<Longrightarrow> load_ptr (store_ptr m a v) b = load_ptr m b"
  by (rule load_ptr_cong) (auto simp: store_ptr_apply)

lemma page_chain_cong:
  "(\<And>n. n \<in> set xs \<Longrightarrow> load_ptr m' n = load_ptr m n) \<Longrightarrow> page_chain m' h xs = page_chain m h xs"
  by (induction xs arbitrary: h) simp_all


lemma page_chain_nonzero: "page_chain m h xs \<Longrightarrow> 0 \<notin> set xs"
  by (induction xs arbitrary: h) auto


lemma within_page_cong': "PageSize (stats s') = PageSize (stats s) \<Longrightarrow> within_page s' = within_page s"
  by (simp add: within_page_def fun_eq_iff)

section \<open>The loops of \<open>IsPageEmpty\<close> and \<open>FreePage\<close> on a well-formed free list\<close>











section \<open>\<open>FreeEmptyPages\<close> on a well-formed page list and free list\<close>

text \<open>
  What \<open>IsPageEmpty\<close> tests: at least \<open>ObjectsPerPage_\<close> nodes of the free list \<open>fl\<close> lie in
  the address range of the page.
\<close>

definition counted_empty :: "ObjectAllocator \<Rightarrow> addr list \<Rightarrow> addr \<Rightarrow> bool" where
  "counted_empty s fl page \<longleftrightarrow>
     unat (ObjectsPerPage (configuration s)) \<le> length (filter (within_page s page) fl)"

definition in_pages :: "ObjectAllocator \<Rightarrow> addr list \<Rightarrow> addr \<Rightarrow> bool" where
  "in_pages s ps x \<longleftrightarrow> (\<exists>p\<in>set ps. within_page s p x)"

text \<open>The address ranges of the pages are pairwise disjoint.\<close>

definition pages_apart :: "ObjectAllocator \<Rightarrow> addr list \<Rightarrow> bool" where
  "pages_apart s ps \<longleftrightarrow>
     distinct ps \<and>
     (\<forall>p\<in>set ps. \<forall>q\<in>set ps. p = q \<or> p + unat (PageSize (stats s)) \<le> q \<or>
                                       q + unat (PageSize (stats s)) \<le> p)"

text \<open>
  The state after the pages \<open>R\<close> were released, in this order, and \<open>n\<close> nodes were taken off
  the free list: \<open>pl\<close> and \<open>f\<close> are the new heads of the two lists and \<open>m'\<close> the new memory.
\<close>

definition released_state ::
  "ObjectAllocator \<Rightarrow> addr \<Rightarrow> addr \<Rightarrow> memory \<Rightarrow> nat \<Rightarrow> addr list \<Rightarrow> ObjectAllocator" where
  "released_state s pl f m' n R =
     s\<lparr>PageList := pl, FreeList := f, mem := m',
       stats := (stats s)\<lparr>FreeObjects := FreeObjects (stats s) - of_nat n,
                          PagesInUse := PagesInUse (stats s) - of_nat (length R)\<rparr>,
       deleted := rev R @ deleted s\<rparr>"

lemma released_state_simps:
  "PageList (released_state s pl f m' n R) = pl"
  "FreeList (released_state s pl f m' n R) = f"
  "mem (released_state s pl f m' n R) = m'"
  "configuration (released_state s pl f m' n R) = configuration s"
  "PageSize (stats (released_state s pl f m' n R)) = PageSize (stats s)"
  "FreeObjects (stats (released_state s pl f m' n R)) = FreeObjects (stats s) - of_nat n"
  "PagesInUse (stats (released_state s pl f m' n R)) = PagesInUse (stats s) - of_nat (length R)"
  "deleted (released_state s pl f m' n R) = rev R @ deleted s"
  by (simp_all add: released_state_def)




lemma within_page_released [simp]:
  "within_page (released_state s pl f m' n R) = within_page s"
  by (rule within_page_cong') (simp add: released_state_simps)

lemma counted_empty_released [simp]:
  "counted_empty (released_state s pl f m' n R) = counted_empty s"
  by (simp add: counted_empty_def fun_eq_iff released_state_simps)

lemma in_pages_released [simp]:
  "in_pages (released_state s pl f m' n R) = in_pages s"
  by (simp add: in_pages_def fun_eq_iff)

lemma pages_apart_released [simp]:
  "pages_apart (released_state s pl f m' n R) = pages_apart s"
  by (simp add: pages_apart_def fun_eq_iff released_state_simps)

lemma in_pages_simps [simp]:
  "in_pages s [] x \<longleftrightarrow> False"
  "in_pages s (p # R) x \<longleftrightarrow> within_page s p x \<or> in_pages s R x"
  by (simp_all add: in_pages_def)























section \<open>Empty pages in the words of the spec\<close>

text \<open>
  The payload addresses of a page: \<open>page + PH + k * D\<close> for \<open>k < N\<close>. A page is empty when
  all of them appear in the free list \<open>fl\<close>.
\<close>

definition payload_addrs :: "ObjectAllocator \<Rightarrow> addr \<Rightarrow> addr list" where
  "payload_addrs s page =
     map (\<lambda>k. page + unat (pageHeader s) + k * unat (dataSize s))
       [0..<unat (ObjectsPerPage (configuration s))]"


text \<open>
  A well-formed heap: the page list and the free list are null-terminated lists \<open>ps\<close> and
  \<open>fl\<close> in memory, whose link cells do not overlap (so that no address appears twice, the
  invariant 3 of the spec); the pages do not overlap; every node of the free list is a
  payload address of a page of the page list (the invariant 2 of the spec); and the
  \<open>N \<ge> 1\<close> payload addresses of a page are distinct and lie in the page.
\<close>

definition heap_ok :: "ObjectAllocator \<Rightarrow> addr list \<Rightarrow> addr list \<Rightarrow> bool" where
  "heap_ok s ps fl \<longleftrightarrow>
     page_chain (mem s) (PageList s) ps \<and> page_chain (mem s) (FreeList s) fl \<and>
     cell_sep (ps @ fl) \<and> pages_apart s ps \<and>
     (\<forall>x\<in>set fl. \<exists>p\<in>set ps. x \<in> set (payload_addrs s p)) \<and>
     ObjectsPerPage (configuration s) \<noteq> 0 \<and> 0 < unat (dataSize s) \<and>
     unat (pageHeader s) + (unat (ObjectsPerPage (configuration s)) - 1) * unat (dataSize s)
       < unat (PageSize (stats s))"







section \<open>The heap of a fresh allocator is well formed\<close>

lemma cell_sep_rev: "cell_sep (rev xs) = cell_sep xs"
  by (simp add: cell_sep_def)

lemma strided_le:
  fixes D :: nat
  assumes "j < k"
  shows "base + j * D + D \<le> base + k * D"
proof -
  from assms have "Suc j \<le> k" by simp
  then have "Suc j * D \<le> k * D" by (rule mult_le_mono1)
  then show ?thesis by simp
qed









lemma payload_addrs_released [simp]:
  "payload_addrs (released_state s pl f m' n R) = payload_addrs s"
  by (simp add: payload_addrs_def fun_eq_iff released_state_def)







section \<open>The well-formed heap is kept by \<open>Allocate\<close> and \<open>Free\<close>\<close>

text \<open>
  The geometry of an allocator in use outside passthrough mode: objects hold a pointer, the
  page header has room for the link, a header block and a pad, the stride for a header
  block, two pads and an object, the page size is that of \<open>N \<ge> 1\<close> blocks, and the offsets
  fit the \<open>unsigned int\<close> of the page loop.
\<close>

definition geom_ok :: "ObjectAllocator \<Rightarrow> bool" where
  "geom_ok s \<longleftrightarrow>
     \<not> UseCPPMemManager (configuration s) \<and> header_fits (hdr s) (configuration s) \<and>
     PTR_SIZE \<le> unat (ObjectSize (stats s)) \<and> 1 \<le> unat (ObjectsPerPage (configuration s)) \<and>
     PTR_SIZE + unat (hb_size (HBlockInfo (configuration s))) + unat (PadBytes (configuration s))
       \<le> unat (pageHeader s) \<and>
     unat (hb_size (HBlockInfo (configuration s))) + 2 * unat (PadBytes (configuration s))
       + unat (ObjectSize (stats s)) \<le> unat (dataSize s) \<and>
     unat (PageSize (stats s)) =
       unat (pageHeader s) + (unat (ObjectsPerPage (configuration s)) - 1) * unat (dataSize s)
         + unat (ObjectSize (stats s)) + unat (PadBytes (configuration s)) \<and>
     unat (pageHeader s) + unat (ObjectsPerPage (configuration s)) * unat (dataSize s) < 2 ^ 32"

lemma geom_ok_cong:
  assumes "configuration s' = configuration s" "hdr s' = hdr s" "pageHeader s' = pageHeader s"
    "dataSize s' = dataSize s" "ObjectSize (stats s') = ObjectSize (stats s)"
    "PageSize (stats s') = PageSize (stats s)"
  shows "geom_ok s' = geom_ok s"
  by (simp add: geom_ok_def assms)

lemma payload_addrs_cong:
  assumes "configuration s' = configuration s" "pageHeader s' = pageHeader s"
    "dataSize s' = dataSize s"
  shows "payload_addrs s' = payload_addrs s"
  by (simp add: payload_addrs_def fun_eq_iff assms)

lemma pages_apart_cong:
  "PageSize (stats s') = PageSize (stats s) \<Longrightarrow> pages_apart s' = pages_apart s"
  by (simp add: pages_apart_def fun_eq_iff)

text \<open>A payload address and its block, from the header block to the right pad, lie in the page.\<close>

lemma payload_region:
  assumes g: "geom_ok s" and x: "x \<in> set (payload_addrs s q)"
  shows "q + PTR_SIZE + unat (hb_size (HBlockInfo (configuration s)))
           + unat (PadBytes (configuration s)) \<le> x"
    and "x + unat (ObjectSize (stats s)) + unat (PadBytes (configuration s))
           \<le> q + unat (PageSize (stats s))"
proof -
  let ?N = "unat (ObjectsPerPage (configuration s))" and ?D = "unat (dataSize s)"
  from x obtain k where k: "k < ?N" and xk: "x = q + unat (pageHeader s) + k * ?D"
    by (auto simp: payload_addrs_def)
  from k have "k \<le> ?N - 1" by simp
  then have kd: "k * ?D \<le> (?N - 1) * ?D" by (rule mult_le_mono1)
  from g show "q + PTR_SIZE + unat (hb_size (HBlockInfo (configuration s)))
                 + unat (PadBytes (configuration s)) \<le> x"
    unfolding xk geom_ok_def by linarith
  from g kd show "x + unat (ObjectSize (stats s)) + unat (PadBytes (configuration s))
                    \<le> q + unat (PageSize (stats s))"
    unfolding xk geom_ok_def by linarith
qed

text \<open>The blocks of two distinct payload addresses do not overlap.\<close>

lemma payload_blocks_apart:
  assumes g: "geom_ok s" and apart: "pages_apart s ps"
    and q: "q \<in> set ps" "q' \<in> set ps"
    and x: "x \<in> set (payload_addrs s q)" and y: "y \<in> set (payload_addrs s q')"
    and ne: "x \<noteq> y"
  shows "x + unat (ObjectSize (stats s)) + 2 * unat (PadBytes (configuration s))
           + unat (hb_size (HBlockInfo (configuration s))) \<le> y \<or>
         y + unat (ObjectSize (stats s)) + 2 * unat (PadBytes (configuration s))
           + unat (hb_size (HBlockInfo (configuration s))) \<le> x"
proof (cases "q = q'")
  case True
  let ?D = "unat (dataSize s)"
  from x obtain k where xk: "x = q + unat (pageHeader s) + k * ?D" by (auto simp: payload_addrs_def)
  from y True obtain j where yj: "y = q + unat (pageHeader s) + j * ?D" by (auto simp: payload_addrs_def)
  from g have d: "unat (hb_size (HBlockInfo (configuration s))) + 2 * unat (PadBytes (configuration s))
       + unat (ObjectSize (stats s)) \<le> ?D" by (simp add: geom_ok_def)
  from ne xk yj consider "k < j" | "j < k" by (cases k j rule: linorder_cases) auto
  then show ?thesis
  proof cases
    case 1
    from strided_le [OF 1, of "q + unat (pageHeader s)" ?D] d show ?thesis
      unfolding xk yj by linarith
  next
    case 2
    from strided_le [OF 2, of "q + unat (pageHeader s)" ?D] d show ?thesis
      unfolding xk yj by linarith
  qed
next
  case False
  with apart q have "q + unat (PageSize (stats s)) \<le> q' \<or> q' + unat (PageSize (stats s)) \<le> q"
    unfolding pages_apart_def by blast
  with payload_region [OF g x] payload_region [OF g y] show ?thesis by linarith
qed

lemma page_cell_outside_block:
  assumes g: "geom_ok s" and apart: "pages_apart s ps"
    and q: "q \<in> set ps" and p: "p \<in> set ps" and x: "x \<in> set (payload_addrs s q)"
  shows "p + PTR_SIZE \<le> headerStart s x \<or>
         x + unat (ObjectSize (stats s)) + unat (PadBytes (configuration s)) \<le> p"
proof (cases "p = q")
  case True
  with payload_region(1) [OF g x] show ?thesis by (simp add: headerStart_def) linarith
next
  case False
  with apart q p have "q + unat (PageSize (stats s)) \<le> p \<or> p + unat (PageSize (stats s)) \<le> q"
    unfolding pages_apart_def by blast
  moreover from g have "PTR_SIZE \<le> unat (PageSize (stats s))" unfolding geom_ok_def by linarith
  ultimately show ?thesis
    using payload_region [OF g x] by (simp add: headerStart_def) linarith
qed



lemma Allocate_header_deleted:
  "Allocate_header lbl ni obj s = (r, s') \<Longrightarrow> deleted s' = deleted s"
  by (auto simp: Allocate_header_def Let_def split: HBLOCK_TYPE.splits option.splits)

lemma pop_state_stats:
  "PagesInUse (stats (pop_state s)) = PagesInUse (stats s)"
  "FreeObjects (stats (pop_state s)) = FreeObjects (stats s) - 1"
  by (simp_all add: pop_state_def Let_def)

text \<open>\<open>Allocate\<close> writes inside the block it hands out, from the header block to the payload.\<close>

lemma Allocate_frame:
  assumes h: "Allocate_header lbl ni (FreeList s) (pop_state s) = (r, s1)"
    and fits: "header_fits (hdr s) (configuration s)"
    and ge: "unat (PadBytes (configuration s)) + unat (hb_size (HBlockInfo (configuration s)))
               \<le> FreeList s"
    and y: "y < headerStart s (FreeList s) \<or> FreeList s + unat (ObjectSize (stats s)) \<le> y"
  shows "mem s1 y = mem s y"
proof -
  let ?x = "FreeList s"
  have fits': "header_fits (hdr (pop_state s)) (configuration (pop_state s))"
    using fits by (simp add: pop_state_simps)
  have hs: "headerStart (pop_state s) ?x = headerStart s ?x"
    by (rule headerStart_cong) (simp add: pop_state_simps)
  have he: "headerStart s ?x + unat (hb_size (HBlockInfo (configuration s)))
              = ?x - unat (PadBytes (configuration s))"
    using ge by (rule headerStart_end)
  from y he have "y < headerStart (pop_state s) ?x \<or>
      headerStart (pop_state s) ?x + unat (hb_size (HBlockInfo (configuration (pop_state s)))) \<le> y"
    unfolding hs by (simp add: pop_state_simps) linarith
  from Allocate_header_mem_outside [OF h fits' this]
  have "mem s1 y = mem (pop_state s) y" .
  also have "\<dots> = mem s y"
    using y headerStart_le [of s ?x] by (auto simp: pop_state_simps memset_apply)
  finally show ?thesis .
qed

lemma heap_ok_Allocate:
  assumes g: "geom_ok s" and ok: "heap_ok s ps (x # fl)"
    and ext: "hb_type (HBlockInfo (configuration s)) = hbExternal \<longrightarrow> new_info h \<noteq> None"
  shows "\<exists>s1. Allocate lbl h s = Some (Return x, s1) \<and> heap_ok s1 ps fl \<and> geom_ok s1 \<and>
              PagesInUse (stats s1) = PagesInUse (stats s) \<and>
              FreeObjects (stats s1) = FreeObjects (stats s) - 1 \<and>
              deleted s1 = deleted s"
proof -
  let ?S = "unat (ObjectSize (stats s))" and ?P = "unat (PadBytes (configuration s))"
  let ?H = "unat (hb_size (HBlockInfo (configuration s)))"
  from ok have chp: "page_chain (mem s) (PageList s) ps"
    and fx: "FreeList s = x" and x0: "x \<noteq> 0"
    and chf: "page_chain (mem s) (load_ptr (mem s) x) fl"
    and sep: "cell_sep (ps @ x # fl)" and apart: "pages_apart s ps"
    and inv2: "\<forall>y\<in>set (x # fl). \<exists>p\<in>set ps. y \<in> set (payload_addrs s p)"
    and n0: "ObjectsPerPage (configuration s) \<noteq> 0" and d0: "0 < unat (dataSize s)"
    and gg: "unat (pageHeader s) + (unat (ObjectsPerPage (configuration s)) - 1) * unat (dataSize s)
              < unat (PageSize (stats s))"
    by (simp_all add: heap_ok_def)
  from g have np: "\<not> UseCPPMemManager (configuration s)"
    and fits: "header_fits (hdr s) (configuration s)" and s8: "PTR_SIZE \<le> ?S"
    by (simp_all add: geom_ok_def)
  from inv2 obtain q where q: "q \<in> set ps" and xq: "x \<in> set (payload_addrs s q)" by auto
  have ge: "?P + ?H \<le> FreeList s" using payload_region(1) [OF g xq] fx by linarith
  have nz: "FreeList s \<noteq> 0" using fx x0 by simp
  obtain r s1 where h: "Allocate_header lbl (new_info h) (FreeList s) (pop_state s) = (r, s1)"
    by (cases "Allocate_header lbl (new_info h) (FreeList s) (pop_state s)")
  have "hb_type (HBlockInfo (configuration (pop_state s))) \<noteq> hbExternal \<or> new_info h \<noteq> None"
    using ext by (auto simp: pop_state_simps)
  from Allocate_header_Return [OF this, of lbl "FreeList s"] h have r: "r = Return x"
    by (simp add: fx)
  have al: "Allocate lbl h s = Some (Return x, s1)"
    unfolding Allocate_nonempty [OF np nz] h r ..
  note f = Allocate_header_fields [OF h] Allocate_header_stats [OF h]
  have cf: "configuration s1 = configuration s" "hdr s1 = hdr s" "pageHeader s1 = pageHeader s"
    "dataSize s1 = dataSize s" "ObjectSize (stats s1) = ObjectSize (stats s)"
    "PageSize (stats s1) = PageSize (stats s)" "PageList s1 = PageList s"
    "FreeList s1 = load_ptr (mem s) x"
    using f by (simp_all add: pop_state_simps fx)
  have st: "PagesInUse (stats s1) = PagesInUse (stats s)"
    "FreeObjects (stats s1) = FreeObjects (stats s) - 1" "deleted s1 = deleted s"
    using f Allocate_header_deleted [OF h] by (simp_all add: pop_state_stats pop_state_simps)
  have keep_p: "load_ptr (mem s1) p = load_ptr (mem s) p" if "p \<in> set ps" for p
  proof (rule load_ptr_cong)
    fix y assume y: "p \<le> y" "y < p + PTR_SIZE"
    from page_cell_outside_block [OF g apart q that xq] y
    have "y < headerStart s (FreeList s) \<or> FreeList s + ?S \<le> y" unfolding fx by linarith
    from Allocate_frame [OF h fits ge this] show "mem s1 y = mem s y" .
  qed
  have keep_f: "load_ptr (mem s1) n = load_ptr (mem s) n" if "n \<in> set fl" for n
  proof (rule load_ptr_cong)
    fix y assume y: "n \<le> y" "y < n + PTR_SIZE"
    from sep that have "x \<noteq> n" by (auto simp: cell_sep_def)
    moreover from inv2 that obtain q' where "q' \<in> set ps" "n \<in> set (payload_addrs s q')" by auto
    ultimately have "x + ?S + 2 * ?P + ?H \<le> n \<or> n + ?S + 2 * ?P + ?H \<le> x"
      using payload_blocks_apart [OF g apart q _ xq] by blast
    with y s8 have "y < headerStart s (FreeList s) \<or> FreeList s + ?S \<le> y"
      unfolding fx headerStart_def by linarith
    from Allocate_frame [OF h fits ge this] show "mem s1 y = mem s y" .
  qed
  have c1: "page_chain (mem s1) (PageList s1) ps"
    using chp page_chain_cong [of ps "mem s1" "mem s", OF keep_p] by (simp add: cf)
  have c2: "page_chain (mem s1) (FreeList s1) fl"
    using chf page_chain_cong [of fl "mem s1" "mem s", OF keep_f] by (simp add: cf)
  have sep': "cell_sep (ps @ fl)"
    by (rule cell_sep_subset [OF sep]) (use sep in \<open>auto simp: cell_sep_def\<close>)
  have pa: "payload_addrs s1 = payload_addrs s" by (rule payload_addrs_cong) (simp_all add: cf)
  have ap: "pages_apart s1 = pages_apart s" by (rule pages_apart_cong) (simp add: cf)
  have "heap_ok s1 ps fl"
    unfolding heap_ok_def pa ap cf(1,3,4,6)
    using c1 c2 sep' apart inv2 n0 d0 gg by simp
  moreover have "geom_ok s1" using g geom_ok_cong [of s1 s] by (simp add: cf)
  ultimately show ?thesis using al st by blast
qed

end
